theory Spec2Isabelle
  imports Complex_Main
begin

section \<open>JavaScript numbers\<close>

text \<open>
  The game keeps every quantity in a JavaScript Number. The fields of the saved state are
  sanitised on load (\<open>safeNum\<close>) and every write to them is guarded (\<open>isFinite\<close>, a
  clamp), so they are modelled as reals: a finite double, idealised with exact arithmetic
  (no rounding, no overflow). Values that are computed and tested for finiteness before
  they are stored (the elapsed time of a tick, a karma gain) range over \<open>jsnum\<close>, which adds
  the three non-finite values. The zero of the reals stands for \<open>+0\<close>. Where the very
  number a function returns is in question (the soft caps, the stage requirement), the
  function is embedded a second time with the rounding of doubles: section
  \<open>Binary64 rounding\<close>.
\<close>

datatype jsnum = Fin real | PosInf | NegInf | NaN

fun js_isFinite :: "jsnum \<Rightarrow> bool" where
  "js_isFinite (Fin x) = True"
| "js_isFinite _ = False"

fun js_neg :: "jsnum \<Rightarrow> jsnum" where
  "js_neg (Fin x) = Fin (- x)"
| "js_neg PosInf = NegInf"
| "js_neg NegInf = PosInf"
| "js_neg NaN = NaN"

fun js_add :: "jsnum \<Rightarrow> jsnum \<Rightarrow> jsnum" where
  "js_add (Fin a) (Fin b) = Fin (a + b)"
| "js_add NaN y = NaN"
| "js_add x NaN = NaN"
| "js_add PosInf NegInf = NaN"
| "js_add NegInf PosInf = NaN"
| "js_add PosInf y = PosInf"
| "js_add NegInf y = NegInf"
| "js_add (Fin a) y = y"

fun js_mul :: "jsnum \<Rightarrow> jsnum \<Rightarrow> jsnum" where
  "js_mul (Fin a) (Fin b) = Fin (a * b)"
| "js_mul NaN y = NaN"
| "js_mul x NaN = NaN"
| "js_mul (Fin a) y = (if a = 0 then NaN else if 0 < a then y else js_neg y)"
| "js_mul x (Fin b) = (if b = 0 then NaN else if 0 < b then x else js_neg x)"
| "js_mul PosInf y = y"
| "js_mul NegInf y = js_neg y"

text \<open>\<open>Math.max\<close>: NaN if either argument is NaN.\<close>

fun js_max :: "jsnum \<Rightarrow> jsnum \<Rightarrow> jsnum" where
  "js_max (Fin a) (Fin b) = Fin (max a b)"
| "js_max NaN y = NaN"
| "js_max x NaN = NaN"
| "js_max PosInf y = PosInf"
| "js_max x PosInf = PosInf"
| "js_max NegInf y = y"
| "js_max x NegInf = x"

fun js_floor :: "jsnum \<Rightarrow> jsnum" where
  "js_floor (Fin x) = Fin (of_int \<lfloor>x\<rfloor>)"
| "js_floor x = x"

fun js_sqrt :: "jsnum \<Rightarrow> jsnum" where
  "js_sqrt (Fin x) = (if x < 0 then NaN else Fin (sqrt x))"
| "js_sqrt PosInf = PosInf"
| "js_sqrt x = NaN"

text \<open>Division of two finite numbers: a zero divisor gives an infinity or NaN.\<close>

definition js_div :: "real \<Rightarrow> real \<Rightarrow> jsnum" where
  "js_div a b =
     (if b = 0 then (if 0 < a then PosInf else if a < 0 then NegInf else NaN)
      else Fin (a / b))"

text \<open>\<open>const safeNum = (v, d = 0) => (Number.isFinite(v) ? v : d)\<close>\<close>

fun safeNum :: "jsnum \<Rightarrow> real \<Rightarrow> real" where
  "safeNum (Fin v) d = v"
| "safeNum _ d = d"

section \<open>Binary64 rounding\<close>

text \<open>
  A JavaScript Number is an IEEE 754 binary64 value, and every arithmetic operation
  returns the double nearest to the exact result, a tie going to the neighbour with an
  even significand. \<open>rne\<close> rounds a real to the nearest integer in that way.
\<close>

definition rne :: "real \<Rightarrow> int" where
  "rne y = (let f = \<lfloor>y\<rfloor>; r = y - of_int f
            in if r < 1/2 then f else if 1/2 < r then f + 1
               else if even f then f else f + 1)"

text \<open>
  A nonzero real \<open>x\<close> lies in the binade \<open>[2^E, 2^(E+1))\<close> with \<open>E = \<lfloor>log\<^sub>2 \<bar>x\<bar>\<rfloor>\<close>. The
  doubles of that binade are the multiples of \<open>2^(E - 52)\<close>; below \<open>2^(-1022)\<close> the spacing
  stays \<open>2^(-1074)\<close> (gradual underflow). \<open>ulp_exp\<close> is the exponent of that spacing.
\<close>

definition ulp_exp :: "real \<Rightarrow> int" where
  "ulp_exp x = max \<lfloor>log 2 \<bar>x\<bar>\<rfloor> (- 1022) - 52"

text \<open>
  \<open>f64 x\<close> is the double nearest to \<open>x\<close>. Overflow to \<open>Infinity\<close> is left out: \<open>f64\<close>
  has no largest value. An operation of the source on doubles \<open>a\<close> and \<open>b\<close>, say
  \<open>a * b\<close>, is \<open>f64 (a * b)\<close>; a decimal literal \<open>c\<close> is \<open>f64 c\<close>. At a given
  number \<open>f64\<close> is computed through lemma \<open>f64_eval\<close>, once the binade is known.
\<close>

definition f64 :: "real \<Rightarrow> real" where
  "f64 x = (if x = 0 then 0
            else of_int (rne (x / power_int 2 (ulp_exp x))) * power_int 2 (ulp_exp x))"

text \<open>
  \<open>Math.exp\<close> and \<open>Math.pow\<close> at an integer exponent. ECMAScript leaves their last
  bits to the implementation; they are taken as correctly rounded.
\<close>

definition js_exp :: "real \<Rightarrow> real" where
  "js_exp x = f64 (exp x)"

definition js_pow :: "real \<Rightarrow> int \<Rightarrow> real" where
  "js_pow x n = f64 (power_int x n)"

section \<open>Balance configuration\<close>

datatype skill_id = breath_control | meridian_flow | lotus_meditation | dantian_temps | closed_door

text \<open>
  The object \<open>BAL\<close>. It is overwritten at start-up by \<open>balance.json\<close>, which is why the
  functions below take it as a parameter. Fields read with a fallback
  (\<open>BAL.reincarnation.deathPenalty || 0.5\<close>, \<open>BAL.lifespan?.yearsPerSecond || 1.0\<close>,
  \<open>BAL.cycleDefinitions?.mortal?.realms || [0, 1, 2, 3, 4]\<close>, \<open>BAL.timeSpeed?.speeds\<close>) are
  optional. An entry \<open>None\<close> of \<open>realmMaxLifespan\<close> is the source's \<open>null\<close>: an infinite
  lifespan.
\<close>

record config =
  skill_base :: "skill_id \<Rightarrow> real"
  realmBase :: real
  realmBaseScale :: real
  stageScale :: real
  qpcBaseStart :: real
  qpsBaseStart :: real
  qpcBaseAdd :: real
  qpsBaseAdd :: real
  lifetimeQiDivisor :: real
  realmKarmaFactor :: real
  minKarma :: real
  deathPenalty :: "real option"
  capHours :: real
  realmMaxLifespan :: "real option list"
  yearsPerSecond :: "real option"
  timeSpeed_speeds :: "real list option"
  timeSpeed_unlockRealmIndex :: "int list option"
  cycle_mortal_realms :: "int list option"
  cycle_spirit_realms :: "int list option"

text \<open>The fallback values written in the source (version 1.2.0).\<close>

definition BAL :: config where
  "BAL = \<lparr>
     skill_base = (\<lambda>s. case s of breath_control \<Rightarrow> 0.5 | meridian_flow \<Rightarrow> 1
       | lotus_meditation \<Rightarrow> 0.15 | dantian_temps \<Rightarrow> 0.10 | closed_door \<Rightarrow> 0.20),
     realmBase = 100, realmBaseScale = 25, stageScale = 1.65,
     qpcBaseStart = 1, qpsBaseStart = 0, qpcBaseAdd = 1, qpsBaseAdd = 0.5,
     lifetimeQiDivisor = 1000, realmKarmaFactor = 2, minKarma = 1, deathPenalty = None,
     capHours = 12,
     realmMaxLifespan = [Some 100, Some 200, Some 500, Some 1000, Some 3000, Some 10000,
       Some 30000, Some 100000, Some 300000, None],
     yearsPerSecond = Some 0.01,
     timeSpeed_speeds = Some [0, 1, 2, 4, 6, 8, 10],
     timeSpeed_unlockRealmIndex = Some [0, 0, 2, 4, 6, 8, 9],
     cycle_mortal_realms = None, cycle_spirit_realms = None \<rparr>"

section \<open>Game state\<close>

datatype cycle = mortal | spirit

record reinc_t =
  reinc_times :: int
  karma :: real
  lifetimeQi :: real

text \<open>\<open>S.lifespan = { current, max }\<close>; \<open>None\<close> is \<open>null\<close> (infinite).\<close>

record lifespan_t =
  current_ls :: "real option"
  max_ls :: "real option"

record timeSpeed_t =
  current_ts :: real
  paused :: bool

record flags_t =
  unlockedBeyondSpirit :: bool
  hasUnlockedSpiritCycle :: bool
  hasCompletedMandatoryST10 :: bool
  canManualReincarnate :: bool
  lifespanHandled :: bool

record lifecycle_t =
  isReincarnating :: bool
  lastDeathAt :: int
  lastReincarnateAt :: int

text \<open>
  The snapshot written by \<open>saveSessionSnapshot\<close>: the wall clock in milliseconds and the
  time speed at suspend. \<open>S.session\<close> absent or \<open>null\<close> is \<open>None\<close>.
\<close>

record session_t =
  lastTs :: int
  lastSpeed :: real

text \<open>
  The global \<open>S\<close>. \<open>age\<close> and the legacy \<open>ageYears\<close> may each be \<open>undefined\<close>
  (\<open>defaultState\<close> sets only \<open>ageYears\<close>). \<open>S.stats.deaths\<close> and \<open>S.meta.unlockedSpeeds\<close>
  are the only fields of their objects, \<open>S.life.isCleanRun\<close> likewise. The objects
  \<open>lifespan\<close>, \<open>timeSpeed\<close>, \<open>flags\<close>, \<open>lifecycle\<close>, \<open>stats\<close>, \<open>meta\<close> and
  \<open>reinc\<close> always exist: \<open>defaultState\<close> creates them and \<open>load\<close> adds them to an old save.
\<close>

record state =
  qi :: real
  qpcBase :: real
  qpsBase :: real
  qpcMult :: real
  qpsMult :: real
  offlineMult :: real
  realmIndex :: int
  stage :: int
  lastTick :: int
  skills :: "skill_id \<rightharpoonup> nat"
  reinc :: reinc_t
  lifespan :: lifespan_t
  age :: "real option"
  ageYears :: "real option"
  isDead :: bool
  timeSpeed :: timeSpeed_t
  currentCycle :: cycle
  life_isCleanRun :: bool
  flags :: flags_t
  lifecycle :: lifecycle_t
  stats_deaths :: int
  meta_unlockedSpeeds :: "real list"
  session :: "session_t option"

text \<open>
  \<open>defaultState\<close>, at the clock reading \<open>now\<close>.
  \<open>BAL.lifespan?.realmMaxLifespan?.[0] || 100\<close>: a missing, null or zero entry gives 100.
\<close>

definition firstLifespanOr100 :: "config \<Rightarrow> real" where
  "firstLifespanOr100 cfg =
     (case realmMaxLifespan cfg of
        Some v # _ \<Rightarrow> (if v = 0 then 100 else v)
      | _ \<Rightarrow> 100)"

definition defaultState :: "config \<Rightarrow> int \<Rightarrow> state" where
  "defaultState cfg now = \<lparr>
     qi = 0,
     qpcBase = qpcBaseStart cfg,
     qpsBase = qpsBaseStart cfg,
     qpcMult = 1, qpsMult = 1, offlineMult = 1,
     realmIndex = 0, stage = 1,
     lastTick = now,
     skills = Map.empty,
     reinc = \<lparr> reinc_times = 0, karma = 0, lifetimeQi = 0 \<rparr>,
     lifespan = \<lparr> current_ls = Some (firstLifespanOr100 cfg),
                  max_ls = Some (firstLifespanOr100 cfg) \<rparr>,
     age = None,
     ageYears = Some 0,
     isDead = False,
     timeSpeed = \<lparr> current_ts = 1, paused = False \<rparr>,
     currentCycle = mortal,
     life_isCleanRun = True,
     flags = \<lparr> unlockedBeyondSpirit = False, hasUnlockedSpiritCycle = False,
               hasCompletedMandatoryST10 = False, canManualReincarnate = False,
               lifespanHandled = False \<rparr>,
     lifecycle = \<lparr> isReincarnating = False, lastDeathAt = 0, lastReincarnateAt = 0 \<rparr>,
     stats_deaths = 0,
     meta_unlockedSpeeds = [0, 0.5, 1],
     session = None \<rparr>"

section \<open>Karma soft caps and progression mathematics\<close>

text \<open>
  The three soft caps, in the exact arithmetic in which the state of the game is
  modelled.
\<close>

definition karmaQiMult :: "real \<Rightarrow> real" where
  "karmaQiMult k = 1 + 1.2 * (1 - exp (- 0.04 * k))"

definition karmaLifeMult :: "real \<Rightarrow> real" where
  "karmaLifeMult k = 1 + 1.5 * (1 - exp (- 0.03 * k))"

definition karmaStageMult :: "real \<Rightarrow> real" where
  "karmaStageMult k = 1 + 0.6 * (1 - exp (- 0.03 * k))"

text \<open>\<open>return 1.0 / karmaStageMult(S.reinc.karma)\<close>\<close>

definition karmaStageBonus :: "state \<Rightarrow> real" where
  "karmaStageBonus S = 1 / karmaStageMult (karma (reinc S))"

text \<open>
  \<open>stageRequirement(realmIndex, stage)\<close>. \<open>Math.pow\<close> at an integer exponent is
  \<open>power_int\<close> (for a nonzero base). The requirement is floored twice: once before and
  once after the karma reduction. This is the function in exact arithmetic;
  \<open>stageRequirement_f64\<close> below is the function in double arithmetic.
\<close>

definition stageRequirement :: "config \<Rightarrow> state \<Rightarrow> int \<Rightarrow> int \<Rightarrow> real" where
  "stageRequirement cfg S ri st =
     (let realmBase' = realmBase cfg * power_int (realmBaseScale cfg) ri;
          stageScale' = power_int (stageScale cfg) (st - 1);
          baseRequirement = of_int \<lfloor>realmBase' * stageScale'\<rfloor>;
          karmaReduction = karmaStageBonus S
      in of_int \<lfloor>baseRequirement * karmaReduction\<rfloor>)"

text \<open>
  The three soft caps in double arithmetic, operation by operation:
  \<open>1 + 1.2 * (1 - Math.exp(-0.04 * karma))\<close> and its two siblings. The functions above
  are their idealisation in exact arithmetic.
\<close>

definition karmaQiMult_f64 :: "real \<Rightarrow> real" where
  "karmaQiMult_f64 k = f64 (1 + f64 (f64 1.2 * f64 (1 - js_exp (f64 (- f64 0.04 * k)))))"

definition karmaLifeMult_f64 :: "real \<Rightarrow> real" where
  "karmaLifeMult_f64 k = f64 (1 + f64 (f64 1.5 * f64 (1 - js_exp (f64 (- f64 0.03 * k)))))"

definition karmaStageMult_f64 :: "real \<Rightarrow> real" where
  "karmaStageMult_f64 k = f64 (1 + f64 (f64 0.6 * f64 (1 - js_exp (f64 (- f64 0.03 * k)))))"

text \<open>The common shape of the three, with amplitude \<open>a\<close> and rate \<open>r\<close>.\<close>

definition softCap_f64 :: "real \<Rightarrow> real \<Rightarrow> real \<Rightarrow> real" where
  "softCap_f64 a r k = f64 (1 + f64 (f64 a * f64 (1 - js_exp (f64 (- f64 r * k)))))"

text \<open>\<open>karmaStageBonus\<close> and \<open>stageRequirement\<close> in double arithmetic.\<close>

definition karmaStageBonus_f64 :: "state \<Rightarrow> real" where
  "karmaStageBonus_f64 S = f64 (1 / karmaStageMult_f64 (karma (reinc S)))"

definition stageRequirement_f64 :: "config \<Rightarrow> state \<Rightarrow> int \<Rightarrow> int \<Rightarrow> real" where
  "stageRequirement_f64 cfg S ri st =
     (let realmBase' = f64 (f64 (realmBase cfg) * js_pow (f64 (realmBaseScale cfg)) ri);
          stageScale' = js_pow (f64 (stageScale cfg)) (st - 1);
          baseRequirement = of_int \<lfloor>f64 (realmBase' * stageScale')\<rfloor>;
          karmaReduction = karmaStageBonus_f64 S
      in of_int \<lfloor>f64 (baseRequirement * karmaReduction)\<rfloor>)"

text \<open>\<open>CYCLES = { mortal: { start: 0, end: 4 }, spirit: { start: 5, end: 9 } }\<close>\<close>

definition cyclePowerMult :: "int \<Rightarrow> real" where
  "cyclePowerMult ri =
     (let inMortal = (0 \<le> ri \<and> ri \<le> 4);
          inSpirit = (5 \<le> ri \<and> ri \<le> 9);
          idxInCycle = (if inMortal then ri - 0 else if inSpirit then ri - 5 else 0);
          add = (if inMortal then 0.20 * of_int idxInCycle
                 else if inSpirit then 0.40 * of_int idxInCycle else 0)
      in 1 + add)"

text \<open>\<open>S.skills[id] || 0\<close>\<close>

definition skillLevel :: "state \<Rightarrow> skill_id \<Rightarrow> real" where
  "skillLevel S s = (case skills S s of None \<Rightarrow> 0 | Some n \<Rightarrow> of_nat n)"

definition baseEff :: "config \<Rightarrow> skill_id \<Rightarrow> real" where
  "baseEff cfg s = skill_base cfg s"

definition totalQPC :: "config \<Rightarrow> state \<Rightarrow> real" where
  "totalQPC cfg S =
     (let val = qpcBase S + skillLevel S meridian_flow * baseEff cfg meridian_flow;
          qpcMult' = 1 + skillLevel S dantian_temps * baseEff cfg dantian_temps;
          karmaMult = karmaQiMult (karma (reinc S));
          cycleMult = cyclePowerMult (realmIndex S)
      in val * qpcMult' * qpcMult S * karmaMult * cycleMult)"

definition totalQPS :: "config \<Rightarrow> state \<Rightarrow> real" where
  "totalQPS cfg S =
     (let val = qpsBase S + skillLevel S breath_control * baseEff cfg breath_control;
          mult = 1 + skillLevel S lotus_meditation * baseEff cfg lotus_meditation;
          karmaMult = karmaQiMult (karma (reinc S));
          cycleMult = cyclePowerMult (realmIndex S)
      in val * mult * qpsMult S * karmaMult * cycleMult)"

definition totalOfflineMult :: "config \<Rightarrow> state \<Rightarrow> real" where
  "totalOfflineMult cfg S = 1 + skillLevel S closed_door * baseEff cfg closed_door"

section \<open>Karma gained by a transition\<close>

text \<open>
  \<open>computeKarmaGain\<close>. The minimum \<open>minKarma\<close> is taken after the cycle multiplier has
  been applied. \<open>safeNum\<close> is the identity on the finite fields of the model.
\<close>

definition computeKarmaGain :: "config \<Rightarrow> state \<Rightarrow> jsnum" where
  "computeKarmaGain cfg S =
     (let safeLifetimeQi = lifetimeQi (reinc S);
          safeDivisor = lifetimeQiDivisor cfg;
          base = js_floor (js_sqrt (js_div safeLifetimeQi safeDivisor));
          realmBonus = of_int (realmIndex S) * realmKarmaFactor cfg;
          cycleMultiplier = (if currentCycle S = spirit then 2 else 1);
          totalGain = js_mul (js_add base (Fin realmBonus)) (Fin cycleMultiplier)
      in js_max (Fin (minKarma cfg)) totalGain)"

definition computeVoluntaryKarma :: "config \<Rightarrow> state \<Rightarrow> jsnum" where
  "computeVoluntaryKarma cfg S = js_max (Fin (minKarma cfg)) (computeKarmaGain cfg S)"

text \<open>\<open>BAL.reincarnation.deathPenalty || 0.5\<close>\<close>

definition deathPenaltyOrHalf :: "config \<Rightarrow> real" where
  "deathPenaltyOrHalf cfg =
     (case deathPenalty cfg of None \<Rightarrow> 0.5 | Some p \<Rightarrow> (if p = 0 then 0.5 else p))"

definition computeDeathKarma :: "config \<Rightarrow> state \<Rightarrow> jsnum" where
  "computeDeathKarma cfg S =
     js_max (Fin (minKarma cfg))
       (js_floor (js_mul (computeKarmaGain cfg S) (Fin (deathPenaltyOrHalf cfg))))"

definition canReincarnate :: "state \<Rightarrow> bool" where
  "canReincarnate S =
     (let ST_INDEX = 4; r = realmIndex S; st = stage S
      in if \<not> hasCompletedMandatoryST10 (flags S) then False
         else (r > ST_INDEX) \<or> (r = ST_INDEX \<and> st \<ge> 1))"

section \<open>Lifespan and cycles\<close>

text \<open>
  \<open>getMaxLifespan(realmIndex = null)\<close>: \<open>None\<close> as argument is the default \<open>null\<close>, which
  reads \<open>S.realmIndex\<close>; \<open>None\<close> as result is \<open>null\<close>, the infinite lifespan. An index
  outside the table reads \<open>undefined\<close> and also gives \<open>null\<close>.
\<close>

definition getMaxLifespan :: "config \<Rightarrow> state \<Rightarrow> int option \<Rightarrow> real option" where
  "getMaxLifespan cfg S ri =
     (let index = (case ri of None \<Rightarrow> realmIndex S | Some i \<Rightarrow> i)
      in if index < 0 \<or> int (length (realmMaxLifespan cfg)) \<le> index then None
         else (case realmMaxLifespan cfg ! nat index of
                 None \<Rightarrow> None
               | Some maxFromConfig \<Rightarrow>
                   (let karmaMult = karmaLifeMult (karma (reinc S));
                        baseLifespan = (if maxFromConfig = 0 then firstLifespanOr100 cfg
                                        else maxFromConfig)
                    in Some (of_int \<lfloor>baseLifespan * karmaMult\<rfloor>))))"

definition isImmortal :: "config \<Rightarrow> state \<Rightarrow> bool" where
  "isImmortal cfg S = (getMaxLifespan cfg S None = None)"

definition updateLifespanOnRealmAdvance :: "config \<Rightarrow> state \<Rightarrow> state" where
  "updateLifespanOnRealmAdvance cfg S =
     (let newMax = getMaxLifespan cfg S None;
          S1 = S\<lparr> lifespan := \<lparr> current_ls = newMax, max_ls = newMax \<rparr>, age := Some 0 \<rparr>
      in S1\<lparr> flags := (flags S1)\<lparr> lifespanHandled := False \<rparr> \<rparr>)"

definition mortalRealms :: "config \<Rightarrow> int list" where
  "mortalRealms cfg = (case cycle_mortal_realms cfg of None \<Rightarrow> [0, 1, 2, 3, 4] | Some l \<Rightarrow> l)"

definition spiritRealms :: "config \<Rightarrow> int list" where
  "spiritRealms cfg = (case cycle_spirit_realms cfg of None \<Rightarrow> [5, 6, 7, 8, 9] | Some l \<Rightarrow> l)"

definition updateCurrentCycle :: "config \<Rightarrow> state \<Rightarrow> state" where
  "updateCurrentCycle cfg S =
     (if realmIndex S \<in> set (mortalRealms cfg) then S\<lparr> currentCycle := mortal \<rparr>
      else if realmIndex S \<in> set (spiritRealms cfg) then S\<lparr> currentCycle := spirit \<rparr>
      else S)"

definition isAtCycleEnd :: "state \<Rightarrow> bool" where
  "isAtCycleEnd S =
     (case currentCycle S of
        mortal \<Rightarrow> realmIndex S = 4 \<and> stage S = 10 \<and> \<not> unlockedBeyondSpirit (flags S)
      | spirit \<Rightarrow> realmIndex S = 9 \<and> stage S = 10)"

text \<open>\<open>BAL.lifespan?.yearsPerSecond || 1.0\<close>\<close>

definition yearsPerSecondOr1 :: "config \<Rightarrow> real" where
  "yearsPerSecondOr1 cfg =
     (case yearsPerSecond cfg of None \<Rightarrow> 1 | Some y \<Rightarrow> (if y = 0 then 1 else y))"

definition getTimeSpeed :: "state \<Rightarrow> real" where
  "getTimeSpeed S = (if paused (timeSpeed S) then 0 else current_ts (timeSpeed S))"

text \<open>
  \<open>checkAndUnlockSpeeds\<close>: the base speeds are pushed if missing, then every configured
  speed whose realm has been reached. \<open>unlockRealms[index] || 0\<close> reads 0 past the end.
\<close>

definition pushIfMissing :: "real \<Rightarrow> real list \<Rightarrow> real list" where
  "pushIfMissing v l = (if v \<in> set l then l else l @ [v])"

fun unlockLoop :: "int \<Rightarrow> int list \<Rightarrow> nat \<Rightarrow> real list \<Rightarrow> real list \<Rightarrow> real list" where
  "unlockLoop ri unlockRealms index [] unlocked = unlocked"
| "unlockLoop ri unlockRealms index (speed # rest) unlocked =
     (if speed \<in> set [0, 0.5, 1] then unlockLoop ri unlockRealms (Suc index) rest unlocked
      else let requiredRealm = (if index < length unlockRealms then unlockRealms ! index else 0)
           in unlockLoop ri unlockRealms (Suc index) rest
                (if ri \<ge> requiredRealm \<and> speed \<notin> set unlocked then unlocked @ [speed]
                 else unlocked))"

definition checkAndUnlockSpeeds :: "config \<Rightarrow> state \<Rightarrow> state" where
  "checkAndUnlockSpeeds cfg S =
     (case (timeSpeed_speeds cfg, timeSpeed_unlockRealmIndex cfg) of
        (Some allSpeeds, Some unlockRealms) \<Rightarrow>
          S\<lparr> meta_unlockedSpeeds :=
               unlockLoop (realmIndex S) unlockRealms 0 allSpeeds
                 (pushIfMissing 1 (pushIfMissing 0.5 (pushIfMissing 0 (meta_unlockedSpeeds S)))) \<rparr>
      | _ \<Rightarrow> S)"

section \<open>The lifecycle state machine\<close>

datatype mode = voluntary | death | mandatory

text \<open>What the game shows to the player; nothing reads it back.\<close>

datatype prompt =
    GateOfTranscendence
  | CycleCompletion bool
  | DeathAlert
  | ReincarnationModal mode
  | SpiritCycleBegins
  | OfflineGains

text \<open>
  The mutable globals: \<open>S\<close>, the flag \<open>isHandlingDeath\<close>, and the karma gain held by a
  \<open>handleLifespanEnd\<close> that is suspended at its \<open>await\<close> until the player dismisses the death
  alert. \<open>ui\<close> logs the modals opened. Achievements and rendering are left out: they do
  not write to \<open>S\<close>; so is \<open>save\<close>, which only stamps \<open>S.version\<close> and \<open>S.lastSave\<close>.
\<close>

record world =
  the_S :: state
  isHandlingDeath :: bool
  pendingDeathGain :: "jsnum option"
  ui :: "prompt list"

text \<open>
  The new lifespan of a fresh run: \<open>getMaxLifespan(0)\<close>, read after the new karma has
  been stored.
\<close>

definition freshLifespan :: "config \<Rightarrow> state \<Rightarrow> lifespan_t" where
  "freshLifespan cfg S =
     (case getMaxLifespan cfg S (Some 0) of
        None \<Rightarrow> \<lparr> current_ls = None, max_ls = None \<rparr>
      | Some validLifespan \<Rightarrow> \<lparr> current_ls = Some validLifespan, max_ls = Some validLifespan \<rparr>)"

text \<open>
  \<open>doReincarnate({ mode })\<close> at the clock reading \<open>now\<close>. The result is \<open>None\<close> when the
  new karma is not a finite number: the source would store NaN or Infinity in
  \<open>S.reinc.karma\<close>, which the model's state cannot hold. \<open>S.stats\<close> is not among the
  objects restored after the reset.
\<close>

definition doReincarnate :: "config \<Rightarrow> int \<Rightarrow> mode \<Rightarrow> world \<Rightarrow> world option" where
  "doReincarnate cfg now md w =
     (let S0 = (the_S w)\<lparr> lifecycle := (lifecycle (the_S w))\<lparr> isReincarnating := True,
                                                       lastReincarnateAt := now \<rparr> \<rparr>;
          gain = (if md = death then computeDeathKarma cfg S0 else computeVoluntaryKarma cfg S0);
          wasAtST10 = (realmIndex S0 = 4 \<and> stage S0 = 10);
          oldReinc = reinc S0;
          oldFlags = flags S0;
          oldMeta = meta_unlockedSpeeds S0
      in case js_add (Fin (karma oldReinc)) gain of
           Fin newKarma \<Rightarrow>
             (let newTimes = reinc_times oldReinc + 1;
                  S1 = (defaultState cfg now)\<lparr>
                         reinc := \<lparr> reinc_times = newTimes, karma = newKarma, lifetimeQi = 0 \<rparr>,
                         flags := oldFlags,
                         meta_unlockedSpeeds := oldMeta \<rparr>;
                  S2 = (if md = mandatory \<and> wasAtST10
                        then S1\<lparr> flags := (flags S1)\<lparr> hasCompletedMandatoryST10 := True,
                                                       hasUnlockedSpiritCycle := True,
                                                       canManualReincarnate := True,
                                                       unlockedBeyondSpirit := True \<rparr> \<rparr>
                        else S1);
                  S3 = (if md = death then S2\<lparr> stats_deaths := stats_deaths S2 + 1 \<rparr> else S2);
                  S4 = S3\<lparr> age := Some 0, ageYears := None, isDead := False,
                          life_isCleanRun := True,
                          flags := (flags S3)\<lparr> lifespanHandled := False \<rparr>,
                          lastTick := now \<rparr>;
                  S5 = S4\<lparr> lifespan := freshLifespan cfg S4 \<rparr>;
                  S6 = updateCurrentCycle cfg
                         (S5\<lparr> lastTick := now, realmIndex := 0, stage := 1,
                              currentCycle := mortal \<rparr>);
                  S7 = S6\<lparr> lifecycle := (lifecycle S6)\<lparr> isReincarnating := False \<rparr>,
                          timeSpeed := (timeSpeed S6)\<lparr> paused := False \<rparr> \<rparr>
              in Some (w\<lparr> the_S := S7, ui := ui w @ [ReincarnationModal md] \<rparr>))
         | _ \<Rightarrow> None)"

text \<open>
  \<open>tryManualReincarnate\<close> followed by the player's confirmation: rejected, with the state
  untouched, unless \<open>canReincarnate\<close>.
\<close>

definition tryManualReincarnate :: "config \<Rightarrow> int \<Rightarrow> world \<Rightarrow> world option" where
  "tryManualReincarnate cfg now w =
     (if \<not> canReincarnate (the_S w) then Some w
      else doReincarnate cfg now voluntary
             (w\<lparr> the_S := (the_S w)\<lparr> life_isCleanRun := False \<rparr> \<rparr>))"

text \<open>
  \<open>handleLifespanEnd\<close> up to its \<open>await\<close>: the guard is set, the game is paused, the death
  karma is computed and the death alert is opened.
\<close>

definition handleLifespanEnd :: "config \<Rightarrow> int \<Rightarrow> world \<Rightarrow> world" where
  "handleLifespanEnd cfg now w =
     (if isHandlingDeath w \<or> isReincarnating (lifecycle (the_S w)) \<or> isDead (the_S w) then w
      else let S1 = (the_S w)\<lparr> isDead := True,
                            lifecycle := (lifecycle (the_S w))\<lparr> isReincarnating := True,
                                                            lastDeathAt := now \<rparr>,
                            timeSpeed := \<lparr> current_ts = 0, paused = True \<rparr> \<rparr>;
               gain = computeDeathKarma cfg S1
           in w\<lparr> the_S := S1, isHandlingDeath := True, pendingDeathGain := Some gain,
                 ui := ui w @ [DeathAlert] \<rparr>)"

text \<open>
  \<open>performDeathReincarnation(karmaGain)\<close>: the death counter goes up, the reincarnation
  counter is kept, and both survive the reset. \<open>None\<close> as for \<open>doReincarnate\<close>.
\<close>

definition performDeathReincarnation :: "config \<Rightarrow> int \<Rightarrow> jsnum \<Rightarrow> state \<Rightarrow> state option" where
  "performDeathReincarnation cfg now karmaGain S0 =
     (let deaths = stats_deaths S0 + 1
      in case js_add (Fin (karma (reinc S0))) karmaGain of
           Fin newKarma \<Rightarrow>
             (let newTimes = reinc_times (reinc S0);
                  keepFlags = flags S0;
                  keepStats = deaths;
                  keepReinc = \<lparr> reinc_times = newTimes, karma = newKarma, lifetimeQi = 0 \<rparr>;
                  keepMeta = meta_unlockedSpeeds S0;
                  S1 = (defaultState cfg now)\<lparr>
                         flags := keepFlags\<lparr> lifespanHandled := False \<rparr>,
                         stats_deaths := keepStats,
                         reinc := keepReinc,
                         meta_unlockedSpeeds := keepMeta \<rparr>;
                  S2 = S1\<lparr> age := Some 0, lastTick := now, ageYears := Some 0 \<rparr>;
                  S3 = S2\<lparr> lifespan := freshLifespan cfg S2 \<rparr>;
                  S4 = S3\<lparr> isDead := False, life_isCleanRun := True, lastTick := now,
                          timeSpeed := \<lparr> current_ts = 1, paused = False \<rparr> \<rparr>
              in Some (S4\<lparr> lifecycle := (lifecycle S4)\<lparr> isReincarnating := False \<rparr> \<rparr>))
         | _ \<Rightarrow> None)"

text \<open>
  The rest of \<open>handleLifespanEnd\<close>, run when the player dismisses the death alert:
  \<open>performDeathReincarnation(gain)\<close>, then \<open>isHandlingDeath = false\<close>.
\<close>

definition dismissDeathAlert :: "config \<Rightarrow> int \<Rightarrow> world \<Rightarrow> world option" where
  "dismissDeathAlert cfg now w =
     (case pendingDeathGain w of
        None \<Rightarrow> Some w
      | Some gain \<Rightarrow>
          (case performDeathReincarnation cfg now gain (the_S w) of
             None \<Rightarrow> None
           | Some S' \<Rightarrow> Some (w\<lparr> the_S := S', isHandlingDeath := False, pendingDeathGain := None \<rparr>)))"

section \<open>Aging\<close>

text \<open>
  The two migrations that precede every use of the age: a legacy \<open>ageYears\<close> is moved
  to \<open>age\<close>, and a missing or zero age becomes 0 (\<open>!S.age || !isFinite(S.age)\<close>).
\<close>

definition migrateAge :: "state \<Rightarrow> state" where
  "migrateAge S0 =
     (if ageYears S0 \<noteq> None \<and> age S0 = None
      then S0\<lparr> age := ageYears S0, ageYears := None \<rparr> else S0)"

definition initAge :: "state \<Rightarrow> state" where
  "initAge S0 = (case age S0 of None \<Rightarrow> S0\<lparr> age := Some 0 \<rparr> | Some a \<Rightarrow> S0)"

text \<open>The age the code works with: \<open>age\<close>, else \<open>ageYears\<close>, else 0.\<close>

definition effectiveAge :: "state \<Rightarrow> real" where
  "effectiveAge S0 =
     (case age S0 of Some a \<Rightarrow> a
      | None \<Rightarrow> (case ageYears S0 of Some y \<Rightarrow> y | None \<Rightarrow> 0))"

text \<open>
  The clamp of a new age: \<open>Math.max(0, Math.min(newAge, maxLifespan))\<close>, or
  \<open>Math.max(0, newAge)\<close> for an infinite lifespan.
\<close>

definition clampAge :: "real option \<Rightarrow> real \<Rightarrow> real" where
  "clampAge maxLifespan newAge =
     (case maxLifespan of Some m \<Rightarrow> max 0 (min newAge m) | None \<Rightarrow> max 0 newAge)"

text \<open>
  Writing the age: \<open>S.age = a\<close>, then, if \<open>S.lifespan.max !== null\<close>,
  \<open>S.lifespan.current = Math.max(0, S.lifespan.max - S.age)\<close>.
\<close>

definition setAge :: "real \<Rightarrow> state \<Rightarrow> state" where
  "setAge a S0 =
     (case max_ls (lifespan S0) of
        Some lm \<Rightarrow> S0\<lparr> age := Some a,
                       lifespan := (lifespan S0)\<lparr> current_ls := Some (max 0 (lm - a)) \<rparr> \<rparr>
      | None \<Rightarrow> S0\<lparr> age := Some a \<rparr>)"

text \<open>\<open>S.flags.lifespanHandled = true; handleLifespanEnd();\<close>\<close>

definition latchAndHandle :: "config \<Rightarrow> int \<Rightarrow> world \<Rightarrow> world" where
  "latchAndHandle cfg now w =
     handleLifespanEnd cfg now
       (w\<lparr> the_S := (the_S w)\<lparr> flags := (flags (the_S w))\<lparr> lifespanHandled := True \<rparr> \<rparr> \<rparr>)"

text \<open>
  \<open>tickLifespan(dt)\<close>. The guards come first and return before anything is written; a
  non-finite new age returns after the migrations; the clamp uses \<open>getMaxLifespan()\<close>;
  the death check fires \<open>handleLifespanEnd\<close> behind the latch \<open>lifespanHandled\<close>.
\<close>

definition tickLifespan :: "config \<Rightarrow> int \<Rightarrow> jsnum \<Rightarrow> world \<Rightarrow> world" where
  "tickLifespan cfg now dt w =
     (let S0 = the_S w in
      if paused (timeSpeed S0) \<or> isDead S0 then w
      else if isImmortal cfg S0 then w
      else if isReincarnating (lifecycle S0) then w
      else let currentTimeSpeed = current_ts (timeSpeed S0) in
      if currentTimeSpeed \<le> 0 then w
      else let safeDt = js_max (Fin 0) dt in
      if safeDt = Fin 0 then w
      else let baseYearsPerSecond = yearsPerSecondOr1 cfg;
               agingRate = js_mul (js_mul safeDt (Fin currentTimeSpeed)) (Fin baseYearsPerSecond);
               S1 = initAge (migrateAge S0)
      in case js_add (Fin (effectiveAge S1)) agingRate of
           Fin newAge \<Rightarrow>
             (let maxLifespan = getMaxLifespan cfg S1 None;
                  age' = clampAge maxLifespan newAge;
                  w3 = w\<lparr> the_S := setAge age' S1 \<rparr>
              in case maxLifespan of
                   Some m \<Rightarrow>
                     (if age' \<ge> m \<and> \<not> lifespanHandled (flags (the_S w3))
                      then latchAndHandle cfg now w3 else w3)
                 | None \<Rightarrow> w3)
         | _ \<Rightarrow> w\<lparr> the_S := S1 \<rparr>)"

text \<open>\<open>checkLifespanGate\<close>, called after every advance of time.\<close>

definition checkLifespanGate :: "config \<Rightarrow> int \<Rightarrow> world \<Rightarrow> world" where
  "checkLifespanGate cfg now w =
     (let S0 = the_S w in
      if isImmortal cfg S0 then w
      else if lifespanHandled (flags S0) \<or> isReincarnating (lifecycle S0) then w
      else let currentAge = effectiveAge S0;
               w1 = (if age S0 = None then w\<lparr> the_S := S0\<lparr> age := Some currentAge \<rparr> \<rparr> else w)
      in case getMaxLifespan cfg (the_S w1) None of
           None \<Rightarrow> w1
         | Some maxLife \<Rightarrow>
             (if currentAge \<ge> maxLife then latchAndHandle cfg now w1 else w1))"

section \<open>Tick and click\<close>

text \<open>The Qi ceiling, the literal \<open>1e300\<close> of \<open>safeAddQi\<close>.\<close>

definition qiCeiling :: real where
  "qiCeiling = 10 ^ 300"

text \<open>
  \<open>safeAddQi(x)\<close>: nothing for a non-finite or non-positive amount, otherwise the sum
  clamped into \<open>[0, 1e300]\<close>.
\<close>

definition safeAddQi :: "jsnum \<Rightarrow> state \<Rightarrow> state" where
  "safeAddQi x S0 =
     (case x of
        Fin v \<Rightarrow> (if v \<le> 0 then S0 else S0\<lparr> qi := max 0 (min (qi S0 + v) qiCeiling) \<rparr>)
      | _ \<Rightarrow> S0)"

text \<open>\<open>S.reinc.lifetimeQi = safeNum(S.reinc.lifetimeQi + gain, 0)\<close>\<close>

definition addLifetimeQi :: "jsnum \<Rightarrow> state \<Rightarrow> state" where
  "addLifetimeQi gain S0 =
     S0\<lparr> reinc := (reinc S0)\<lparr> lifetimeQi :=
            safeNum (js_add (Fin (lifetimeQi (reinc S0))) gain) 0 \<rparr> \<rparr>"

definition tick :: "config \<Rightarrow> int \<Rightarrow> jsnum \<Rightarrow> world \<Rightarrow> world" where
  "tick cfg now dt w =
     (let timeSpeed' = getTimeSpeed (the_S w) in
      if timeSpeed' = 0 then w
      else if isReincarnating (lifecycle (the_S w)) then w
      else if isHandlingDeath w then w
      else let effDt = js_mul dt (Fin timeSpeed');
               gain = js_mul (Fin (totalQPS cfg (the_S w))) effDt;
               w1 = w\<lparr> the_S := addLifetimeQi gain (safeAddQi gain (the_S w)) \<rparr>
      in checkLifespanGate cfg now (tickLifespan cfg now dt w1))"

definition onClick :: "config \<Rightarrow> world \<Rightarrow> world" where
  "onClick cfg w =
     (let timeSpeed' = getTimeSpeed (the_S w) in
      if timeSpeed' = 0 then w
      else if isReincarnating (lifecycle (the_S w)) then w
      else let timeMultiplier = getTimeSpeed (the_S w);
               gain = Fin (totalQPC cfg (the_S w) * timeMultiplier)
      in w\<lparr> the_S := addLifetimeQi gain (safeAddQi gain (the_S w)) \<rparr>)"

section \<open>Breakthrough\<close>

text \<open>
  \<open>doBreakthrough\<close>. The requirement is paid before the stage is looked at; at stage 10
  of realm 4 without \<open>unlockedBeyondSpirit\<close> the gate prompt is opened and the function
  returns. \<open>realms.length\<close> is 10.
\<close>

definition doBreakthrough :: "config \<Rightarrow> world \<Rightarrow> world" where
  "doBreakthrough cfg w =
     (let req = stageRequirement cfg (the_S w) (realmIndex (the_S w)) (stage (the_S w)) in
      if qi (the_S w) < req then w
      else let S1 = (the_S w)\<lparr> qi := qi (the_S w) - req \<rparr> in
      if stage S1 < 10 then w\<lparr> the_S := S1\<lparr> stage := stage S1 + 1 \<rparr> \<rparr>
      else if realmIndex S1 = 4 \<and> \<not> unlockedBeyondSpirit (flags S1)
      then w\<lparr> the_S := S1, ui := ui w @ [GateOfTranscendence] \<rparr>
      else if isAtCycleEnd S1
      then w\<lparr> the_S := S1, ui := ui w @ [CycleCompletion (currentCycle S1 = spirit)] \<rparr>
      else if realmIndex S1 < 10 - 1
      then let wasSpritTransformation = (realmIndex S1 = 4);
               S2 = S1\<lparr> realmIndex := realmIndex S1 + 1, stage := 1,
                       qpcBase := qpcBase S1 + qpcBaseAdd cfg,
                       qpsBase := qpsBase S1 + qpsBaseAdd cfg \<rparr>;
               S3 = checkAndUnlockSpeeds cfg
                      (updateCurrentCycle cfg (updateLifespanOnRealmAdvance cfg S2))
           in w\<lparr> the_S := S3,
                 ui := (if wasSpritTransformation \<and> unlockedBeyondSpirit (flags S3)
                           \<and> realmIndex S3 = 5
                        then ui w @ [SpiritCycleBegins] else ui w) \<rparr>
      else w\<lparr> the_S := S1, ui := ui w @ [CycleCompletion (currentCycle S1 = spirit)] \<rparr>)"

section \<open>Offline replay\<close>

text \<open>
  \<open>saveSessionSnapshot\<close>: \<open>S.timeSpeed?.current || 0\<close> is the speed stored (the two
  debugging fields are left out).
\<close>

definition saveSessionSnapshot :: "int \<Rightarrow> state \<Rightarrow> state" where
  "saveSessionSnapshot now S0 =
     S0\<lparr> session := Some \<lparr> lastTs = now, lastSpeed = current_ts (timeSpeed S0) \<rparr> \<rparr>"

text \<open>
  The Qi of an offline gap: \<open>if (qiGains > 0) { safeAddQi(qiGains); S.reinc.lifetimeQi =
  safeNum(S.reinc.lifetimeQi + qiGains, 0); }\<close>
\<close>

definition offlineQi :: "real \<Rightarrow> state \<Rightarrow> state" where
  "offlineQi qiGains S0 =
     (if qiGains > 0 then addLifetimeQi (Fin qiGains) (safeAddQi (Fin qiGains) S0) else S0)"

text \<open>
  The aging of an offline gap, as one lump of \<open>yearsPassed\<close>, after the two age
  migrations; the second component is \<open>lifespanExceeded\<close>. The clamp is against
  \<open>S.lifespan.max\<close>. The new age is a sum of two finite numbers, so the source's guard
  against a non-finite sum never fires here.
\<close>

definition offlineAge :: "config \<Rightarrow> real \<Rightarrow> state \<Rightarrow> state \<times> bool" where
  "offlineAge cfg yearsPassed S0 =
     (let oldAge = effectiveAge S0 in
      if \<not> isImmortal cfg S0 then
        (case max_ls (lifespan S0) of
           Some lm \<Rightarrow>
             (let age' = clampAge (Some lm) (oldAge + yearsPassed)
              in (setAge age' S0, age' \<ge> lm))
         | None \<Rightarrow> (S0\<lparr> age := Some (oldAge + yearsPassed) \<rparr>, False))
      else (S0, False))"

text \<open>
  The replay proper, for a gap already capped to \<open>cappedSec\<close> seconds and the speed
  \<open>lastSpeed\<close> of the snapshot. The Qi gain carries the factor \<open>totalOfflineMult()\<close>.
\<close>

definition offlineReplay :: "config \<Rightarrow> int \<Rightarrow> bool \<Rightarrow> real \<Rightarrow> real \<Rightarrow> world \<Rightarrow> world" where
  "offlineReplay cfg now showPopup cappedSec lastSpeed' w =
     (let effectiveTime = cappedSec * lastSpeed';
          baseYearsPerSecond = yearsPerSecondOr1 cfg;
          yearsPassed = effectiveTime * baseYearsPerSecond;
          qpsProduction = totalQPS cfg (the_S w);
          offlineMultiplier = totalOfflineMult cfg (the_S w);
          qiGains = qpsProduction * effectiveTime * offlineMultiplier;
          aged = offlineAge cfg yearsPassed (initAge (migrateAge (offlineQi qiGains (the_S w))));
          w4 = w\<lparr> the_S := (fst aged)\<lparr> session := None \<rparr> \<rparr>
      in if snd aged then checkLifespanGate cfg now w4
         else if showPopup \<and> qiGains > 0 then w4\<lparr> ui := ui w4 @ [OfflineGains] \<rparr>
         else w4)"

text \<open>
  \<open>applyOfflineProgressOnResume({ showPopup })\<close> at the clock reading \<open>now\<close>: the
  early returns clear the snapshot; the elapsed whole seconds are capped at
  \<open>BAL.offline.capHours * 3600\<close>. There is no test of \<open>S.lifecycle.isReincarnating\<close> on
  this path.
\<close>

definition applyOfflineProgressOnResume :: "config \<Rightarrow> int \<Rightarrow> bool \<Rightarrow> world \<Rightarrow> world" where
  "applyOfflineProgressOnResume cfg now showPopup w =
     (let cleared = w\<lparr> the_S := (the_S w)\<lparr> session := None \<rparr> \<rparr> in
      case session (the_S w) of
        None \<Rightarrow> cleared
      | Some snap \<Rightarrow>
          if lastTs snap = 0 then cleared
          else let lastSpeed' = lastSpeed snap in
          if lastSpeed' \<le> 0 then cleared
          else let elapsedMs = now - lastTs snap;
                   elapsedSec = max 0 (elapsedMs div 1000) in
          if elapsedSec < 1 then cleared
          else let cappedSec = min (of_int elapsedSec) (capHours cfg * 3600)
          in offlineReplay cfg now showPopup cappedSec lastSpeed' w)"

section \<open>The specification's formulas and the inputs used below\<close>

text \<open>
  The cycle multiplier of the karma formula: \<open>S.currentCycle === 'spirit' ? 2 : 1\<close>.
\<close>

definition cycleKarmaMultiplier :: "state \<Rightarrow> real" where
  "cycleKarmaMultiplier S0 = (if currentCycle S0 = spirit then 2 else 1)"

text \<open>
  The base karma formula as the specification words it:
  \<open>max(minKarma, floor(sqrt(lifetimeQi / divisor)) + realmIndex * realmKarmaFactor)
  * cycleKarmaMultiplier\<close>, the minimum taken before the multiplier.
\<close>

definition baseKarma_spec :: "config \<Rightarrow> state \<Rightarrow> real" where
  "baseKarma_spec cfg S0 =
     max (minKarma cfg)
         (of_int \<lfloor>sqrt (lifetimeQi (reinc S0) / lifetimeQiDivisor cfg)\<rfloor>
            + of_int (realmIndex S0) * realmKarmaFactor cfg)
       * cycleKarmaMultiplier S0"

text \<open>
  The cycle of a run agrees with its realm: the spirit cycle is entered at realm index 5
  (\<open>updateCurrentCycle\<close>) and left by the reset of a transition.
\<close>

definition cycleFitsRealm :: "state \<Rightarrow> bool" where
  "cycleFitsRealm S0 = (currentCycle S0 = spirit \<longrightarrow> 5 \<le> realmIndex S0)"

text \<open>
  The product \<open>realmBase * realmBaseScale^realmIndex * stageScale^(stage-1)\<close> in double
  arithmetic, before any floor.
\<close>

definition baseProduct_f64 :: "config \<Rightarrow> int \<Rightarrow> int \<Rightarrow> real" where
  "baseProduct_f64 cfg ri st =
     f64 (f64 (f64 (realmBase cfg) * js_pow (f64 (realmBaseScale cfg)) ri)
            * js_pow (f64 (stageScale cfg)) (st - 1))"

text \<open>
  The stage requirement as the specification words it: one floor, applied to the
  quotient of that product by \<open>karmaStageMult(karma)\<close>.
\<close>

definition stageRequirement_spec_f64 :: "config \<Rightarrow> int \<Rightarrow> int \<Rightarrow> real \<Rightarrow> real" where
  "stageRequirement_spec_f64 cfg ri st k =
     of_int \<lfloor>f64 (baseProduct_f64 cfg ri st / karmaStageMult_f64 k)\<rfloor>"

text \<open>
  A run in the spirit cycle: realm index 5, a lifetime Qi of \<open>10^9\<close>, after one
  reincarnation.
\<close>

definition spiritRun :: state where
  "spiritRun = (defaultState BAL 0)\<lparr> realmIndex := 5, currentCycle := spirit,
                 reinc := \<lparr> reinc_times = 1, karma = 1500, lifetimeQi = 1000000000 \<rparr> \<rparr>"

text \<open>A fresh run after one reincarnation that paid one karma.\<close>

definition karmaOne :: state where
  "karmaOne = (defaultState BAL 0)\<lparr> reinc := \<lparr> reinc_times = 1, karma = 1, lifetimeQi = 0 \<rparr> \<rparr>"

text \<open>
  The death alert is open (the guard is set, the game is paused) and the save holds a
  snapshot taken at speed 1, ten seconds before the resume at clock 11000.
\<close>

definition deathAlertOpen :: world where
  "deathAlertOpen =
     \<lparr> the_S = (defaultState BAL 1000)\<lparr>
          skills := [breath_control \<mapsto> 2],
          isDead := True,
          timeSpeed := \<lparr> current_ts = 0, paused = True \<rparr>,
          lifecycle := \<lparr> isReincarnating = True, lastDeathAt = 1000, lastReincarnateAt = 0 \<rparr>,
          session := Some \<lparr> lastTs = 1000, lastSpeed = 1 \<rparr> \<rparr>,
       isHandlingDeath = True, pendingDeathGain = Some (Fin 1), ui = [DeathAlert] \<rparr>"

text \<open>
  A player past the mandatory gate, at Spirit Transformation stage 1, who has died twice
  and reincarnated once.
\<close>

definition diedTwice :: world where
  "diedTwice =
     \<lparr> the_S = (defaultState BAL 0)\<lparr>
          realmIndex := 4, stage := 1, stats_deaths := 2,
          reinc := \<lparr> reinc_times = 1, karma = 9, lifetimeQi = 0 \<rparr>,
          flags := \<lparr> unlockedBeyondSpirit = True, hasUnlockedSpiritCycle = True,
                     hasCompletedMandatoryST10 = True, canManualReincarnate = True,
                     lifespanHandled = False \<rparr> \<rparr>,
       isHandlingDeath = False, pendingDeathGain = None, ui = [] \<rparr>"

text \<open>The two counters: \<open>(S.reinc.times, S.stats.deaths)\<close>.\<close>

definition counters :: "world \<Rightarrow> int \<times> int" where
  "counters w = (reinc_times (reinc (the_S w)), stats_deaths (the_S w))"

text \<open>Spirit Transformation stage 10, before the gate, with 4,000,000,000 Qi.\<close>

definition atGate :: world where
  "atGate = \<lparr> the_S = (defaultState BAL 0)\<lparr> realmIndex := 4, stage := 10, qi := 4000000000 \<rparr>,
              isHandlingDeath = False, pendingDeathGain = None, ui = [] \<rparr>"

text \<open>
  The last hundredth of a year of a first life: age 99.99 of 100, two levels of
  Breathing Control (1 Qi per second), 100 lifetime Qi.
\<close>

definition lateLife :: world where
  "lateLife =
     \<lparr> the_S = (defaultState BAL 0)\<lparr>
          skills := [breath_control \<mapsto> 2],
          reinc := \<lparr> reinc_times = 0, karma = 0, lifetimeQi = 100 \<rparr>,
          lifespan := \<lparr> current_ls = Some 0.01, max_ls = Some 100 \<rparr>,
          age := Some 99.99, ageYears := None \<rparr>,
       isHandlingDeath = False, pendingDeathGain = None, ui = [] \<rparr>"

section \<open>Runs of the game\<close>

text \<open>
  The entry points a player or the driver loop can reach, each at a clock reading:
  a tick of \<open>dt\<close> seconds, a click, a breakthrough, a confirmed reincarnation prompt
  (\<open>doReincarnate\<close> in the given mode), the reincarnate button, the dismissal of the death
  alert, the tab going to the background and coming back.
\<close>

datatype event =
    Tick jsnum
  | Click
  | Breakthrough
  | Reincarnate mode
  | ManualReincarnate
  | DismissDeath
  | Suspend
  | Resume bool

fun step :: "config \<Rightarrow> int \<times> event \<Rightarrow> world \<Rightarrow> world option" where
  "step cfg (now, Tick dt) w = Some (tick cfg now dt w)"
| "step cfg (now, Click) w = Some (onClick cfg w)"
| "step cfg (now, Breakthrough) w = Some (doBreakthrough cfg w)"
| "step cfg (now, Reincarnate md) w = doReincarnate cfg now md w"
| "step cfg (now, ManualReincarnate) w = tryManualReincarnate cfg now w"
| "step cfg (now, DismissDeath) w = dismissDeathAlert cfg now w"
| "step cfg (now, Suspend) w = Some (w\<lparr> the_S := saveSessionSnapshot now (the_S w) \<rparr>)"
| "step cfg (now, Resume showPopup) w = Some (applyOfflineProgressOnResume cfg now showPopup w)"

fun run :: "config \<Rightarrow> (int \<times> event) list \<Rightarrow> world \<Rightarrow> world option" where
  "run cfg [] w = Some w"
| "run cfg (e # es) w = (case step cfg e w of None \<Rightarrow> None | Some w' \<Rightarrow> run cfg es w')"

text \<open>Two worlds at the same realm, in the same cycle.\<close>

definition sameStanding :: "world \<Rightarrow> world \<Rightarrow> bool" where
  "sameStanding w w' =
     (currentCycle (the_S w') = currentCycle (the_S w) \<and> realmIndex (the_S w') = realmIndex (the_S w))"

text \<open>The karma of a world, \<open>S.reinc.karma\<close>.\<close>

definition karmaOf :: "world \<Rightarrow> real" where
  "karmaOf w = karma (reinc (the_S w))"

text \<open>
  A death gain waiting for the dismissal of the alert is, when finite, at least
  \<open>minKarma\<close>: it was computed by \<open>computeDeathKarma\<close>.
\<close>

definition pendingGainOk :: "config \<Rightarrow> world \<Rightarrow> bool" where
  "pendingGainOk cfg w = (case pendingDeathGain w of Some (Fin g) \<Rightarrow> minKarma cfg \<le> g | _ \<Rightarrow> True)"

text \<open>A step that keeps the karma and the soundness of the pending death gain.\<close>

definition keeps :: "config \<Rightarrow> world \<Rightarrow> world \<Rightarrow> bool" where
  "keeps cfg w w' = (karmaOf w' = karmaOf w \<and> (pendingGainOk cfg w \<longrightarrow> pendingGainOk cfg w'))"


text \<open>The fields that decide what a tick does, and that a tick without a death keeps.\<close>

definition sameRun :: "world \<Rightarrow> world \<Rightarrow> bool" where
  "sameRun w w' =
     (timeSpeed (the_S w') = timeSpeed (the_S w) \<and> lifecycle (the_S w') = lifecycle (the_S w)
      \<and> isDead (the_S w') = isDead (the_S w) \<and> isHandlingDeath w' = isHandlingDeath w
      \<and> realmIndex (the_S w') = realmIndex (the_S w)
      \<and> karma (reinc (the_S w')) = karma (reinc (the_S w))
      \<and> qpsBase (the_S w') = qpsBase (the_S w) \<and> qpsMult (the_S w') = qpsMult (the_S w)
      \<and> skills (the_S w') = skills (the_S w))"


text \<open>A world without the wall-clock stamp of the last death.\<close>

definition forgetDeathClock :: "world \<Rightarrow> world" where
  "forgetDeathClock w =
     w\<lparr> the_S := (the_S w)\<lparr> lifecycle := (lifecycle (the_S w))\<lparr> lastDeathAt := 0 \<rparr> \<rparr> \<rparr>"

text \<open>A fresh run, nothing pending.\<close>

definition freshWorld :: world where
  "freshWorld = \<lparr> the_S = defaultState BAL 0, isHandlingDeath = False,
                   pendingDeathGain = None, ui = [] \<rparr>"

text \<open>
  A fresh run with two levels of Breathing Control (1 Qi per second), suspended at clock
  1000 at speed 1.
\<close>

definition awayWorld :: world where
  "awayWorld =
     \<lparr> the_S = (defaultState BAL 1000)\<lparr>
          skills := [breath_control \<mapsto> 2],
          session := Some \<lparr> lastTs = 1000, lastSpeed = 1 \<rparr> \<rparr>,
       isHandlingDeath = False, pendingDeathGain = None, ui = [] \<rparr>"


section \<open>Facts about binary64 rounding\<close>

text \<open>
  Rounding to the nearest integer is monotone, odd, and exact on integers; \<open>f64\<close>
  inherits this. It is a projection (\<open>f64_idem\<close>), exact on the integers up to \<open>2^53\<close>
  and on their dyadic multiples, off by at most \<open>\<bar>x\<bar> / 2^53\<close> in the normal range, and
  the integer part of a double is a double.
\<close>

lemma rne_of_int [simp]: "rne (of_int n) = n"
  by (simp add: rne_def)

lemma rne_range: "of_int (rne y) - 1/2 \<le> y \<and> y \<le> of_int (rne y) + 1/2"
  unfolding rne_def Let_def by (auto; linarith)

lemma rne_mono: assumes "x \<le> y" shows "rne x \<le> rne y"
proof (cases "\<lfloor>x\<rfloor> = \<lfloor>y\<rfloor>")
  case True
  then show ?thesis using assms unfolding rne_def Let_def by auto
next
  case False
  then have "\<lfloor>x\<rfloor> < \<lfloor>y\<rfloor>" using floor_mono [OF assms] by linarith
  moreover have "rne x \<le> \<lfloor>x\<rfloor> + 1" unfolding rne_def Let_def by auto
  moreover have "\<lfloor>y\<rfloor> \<le> rne y" unfolding rne_def Let_def by auto
  ultimately show ?thesis by linarith
qed

lemma rne_minus: "rne (- y) = - rne y"
proof (cases "y = of_int \<lfloor>y\<rfloor>")
  case True
  then obtain n where "y = of_int n" by blast
  then have "- y = of_int (- n)" by simp
  then show ?thesis using \<open>y = of_int n\<close> by (simp only: rne_of_int)
next
  case False
  then have "of_int \<lfloor>y\<rfloor> < y" using of_int_floor_le [of y] by (metis less_le)
  moreover have "y < of_int \<lfloor>y\<rfloor> + 1" by linarith
  ultimately have f: "\<lfloor>- y\<rfloor> = - \<lfloor>y\<rfloor> - 1" by (simp add: floor_eq_iff) linarith
  show ?thesis
    unfolding rne_def Let_def f using False by (auto simp: field_simps)
qed

lemma binade_bounds:
  assumes "x \<noteq> 0"
  shows "2 powi \<lfloor>log 2 \<bar>x\<bar>\<rfloor> \<le> \<bar>x\<bar> \<and> \<bar>x\<bar> < 2 powi (\<lfloor>log 2 \<bar>x\<bar>\<rfloor> + 1)"
proof -
  have "0 < \<bar>x\<bar>" using assms by simp
  from floor_log_eq_powr_iff [OF this, of 2 "\<lfloor>log 2 \<bar>x\<bar>\<rfloor>"]
  have "2 powr real_of_int \<lfloor>log 2 \<bar>x\<bar>\<rfloor> \<le> \<bar>x\<bar> \<and> \<bar>x\<bar> < 2 powr real_of_int (\<lfloor>log 2 \<bar>x\<bar>\<rfloor> + 1)"
    by simp
  then show ?thesis by (simp only: powr_real_of_int' [of 2, simplified])
qed

lemma binade_eq:
  assumes "2 powi e \<le> \<bar>x\<bar>" and "\<bar>x\<bar> < 2 powi (e + 1)"
  shows "\<lfloor>log 2 \<bar>x\<bar>\<rfloor> = e"
proof -
  have "0 < (2::real) powi e" by simp
  then have "0 < \<bar>x\<bar>" using assms(1) by linarith
  moreover have "(2::real) powr real_of_int k = 2 powi k" for k
    by (simp add: powr_real_of_int')
  ultimately show ?thesis
    using floor_log_eq_powr_iff [of "\<bar>x\<bar>" 2 e] assms by (simp only: one_less_numeral_iff semiring_norm)
qed

lemma ulp_exp_mono:
  assumes "x \<noteq> 0" and "\<bar>x\<bar> \<le> \<bar>y\<bar>"
  shows "ulp_exp x \<le> ulp_exp y"
proof -
  have "0 < \<bar>x\<bar>" using assms by simp
  then have "log 2 \<bar>x\<bar> \<le> log 2 \<bar>y\<bar>" using assms(2) by simp
  then have "\<lfloor>log 2 \<bar>x\<bar>\<rfloor> \<le> \<lfloor>log 2 \<bar>y\<bar>\<rfloor>" by (rule floor_mono)
  then show ?thesis by (simp add: ulp_exp_def)
qed

lemma ulp_exp_minus [simp]: "ulp_exp (- x) = ulp_exp x"
  by (simp add: ulp_exp_def)

lemma f64_zero [simp]: "f64 0 = 0"
  by (simp add: f64_def)

lemma f64_minus: "f64 (- x) = - f64 x"
  by (simp add: f64_def rne_minus)

text \<open>The scaled significand is below \<open>2^53\<close>; in the normal range it is at least \<open>2^52\<close>.\<close>

lemma scaled_upper:
  assumes "x \<noteq> 0"
  shows "\<bar>x\<bar> / 2 powi ulp_exp x < 2 ^ 53"
proof -
  let ?E = "\<lfloor>log 2 \<bar>x\<bar>\<rfloor>"
  have "\<bar>x\<bar> < 2 powi (?E + 1)" using binade_bounds [OF assms] by simp
  also have "(2::real) powi (?E + 1) \<le> 2 powi (ulp_exp x + 53)"
    by (rule power_int_increasing) (simp_all add: ulp_exp_def)
  also have "(2::real) powi (ulp_exp x + 53) = 2 powi ulp_exp x * 2 ^ 53"
    by (simp add: power_int_add)
  finally show ?thesis by (simp add: field_simps)
qed

lemma scaled_lower:
  assumes "x \<noteq> 0" and "- 1022 \<le> \<lfloor>log 2 \<bar>x\<bar>\<rfloor>"
  shows "2 ^ 52 \<le> \<bar>x\<bar> / 2 powi ulp_exp x"
proof -
  let ?E = "\<lfloor>log 2 \<bar>x\<bar>\<rfloor>"
  have e: "ulp_exp x = ?E - 52" using assms(2) by (simp add: ulp_exp_def)
  have "(2::real) powi ?E = 2 powi ulp_exp x * 2 ^ 52"
    unfolding e by (simp add: power_int_diff)
  moreover have "2 powi ?E \<le> \<bar>x\<bar>" using binade_bounds [OF assms(1)] by simp
  ultimately show ?thesis by (simp add: field_simps)
qed

lemma rne_zero [simp]: "rne 0 = 0"
  by (simp add: rne_def)

lemma rne_nonneg: "0 \<le> y \<Longrightarrow> 0 \<le> rne y"
  using rne_mono [of 0 y] by simp

lemma rne_le_int: "y \<le> of_int n \<Longrightarrow> real_of_int (rne y) \<le> of_int n"
  using rne_mono [of y "of_int n"] by (simp only: rne_of_int of_int_le_iff)

lemma rne_ge_int: "of_int n \<le> y \<Longrightarrow> of_int n \<le> real_of_int (rne y)"
  using rne_mono [of "of_int n" y] by (simp only: rne_of_int of_int_le_iff)

lemma f64_nonneg: "0 \<le> x \<Longrightarrow> 0 \<le> f64 x"
  by (simp add: f64_def rne_nonneg)

lemma f64_pos_value:
  assumes "0 < x"
  shows "f64 x = of_int (rne (x / 2 powi ulp_exp x)) * 2 powi ulp_exp x"
  using assms by (simp add: f64_def)

lemma f64_mono_pos:
  assumes "0 < x" and "x \<le> y"
  shows "f64 x \<le> f64 y"
proof -
  have y: "0 < y" using assms by simp
  have le: "ulp_exp x \<le> ulp_exp y"
    using assms by (intro ulp_exp_mono) simp_all
  show ?thesis
  proof (cases "ulp_exp x = ulp_exp y")
    case True
    have "x / 2 powi ulp_exp y \<le> y / 2 powi ulp_exp y"
      using assms by (simp add: divide_right_mono)
    then have "rne (x / 2 powi ulp_exp y) \<le> rne (y / 2 powi ulp_exp y)" by (rule rne_mono)
    then have "real_of_int (rne (x / 2 powi ulp_exp y)) \<le> real_of_int (rne (y / 2 powi ulp_exp y))"
      by simp
    then show ?thesis
      unfolding f64_pos_value [OF assms(1)] f64_pos_value [OF y] True
      by (simp add: mult_right_mono)
  next
    case False
    then have lt: "ulp_exp x + 1 \<le> ulp_exp y" using le by simp
    have "x / 2 powi ulp_exp x \<le> 2 ^ 53"
      using scaled_upper [of x] assms(1) by simp
    then have "real_of_int (rne (x / 2 powi ulp_exp x)) \<le> 2 ^ 53"
      using rne_le_int [of "x / 2 powi ulp_exp x" "2 ^ 53"] by simp
    then have "f64 x \<le> 2 ^ 53 * 2 powi ulp_exp x"
      unfolding f64_pos_value [OF assms(1)] by (simp add: mult_right_mono)
    also have "\<dots> = 2 powi (ulp_exp x + 1) * 2 ^ 52"
      by (simp add: power_int_add)
    also have "\<dots> \<le> 2 powi ulp_exp y * 2 ^ 52"
      using lt by (intro mult_right_mono power_int_increasing) simp_all
    finally have a: "f64 x \<le> 2 powi ulp_exp y * 2 ^ 52" .
    have "- 1022 \<le> \<lfloor>log 2 \<bar>y\<bar>\<rfloor>"
    proof (rule ccontr)
      assume "\<not> - 1022 \<le> \<lfloor>log 2 \<bar>y\<bar>\<rfloor>"
      then have "ulp_exp y = - 1074" by (simp add: ulp_exp_def)
      moreover have "- 1074 \<le> ulp_exp x" by (simp add: ulp_exp_def)
      ultimately show False using lt by simp
    qed
    from scaled_lower [OF _ this] y have "2 ^ 52 \<le> y / 2 powi ulp_exp y" by simp
    then have "2 ^ 52 \<le> real_of_int (rne (y / 2 powi ulp_exp y))"
      using rne_ge_int [of "2 ^ 52" "y / 2 powi ulp_exp y"] by simp
    then have "2 ^ 52 * 2 powi ulp_exp y \<le> f64 y"
      unfolding f64_pos_value [OF y] by (simp add: mult_right_mono)
    with a show ?thesis by (simp add: mult.commute)
  qed
qed

lemma f64_mono:
  assumes "x \<le> y"
  shows "f64 x \<le> f64 y"
proof -
  consider "0 < x" | "x \<le> 0" "0 \<le> y" | "y < 0" by linarith
  then show ?thesis
  proof cases
    case 1
    then show ?thesis using assms by (rule f64_mono_pos)
  next
    case 2
    have "f64 x \<le> 0" using f64_nonneg [of "- x"] 2 by (simp add: f64_minus)
    moreover have "0 \<le> f64 y" using 2 by (simp add: f64_nonneg)
    ultimately show ?thesis by simp
  next
    case 3
    have "f64 (- y) \<le> f64 (- x)" using 3 assms by (intro f64_mono_pos) simp_all
    then show ?thesis by (simp add: f64_minus)
  qed
qed

lemma f64_eval:
  assumes "2 powi E \<le> \<bar>x\<bar>" and "\<bar>x\<bar> < 2 powi (E + 1)" and "- 1022 \<le> E"
  shows "f64 x = of_int (rne (x / 2 powi (E - 52))) * 2 powi (E - 52)"
proof -
  have "0 < (2::real) powi E" by simp
  then have "0 < \<bar>x\<bar>" using assms(1) by linarith
  then have "x \<noteq> 0" by simp
  moreover have "ulp_exp x = E - 52"
    using binade_eq [OF assms(1,2)] assms(3) by (simp add: ulp_exp_def)
  ultimately show ?thesis by (simp add: f64_def)
qed

lemma ulp_exp_ge: "- 1074 \<le> ulp_exp x"
  by (simp add: ulp_exp_def)

lemma f64_error:
  assumes "2 powi (- 1022) \<le> \<bar>x\<bar>"
  shows "\<bar>f64 x - x\<bar> \<le> \<bar>x\<bar> / 2 ^ 53"
proof -
  let ?E = "\<lfloor>log 2 \<bar>x\<bar>\<rfloor>"
  let ?u = "(2::real) powi ulp_exp x"
  have "0 < (2::real) powi (- 1022)" by simp
  then have "0 < \<bar>x\<bar>" using assms by linarith
  then have x: "x \<noteq> 0" by simp
  have "- 1022 \<le> ?E"
  proof (rule ccontr)
    assume "\<not> - 1022 \<le> ?E"
    then have "?E + 1 \<le> - 1022" by linarith
    then have "(2::real) powi (?E + 1) \<le> 2 powi (- 1022)"
      by (intro power_int_increasing) simp_all
    moreover have "\<bar>x\<bar> < 2 powi (?E + 1)" using binade_bounds [OF x] by simp
    ultimately show False using assms by linarith
  qed
  then have e: "ulp_exp x = ?E - 52" by (simp add: ulp_exp_def)
  have u: "?u * 2 ^ 52 \<le> \<bar>x\<bar>"
    using binade_bounds [OF x] unfolding e by (simp add: power_int_diff)
  have "\<bar>of_int (rne (x / ?u)) - x / ?u\<bar> \<le> 1 / 2"
    using rne_range [of "x / ?u"] by linarith
  then have "\<bar>of_int (rne (x / ?u)) - x / ?u\<bar> * ?u \<le> 1 / 2 * ?u"
    by (intro mult_right_mono) simp_all
  moreover have "\<bar>of_int (rne (x / ?u)) - x / ?u\<bar> * ?u = \<bar>f64 x - x\<bar>"
  proof -
    have "\<bar>of_int (rne (x / ?u)) - x / ?u\<bar> * ?u = \<bar>(of_int (rne (x / ?u)) - x / ?u) * ?u\<bar>"
      by (simp add: abs_mult)
    also have "(of_int (rne (x / ?u)) - x / ?u) * ?u = f64 x - x"
      using x by (simp add: f64_def left_diff_distrib)
    finally show ?thesis .
  qed
  ultimately have "\<bar>f64 x - x\<bar> \<le> ?u / 2" by simp
  also have "?u / 2 \<le> \<bar>x\<bar> / 2 ^ 53" using u by simp
  finally show ?thesis .
qed

lemma f64_dyadic_lt:
  assumes "\<bar>n\<bar> < 2 ^ 53" and "- 1074 \<le> j"
  shows "f64 (of_int n * 2 powi j) = of_int n * 2 powi j"
proof (cases "n = 0")
  case True
  then show ?thesis by simp
next
  case False
  let ?y = "real_of_int n * 2 powi j"
  have y: "?y \<noteq> 0" using False by simp
  have "\<bar>?y\<bar> = real_of_int \<bar>n\<bar> * 2 powi j" by (simp add: abs_mult)
  also have "\<dots> < 2 ^ 53 * 2 powi j"
  proof (intro mult_strict_right_mono)
    have "real_of_int \<bar>n\<bar> < real_of_int (2 ^ 53)" using assms(1) by (simp only: of_int_less_iff)
    then show "real_of_int \<bar>n\<bar> < 2 ^ 53" by simp
  qed simp
  also have "\<dots> = 2 powi (j + 53)" by (simp add: power_int_add)
  finally have lt: "\<bar>?y\<bar> < 2 powi (j + 53)" .
  have "\<lfloor>log 2 \<bar>?y\<bar>\<rfloor> \<le> j + 52"
  proof (rule ccontr)
    assume "\<not> \<lfloor>log 2 \<bar>?y\<bar>\<rfloor> \<le> j + 52"
    then have "j + 53 \<le> \<lfloor>log 2 \<bar>?y\<bar>\<rfloor>" by simp
    then have "(2::real) powi (j + 53) \<le> 2 powi \<lfloor>log 2 \<bar>?y\<bar>\<rfloor>"
      by (intro power_int_increasing) simp_all
    also have "\<dots> \<le> \<bar>?y\<bar>" using binade_bounds [OF y] by simp
    finally show False using lt by simp
  qed
  then have e: "ulp_exp ?y \<le> j" using assms(2) by (simp add: ulp_exp_def)
  define d where "d = nat (j - ulp_exp ?y)"
  have j: "j = ulp_exp ?y + int d" using e by (simp add: d_def)
  define u where "u = (2::real) powi ulp_exp ?y"
  have u: "u \<noteq> 0" by (simp add: u_def)
  have "(2::real) powi j = u * 2 ^ d"
    unfolding u_def by (subst j) (simp add: power_int_add)
  then have yu: "?y = of_int (n * 2 ^ d) * u" by simp
  have "?y / u = of_int (n * 2 ^ d)" by (subst yu) (simp add: u)
  then have "of_int (rne (?y / u)) * u = real_of_int (n * 2 ^ d) * u"
    by (simp only: rne_of_int)
  then have "of_int (rne (?y / u)) * u = ?y" by (simp only: yu [symmetric])
  then show ?thesis using y unfolding u_def by (simp add: f64_def)
qed

lemma f64_dyadic:
  assumes "\<bar>n\<bar> \<le> 2 ^ 53" and "- 1074 \<le> j"
  shows "f64 (of_int n * 2 powi j) = of_int n * 2 powi j"
proof (cases "\<bar>n\<bar> < 2 ^ 53")
  case True
  then show ?thesis using assms(2) by (rule f64_dyadic_lt)
next
  case False
  then have "n = 2 ^ 53 \<or> n = - (2 ^ 53)" using assms(1) by linarith
  then obtain m :: int where m: "n = m * 2" "\<bar>m\<bar> < 2 ^ 53" by auto
  have "real_of_int n * 2 powi j = of_int m * 2 powi (j + 1)"
    unfolding m by (simp add: power_int_add)
  moreover have "f64 (of_int m * 2 powi (j + 1)) = of_int m * 2 powi (j + 1)"
    using m(2) assms(2) by (intro f64_dyadic_lt) simp_all
  ultimately show ?thesis by simp
qed

lemma f64_of_int: "\<bar>n\<bar> \<le> 2 ^ 53 \<Longrightarrow> f64 (of_int n) = of_int n"
  using f64_dyadic [of n 0] by simp

lemma f64_one [simp]: "f64 1 = 1"
  using f64_of_int [of 1] by simp

lemma f64_form:
  "\<exists>n. \<bar>n\<bar> \<le> 2 ^ 53 \<and> f64 x = of_int n * 2 powi ulp_exp x"
proof (cases "x = 0")
  case True
  then show ?thesis by (intro exI [of _ 0]) simp
next
  case False
  let ?s = "x / 2 powi ulp_exp x"
  have "\<bar>?s\<bar> = \<bar>x\<bar> / 2 powi ulp_exp x" by simp
  then have "\<bar>?s\<bar> < 2 ^ 53" using scaled_upper [OF False] by (simp only:)
  then have "?s \<le> 2 ^ 53" "- (2 ^ 53) \<le> ?s" by linarith+
  then have "?s \<le> of_int (2 ^ 53)" "of_int (- (2 ^ 53)) \<le> ?s" by simp_all
  then have "rne ?s \<le> 2 ^ 53" "- (2 ^ 53) \<le> rne ?s"
    using rne_mono [of ?s "of_int (2 ^ 53)"] rne_mono [of "of_int (- (2 ^ 53))" ?s]
    by (simp_all only: rne_of_int)
  then have "\<bar>rne ?s\<bar> \<le> 2 ^ 53" by simp
  then show ?thesis using False by (intro exI [of _ "rne ?s"]) (simp add: f64_def)
qed

lemma f64_idem [simp]: "f64 (f64 x) = f64 x"
proof -
  obtain n where "\<bar>n\<bar> \<le> 2 ^ 53" "f64 x = of_int n * 2 powi ulp_exp x"
    using f64_form by blast
  then show ?thesis using f64_dyadic [of n "ulp_exp x"] ulp_exp_ge [of x] by simp
qed

text \<open>The integer part of a double is a double.\<close>

lemma f64_floor:
  assumes "0 \<le> x"
  shows "f64 (of_int \<lfloor>f64 x\<rfloor>) = of_int \<lfloor>f64 x\<rfloor>"
proof -
  obtain n where n: "\<bar>n\<bar> \<le> 2 ^ 53" "f64 x = of_int n * 2 powi ulp_exp x"
    using f64_form by blast
  show ?thesis
  proof (cases "0 \<le> ulp_exp x")
    case True
    then have k: "f64 x = of_int (n * 2 ^ nat (ulp_exp x))"
      unfolding n(2) by (simp add: power_int_def)
    have "of_int \<lfloor>f64 x\<rfloor> = f64 x" by (subst (1 2) k) (simp only: floor_of_int)
    then show ?thesis by (simp only: f64_idem)
  next
    case False
    then have "(2::real) powi ulp_exp x \<le> 2 powi 0"
      by (intro power_int_increasing) simp_all
    then have u: "(2::real) powi ulp_exp x \<le> 1" by simp
    have "real_of_int n \<le> 2 ^ 53"
      using n(1) by (simp flip: of_int_le_iff [where 'a = real and z = "2 ^ 53"])
    then have "f64 x \<le> 2 ^ 53 * 1"
      unfolding n(2) using u by (intro mult_mono) simp_all
    then have "\<lfloor>f64 x\<rfloor> \<le> 2 ^ 53" by (simp add: floor_le_iff)
    moreover have "0 \<le> \<lfloor>f64 x\<rfloor>" using f64_nonneg [OF assms] by simp
    ultimately show ?thesis by (intro f64_of_int) simp
  qed
qed

text \<open>
  Bounds on the result of a rounding: when \<open>x\<close> lies in \<open>[a, b]\<close>, away from zero,
  \<open>f64 x\<close> lies in the slightly wider \<open>[a', b']\<close>.
\<close>

lemma f64_in:
  assumes "a \<le> x" and "x \<le> b" and "1 / 2 ^ 30 \<le> a"
    and "a' \<le> a * (1 - 1 / 2 ^ 50)" and "b * (1 + 1 / 2 ^ 50) \<le> b'"
  shows "a' \<le> f64 x \<and> f64 x \<le> b'"
proof -
  have e: "\<bar>f64 y - y\<bar> \<le> y / 2 ^ 50" if "1 / 2 ^ 30 \<le> y" for y :: real
  proof -
    have "(2::real) powi (- 1022) \<le> 2 powi (- 30)" by (intro power_int_increasing) simp_all
    then have "2 powi (- 1022) \<le> \<bar>y\<bar>" using that by (simp add: power_int_minus)
    from f64_error [OF this] have "\<bar>f64 y - y\<bar> \<le> y / 2 ^ 53" using that by simp
    also have "y / 2 ^ 53 \<le> y / 2 ^ 50" using that by (intro divide_left_mono) simp_all
    finally show ?thesis .
  qed
  have b: "1 / 2 ^ 30 \<le> b" using assms by linarith
  have "a - a / 2 ^ 50 \<le> f64 a" using e [OF assms(3)] by linarith
  also have "f64 a \<le> f64 x" using assms(1) by (rule f64_mono)
  finally have "a * (1 - 1 / 2 ^ 50) \<le> f64 x" by (simp add: algebra_simps)
  moreover have "f64 x \<le> f64 b" using assms(2) by (rule f64_mono)
  then have "f64 x \<le> b + b / 2 ^ 50" using e [OF b] by linarith
  then have "f64 x \<le> b * (1 + 1 / 2 ^ 50)" by (simp add: algebra_simps)
  ultimately show ?thesis using assms(4,5) by linarith
qed

section \<open>Soft caps\<close>

text \<open>
  In exact arithmetic the three soft caps are strictly increasing and stay strictly below
  1 plus their amplitude.
\<close>

lemma soft_caps_exact:
  assumes "0 \<le> k" and "k < k'"
  shows "karmaQiMult k < karmaQiMult k' \<and> karmaLifeMult k < karmaLifeMult k'
       \<and> karmaStageMult k < karmaStageMult k'
       \<and> karmaQiMult k < 2.2 \<and> karmaLifeMult k < 2.5 \<and> karmaStageMult k < 1.6
       \<and> karmaQiMult 0 = 1 \<and> karmaLifeMult 0 = 1 \<and> karmaStageMult 0 = 1"
  using assms by (simp add: karmaQiMult_def karmaLifeMult_def karmaStageMult_def)

text \<open>
  In double arithmetic each operation of a soft cap is monotone, which gives the bounds;
  and once \<open>Math.exp\<close> has fallen to \<open>2^(-54)\<close> or below, \<open>1 - Math.exp(\<dots>)\<close> rounds to 1 and
  the soft cap is its ceiling exactly.
\<close>

lemma js_exp_nonneg: "0 \<le> js_exp x"
  by (simp add: js_exp_def f64_nonneg)

lemma js_exp_le_1: "x \<le> 0 \<Longrightarrow> js_exp x \<le> 1"
  using f64_mono [of "exp x" 1] by (simp add: js_exp_def)

lemma js_exp_0 [simp]: "js_exp 0 = 1"
  by (simp add: js_exp_def)

lemma js_exp_mono: "x \<le> y \<Longrightarrow> js_exp x \<le> js_exp y"
  by (simp add: js_exp_def f64_mono)

lemma softCap_f64_mono:
  assumes "0 \<le> a" and "0 \<le> r" and "k \<le> k'"
  shows "softCap_f64 a r k \<le> softCap_f64 a r k'"
proof -
  have a: "0 \<le> f64 a" and r: "0 \<le> f64 r" using assms by (simp_all add: f64_nonneg)
  have "- f64 r * k' \<le> - f64 r * k" using r assms(3) by (simp add: mult_left_mono)
  then have "js_exp (f64 (- f64 r * k')) \<le> js_exp (f64 (- f64 r * k))"
    by (intro js_exp_mono f64_mono)
  then have "f64 (1 - js_exp (f64 (- f64 r * k))) \<le> f64 (1 - js_exp (f64 (- f64 r * k')))"
    by (intro f64_mono) simp
  then have "f64 a * f64 (1 - js_exp (f64 (- f64 r * k)))
               \<le> f64 a * f64 (1 - js_exp (f64 (- f64 r * k')))"
    using a by (rule mult_left_mono)
  then show ?thesis
    unfolding softCap_f64_def by (intro f64_mono add_left_mono)
qed

lemma softCap_f64_0: "softCap_f64 a r 0 = 1"
  by (simp add: softCap_f64_def)

lemma softCap_f64_ge_1:
  assumes "0 \<le> a" and "0 \<le> r" and "0 \<le> k"
  shows "1 \<le> softCap_f64 a r k"
  using softCap_f64_mono [OF assms(1,2), of 0 k] assms(3) by (simp add: softCap_f64_0)

lemma softCap_f64_le:
  assumes "0 \<le> a"
  shows "softCap_f64 a r k \<le> f64 (1 + f64 a)"
proof -
  have a: "0 \<le> f64 a" using assms by (simp add: f64_nonneg)
  have "1 - js_exp (f64 (- f64 r * k)) \<le> 1" using js_exp_nonneg by simp
  then have "f64 (1 - js_exp (f64 (- f64 r * k))) \<le> f64 1" by (rule f64_mono)
  then have "f64 a * f64 (1 - js_exp (f64 (- f64 r * k))) \<le> f64 a * 1"
    using a by (intro mult_left_mono) simp_all
  then have "f64 (f64 a * f64 (1 - js_exp (f64 (- f64 r * k)))) \<le> f64 (f64 a * 1)"
    by (rule f64_mono)
  then show ?thesis
    unfolding softCap_f64_def by (intro f64_mono) simp
qed

lemma exp_minus_54: "exp (- 54 :: real) \<le> 2 powi (- 54)"
proof -
  have "(2::real) \<le> exp 1" using exp_ge_add_one_self [of "1::real"] by simp
  then have "(2::real) ^ 54 \<le> exp 1 ^ 54" by (intro power_mono) simp_all
  also have "exp (1::real) ^ 54 = exp 54" by (simp flip: exp_of_nat_mult)
  finally have "(2::real) ^ 54 \<le> exp 54" .
  then have "1 / exp (54::real) \<le> 1 / 2 ^ 54" by (intro divide_left_mono) simp_all
  then show ?thesis by (simp add: exp_minus power_int_minus field_simps)
qed

lemma f64_near_one:
  assumes "0 \<le> d" and "d \<le> 2 powi (- 54)"
  shows "f64 (1 - d) = 1"
proof -
  have "f64 (1 - 2 powi (- 54)) = 1"
  proof -
    have "f64 (1 - 2 powi (- 54)) =
            of_int (rne ((1 - 2 powi (- 54)) / 2 powi (- 1 - 52))) * 2 powi (- 1 - 52)"
      by (rule f64_eval) (simp_all add: power_int_minus)
    also have "(1 - 2 powi (- 54)) / 2 powi (- 1 - 52) = (18014398509481983 / 2 :: real)"
      by (simp add: power_int_minus)
    also have "rne (18014398509481983 / 2) = 9007199254740992"
      by (simp add: rne_def Let_def)
    finally show ?thesis by (simp add: power_int_minus)
  qed
  moreover have "f64 (1 - 2 powi (- 54)) \<le> f64 (1 - d)" using assms by (intro f64_mono) simp
  moreover have "f64 (1 - d) \<le> f64 1" using assms by (intro f64_mono) simp
  ultimately show ?thesis by simp
qed

lemma softCap_f64_saturated:
  assumes "54 \<le> f64 r * k"
  shows "softCap_f64 a r k = f64 (1 + f64 a)"
proof -
  have "f64 (- f64 r * k) \<le> f64 (of_int (- 54))" using assms by (intro f64_mono) simp
  also have "f64 (of_int (- 54)) = of_int (- 54)" by (rule f64_of_int) simp
  finally have "f64 (- f64 r * k) \<le> - 54" by simp
  then have "exp (f64 (- f64 r * k)) \<le> exp (- 54)" by simp
  also note exp_minus_54
  finally have "exp (f64 (- f64 r * k)) \<le> of_int 1 * 2 powi (- 54)" by simp
  then have "js_exp (f64 (- f64 r * k)) \<le> f64 (of_int 1 * 2 powi (- 54))"
    unfolding js_exp_def by (rule f64_mono)
  also have "f64 (of_int 1 * 2 powi (- 54)) = of_int 1 * 2 powi (- 54)"
    by (rule f64_dyadic) simp_all
  finally have "js_exp (f64 (- f64 r * k)) \<le> 2 powi (- 54)" by simp
  from f64_near_one [OF js_exp_nonneg this] show ?thesis
    by (simp add: softCap_f64_def)
qed

lemma karma_f64_softCap:
  "karmaQiMult_f64 k = softCap_f64 1.2 0.04 k"
  "karmaLifeMult_f64 k = softCap_f64 1.5 0.03 k"
  "karmaStageMult_f64 k = softCap_f64 0.6 0.03 k"
  by (simp_all add: karmaQiMult_f64_def karmaLifeMult_f64_def karmaStageMult_f64_def softCap_f64_def)

lemma f64_12: "f64 1.2 = 5404319552844595 / 2 ^ 52"
proof -
  have "f64 1.2 = of_int (rne (1.2 / 2 powi (0 - 52))) * 2 powi (0 - 52)"
    by (rule f64_eval) simp_all
  also have "(1.2::real) / 2 powi (0 - 52) = 27021597764222976 / 5"
    by (simp add: power_int_minus)
  also have "rne (27021597764222976 / 5) = 5404319552844595"
    by (simp add: rne_def Let_def)
  finally show ?thesis by (simp add: power_int_minus)
qed

lemma f64_22: "f64 2.2 = 4953959590107546 / 2 ^ 51"
proof -
  have "f64 2.2 = of_int (rne (2.2 / 2 powi (1 - 52))) * 2 powi (1 - 52)"
    by (rule f64_eval) simp_all
  also have "(2.2::real) / 2 powi (1 - 52) = 24769797950537728 / 5"
    by (simp add: power_int_minus)
  also have "rne (24769797950537728 / 5) = 4953959590107546"
    by (simp add: rne_def Let_def)
  finally show ?thesis by (simp add: power_int_minus)
qed

lemma cap_qi: "f64 (1 + f64 1.2) = f64 2.2"
proof -
  have "f64 (1 + 5404319552844595 / 2 ^ 52)
          = of_int (rne ((1 + 5404319552844595 / 2 ^ 52) / 2 powi (1 - 52))) * 2 powi (1 - 52)"
    by (rule f64_eval) simp_all
  also have "((1::real) + 5404319552844595 / 2 ^ 52) / 2 powi (1 - 52) = 9907919180215091 / 2"
    by (simp add: power_int_minus)
  also have "rne (9907919180215091 / 2) = 4953959590107546"
    by (simp add: rne_def Let_def)
  finally show ?thesis unfolding f64_12 f64_22 by (simp add: power_int_minus)
qed

lemma f64_06: "f64 0.6 = 5404319552844595 / 2 ^ 53"
proof -
  have "f64 0.6 = of_int (rne (0.6 / 2 powi (- 1 - 52))) * 2 powi (- 1 - 52)"
    by (rule f64_eval) (simp_all add: power_int_minus)
  also have "(0.6::real) / 2 powi (- 1 - 52) = 27021597764222976 / 5"
    by (simp add: power_int_minus)
  also have "rne (27021597764222976 / 5) = 5404319552844595"
    by (simp add: rne_def Let_def)
  finally show ?thesis by (simp add: power_int_minus)
qed

lemma f64_16: "f64 1.6 = 7205759403792794 / 2 ^ 52"
proof -
  have "f64 1.6 = of_int (rne (1.6 / 2 powi (0 - 52))) * 2 powi (0 - 52)"
    by (rule f64_eval) simp_all
  also have "(1.6::real) / 2 powi (0 - 52) = 36028797018963968 / 5"
    by (simp add: power_int_minus)
  also have "rne (36028797018963968 / 5) = 7205759403792794"
    by (simp add: rne_def Let_def)
  finally show ?thesis by (simp add: power_int_minus)
qed

lemma cap_stage: "f64 (1 + f64 0.6) = f64 1.6"
proof -
  have "f64 (1 + 5404319552844595 / 2 ^ 53)
          = of_int (rne ((1 + 5404319552844595 / 2 ^ 53) / 2 powi (0 - 52))) * 2 powi (0 - 52)"
    by (rule f64_eval) simp_all
  also have "((1::real) + 5404319552844595 / 2 ^ 53) / 2 powi (0 - 52) = 14411518807585587 / 2"
    by (simp add: power_int_minus)
  also have "rne (14411518807585587 / 2) = 7205759403792794"
    by (simp add: rne_def Let_def)
  finally show ?thesis unfolding f64_06 f64_16 by (simp add: power_int_minus)
qed

lemma f64_half_int: "\<bar>n\<bar> \<le> 2 ^ 53 \<Longrightarrow> f64 (of_int n / 2) = of_int n / 2"
  using f64_dyadic [of n "- 1"] by (simp add: power_int_minus)

lemma cap_life: "f64 (1 + f64 1.5) = 2.5"
proof -
  have a: "f64 1.5 = 1.5" using f64_half_int [of 3] by simp
  have "f64 2.5 = 2.5" using f64_half_int [of 5] by simp
  then show ?thesis unfolding a by simp
qed

lemma rate_lower: "5 / 128 \<le> f64 0.04" "7 / 256 \<le> f64 0.03"
proof -
  have "f64 (of_int 5 * 2 powi (- 7)) = of_int 5 * 2 powi (- 7)" by (rule f64_dyadic) simp_all
  moreover have "f64 (of_int 5 * 2 powi (- 7)) \<le> f64 0.04"
    by (rule f64_mono) (simp add: power_int_minus)
  ultimately show "5 / 128 \<le> f64 0.04" by (simp add: power_int_minus)
  have "f64 (of_int 7 * 2 powi (- 8)) = of_int 7 * 2 powi (- 8)" by (rule f64_dyadic) simp_all
  moreover have "f64 (of_int 7 * 2 powi (- 8)) \<le> f64 0.03"
    by (rule f64_mono) (simp add: power_int_minus)
  ultimately show "7 / 256 \<le> f64 0.03" by (simp add: power_int_minus)
qed

lemma soft_caps_saturated:
  assumes "2000 \<le> k"
  shows "karmaQiMult_f64 k = f64 2.2" "karmaLifeMult_f64 k = 2.5" "karmaStageMult_f64 k = f64 1.6"
proof -
  have "5 / 128 * 2000 \<le> f64 0.04 * k"
    using rate_lower(1) assms by (intro mult_mono) simp_all
  then have "54 \<le> f64 0.04 * k" by simp
  from softCap_f64_saturated [OF this, of "1.2"] show "karmaQiMult_f64 k = f64 2.2"
    unfolding karma_f64_softCap cap_qi .
  have "7 / 256 * 2000 \<le> f64 0.03 * k"
    using rate_lower(2) assms by (intro mult_mono) simp_all
  then have s: "54 \<le> f64 0.03 * k" by simp
  from softCap_f64_saturated [OF s, of "1.5"] show "karmaLifeMult_f64 k = 2.5"
    unfolding karma_f64_softCap cap_life .
  from softCap_f64_saturated [OF s, of "0.6"] show "karmaStageMult_f64 k = f64 1.6"
    unfolding karma_f64_softCap cap_stage .
qed

text \<open>The stage soft cap after one karma, to six digits.\<close>

lemma karmaStageMult_f64_1:
  "1.017726 \<le> karmaStageMult_f64 1 \<and> karmaStageMult_f64 1 \<le> 1.018004"
proof -
  define c where "c = f64 0.03"
  have c: "0.0299999 \<le> c \<and> c \<le> 0.0300001"
    unfolding c_def by (rule f64_in [of "0.03" _ "0.03"]) simp_all
  have t: "f64 (- c * 1) = - c" by (simp add: c_def f64_minus)
  have lo: "0.9699999 \<le> exp (- c)"
    using exp_ge_add_one_self [of "- c"] c by simp
  have "1 + c + c\<^sup>2 / 2 \<le> exp c"
    using exp_lower_Taylor_quadratic [of c] c by simp
  moreover have "(0.0299999::real)\<^sup>2 \<le> c\<^sup>2" using c by (intro power_mono) simp_all
  ultimately have "1.030449897 \<le> exp c" using c by (simp add: power2_eq_square)
  then have "1 / exp c \<le> 1 / 1.030449897" by (intro divide_left_mono) simp_all
  then have hi: "exp (- c) \<le> 0.970451" by (simp add: exp_minus field_simps)
  have e: "0.969999 \<le> js_exp (- c) \<and> js_exp (- c) \<le> 0.970452"
    unfolding js_exp_def using lo hi by (intro f64_in [of "0.9699999" _ "0.970451"]) simp_all
  have d: "0.029547 \<le> f64 (1 - js_exp (- c)) \<and> f64 (1 - js_exp (- c)) \<le> 0.030002"
    using e by (intro f64_in [of "0.029548" _ "0.030001"]) simp_all
  have a: "0.5999999 \<le> f64 0.6 \<and> f64 0.6 \<le> 0.6000001"
    by (rule f64_in [of "0.6" _ "0.6"]) simp_all
  have "0.5999999 * 0.029547 \<le> f64 0.6 * f64 (1 - js_exp (- c))"
    using a d by (intro mult_mono) simp_all
  moreover have "f64 0.6 * f64 (1 - js_exp (- c)) \<le> 0.6000001 * 0.030002"
    using a d by (intro mult_mono) simp_all
  ultimately have "0.017728 \<le> f64 0.6 * f64 (1 - js_exp (- c))
      \<and> f64 0.6 * f64 (1 - js_exp (- c)) \<le> 0.018002" by simp
  then have m: "0.017727 \<le> f64 (f64 0.6 * f64 (1 - js_exp (- c)))
      \<and> f64 (f64 0.6 * f64 (1 - js_exp (- c))) \<le> 0.018003"
    by (intro f64_in [of "0.017728" _ "0.018002"]) simp_all
  have "1.017726 \<le> f64 (1 + f64 (f64 0.6 * f64 (1 - js_exp (- c))))
      \<and> f64 (1 + f64 (f64 0.6 * f64 (1 - js_exp (- c)))) \<le> 1.018004"
    using m by (intro f64_in [of "1.017727" _ "1.018003"]) simp_all
  then show ?thesis
    unfolding karmaStageMult_f64_def c_def [symmetric] t .
qed

text \<open>
  C6, as the specification states it, fails: the soft caps are not strictly increasing.
  At karma 2000 and at karma 3000 each of the three returns its ceiling, the double
  written \<open>2.2\<close>, \<open>2.5\<close> or \<open>1.6\<close>.
\<close>

theorem soft_caps_counterexample:
  "(0::real) \<le> 2000 \<and> (2000::real) < 3000
   \<and> karmaQiMult_f64 2000 = f64 2.2 \<and> karmaQiMult_f64 3000 = f64 2.2
   \<and> karmaLifeMult_f64 2000 = 2.5 \<and> karmaLifeMult_f64 3000 = 2.5
   \<and> karmaStageMult_f64 2000 = f64 1.6 \<and> karmaStageMult_f64 3000 = f64 1.6
   \<and> \<not> karmaQiMult_f64 2000 < karmaQiMult_f64 3000"
  using soft_caps_saturated [of 2000] soft_caps_saturated [of 3000] by simp

text \<open>
  C6, amended. For every karma \<open>k \<ge> 0\<close> the three soft caps are non-decreasing (a larger
  karma \<open>k'\<close> never gives a smaller value), lie between 1 and 1 plus their amplitude (the
  doubles written \<open>2.2\<close>, \<open>2.5\<close> and \<open>1.6\<close>), and are exactly 1 at karma 0. (From karma
  2000 on they are constant: lemma \<open>soft_caps_saturated\<close>.)
\<close>

theorem karma_soft_caps_f64:
  assumes "0 \<le> k" and "k \<le> k'"
  shows "karmaQiMult_f64 k \<le> karmaQiMult_f64 k' \<and> karmaLifeMult_f64 k \<le> karmaLifeMult_f64 k'
       \<and> karmaStageMult_f64 k \<le> karmaStageMult_f64 k'
       \<and> 1 \<le> karmaQiMult_f64 k \<and> karmaQiMult_f64 k \<le> f64 2.2
       \<and> 1 \<le> karmaLifeMult_f64 k \<and> karmaLifeMult_f64 k \<le> 2.5
       \<and> 1 \<le> karmaStageMult_f64 k \<and> karmaStageMult_f64 k \<le> f64 1.6
       \<and> karmaQiMult_f64 0 = 1 \<and> karmaLifeMult_f64 0 = 1 \<and> karmaStageMult_f64 0 = 1"
proof -
  have m: "softCap_f64 a r k \<le> softCap_f64 a r k'" if "0 \<le> a" "0 \<le> r" for a r
    using that assms(2) by (rule softCap_f64_mono)
  have l: "1 \<le> softCap_f64 a r k" if "0 \<le> a" "0 \<le> r" for a r
    using that assms(1) by (rule softCap_f64_ge_1)
  have u: "softCap_f64 1.2 r k \<le> f64 2.2" "softCap_f64 1.5 r k \<le> 2.5"
    "softCap_f64 0.6 r k \<le> f64 1.6" for r
    using softCap_f64_le [of "1.2" r k] softCap_f64_le [of "1.5" r k] softCap_f64_le [of "0.6" r k]
    unfolding cap_qi cap_life cap_stage by simp_all
  show ?thesis
    unfolding karma_f64_softCap by (intro conjI m l u softCap_f64_0) simp_all
qed

theorem karma_soft_caps_f64_witness:
  "(0::real) \<le> 1 \<and> (1::real) \<le> 2000
   \<and> karmaStageMult_f64 0 = 1 \<and> 1 < karmaStageMult_f64 1
   \<and> karmaStageMult_f64 1 \<le> karmaStageMult_f64 2000 \<and> karmaStageMult_f64 2000 = f64 1.6
   \<and> karmaQiMult_f64 0 = 1 \<and> karmaQiMult_f64 1 \<le> karmaQiMult_f64 2000
   \<and> karmaQiMult_f64 2000 = f64 2.2"
  using karma_soft_caps_f64 [of 1 2000] soft_caps_saturated [of 2000] karmaStageMult_f64_1
  by simp

section \<open>The karma formula\<close>

text \<open>
  What the code computes, whatever the cycle: the minimum \<open>minKarma\<close> is taken after
  the cycle multiplier.
\<close>

lemma computeKarmaGain_floor_after_multiplier:
  assumes "0 \<le> lifetimeQi (reinc S0)" and "0 < lifetimeQiDivisor cfg"
  shows "computeKarmaGain cfg S0 =
           Fin (max (minKarma cfg)
                  ((of_int \<lfloor>sqrt (lifetimeQi (reinc S0) / lifetimeQiDivisor cfg)\<rfloor>
                      + of_int (realmIndex S0) * realmKarmaFactor cfg)
                   * cycleKarmaMultiplier S0))"
proof -
  have "\<not> lifetimeQi (reinc S0) / lifetimeQiDivisor cfg < 0"
    using assms by (simp add: not_less)
  then show ?thesis
    using assms
    by (simp add: computeKarmaGain_def js_div_def cycleKarmaMultiplier_def Let_def)
qed

lemma max_times_two:
  fixes m x :: real
  assumes "0 \<le> m" and "m \<le> x"
  shows "max m (x * 2) = max m x * 2"
  using assms by (simp add: max_def)

text \<open>
  C2. For a lifetime Qi \<open>\<ge> 0\<close> (and a positive divisor) the karma gain is the
  specification's formula \<open>max(minKarma, floor(sqrt(lifetimeQi / divisor)) + realmIndex *
  realmKarmaFactor) * cycleKarmaMultiplier\<close>, in every state whose cycle agrees with its
  realm, under a balance with \<open>0 \<le> minKarma \<le> 5 * realmKarmaFactor\<close> (1 and 2 in the
  source). The code takes the minimum after the multiplier; in the spirit cycle, which
  starts at realm index 5, the sum before the multiplier is already at least \<open>minKarma\<close>,
  so the order does not show. A voluntary or mandatory transition pays that gain; a death
  pays \<open>max(minKarma, floor(gain * deathPenalty))\<close>.
\<close>

theorem computeKarmaGain_formula:
  assumes "0 \<le> lifetimeQi (reinc S0)" and "0 < lifetimeQiDivisor cfg"
    and "0 \<le> minKarma cfg" and "minKarma cfg \<le> 5 * realmKarmaFactor cfg"
    and "cycleFitsRealm S0"
  shows "computeKarmaGain cfg S0 = Fin (baseKarma_spec cfg S0)
       \<and> computeVoluntaryKarma cfg S0 = Fin (baseKarma_spec cfg S0)
       \<and> computeDeathKarma cfg S0 =
           Fin (max (minKarma cfg) (of_int \<lfloor>baseKarma_spec cfg S0 * deathPenaltyOrHalf cfg\<rfloor>))"
proof -
  let ?x = "real_of_int \<lfloor>sqrt (lifetimeQi (reinc S0) / lifetimeQiDivisor cfg)\<rfloor>
              + of_int (realmIndex S0) * realmKarmaFactor cfg"
  have nn: "\<not> lifetimeQi (reinc S0) / lifetimeQiDivisor cfg < 0"
    using assms(1,2) by (simp add: not_less)
  have f0: "0 \<le> real_of_int \<lfloor>sqrt (lifetimeQi (reinc S0) / lifetimeQiDivisor cfg)\<rfloor>"
    using assms(1,2) by simp
  have code: "computeKarmaGain cfg S0 = Fin (max (minKarma cfg) (?x * cycleKarmaMultiplier S0))"
    using nn assms(2)
    by (simp add: computeKarmaGain_def js_div_def cycleKarmaMultiplier_def Let_def)
  have eq: "max (minKarma cfg) (?x * cycleKarmaMultiplier S0) = baseKarma_spec cfg S0"
  proof (cases "currentCycle S0 = spirit")
    case False
    then show ?thesis by (simp add: baseKarma_spec_def cycleKarmaMultiplier_def)
  next
    case True
    then have "5 \<le> realmIndex S0" using assms(5) by (simp add: cycleFitsRealm_def)
    then have "(5::real) \<le> of_int (realmIndex S0)" by simp
    moreover have "0 \<le> realmKarmaFactor cfg" using assms(3,4) by simp
    ultimately have "5 * realmKarmaFactor cfg \<le> of_int (realmIndex S0) * realmKarmaFactor cfg"
      by (intro mult_right_mono) simp_all
    then have m: "minKarma cfg \<le> ?x" using assms(4) f0 by linarith
    have "max (minKarma cfg) (?x * 2) = max (minKarma cfg) ?x * 2"
      by (rule max_times_two [OF assms(3) m])
    then show ?thesis
      using True by (simp only: baseKarma_spec_def cycleKarmaMultiplier_def simp_thms if_True)
  qed
  have ge: "minKarma cfg \<le> baseKarma_spec cfg S0"
    unfolding eq [symmetric] by simp
  have g: "computeKarmaGain cfg S0 = Fin (baseKarma_spec cfg S0)"
    unfolding code eq ..
  moreover have "computeVoluntaryKarma cfg S0 = Fin (baseKarma_spec cfg S0)"
    using ge by (simp add: computeVoluntaryKarma_def g max_def)
  moreover have "computeDeathKarma cfg S0 =
           Fin (max (minKarma cfg) (of_int \<lfloor>baseKarma_spec cfg S0 * deathPenaltyOrHalf cfg\<rfloor>))"
    by (simp add: computeDeathKarma_def g)
  ultimately show ?thesis by blast
qed

lemma sqrt_million: "sqrt (1000000::real) = 1000"
proof -
  have "sqrt ((1000::real)\<^sup>2) = 1000" by (simp only: real_sqrt_abs abs_numeral)
  then show ?thesis by simp
qed

theorem computeKarmaGain_formula_witness:
  "0 \<le> lifetimeQi (reinc spiritRun) \<and> 0 < lifetimeQiDivisor BAL
   \<and> 0 \<le> minKarma BAL \<and> minKarma BAL \<le> 5 * realmKarmaFactor BAL
   \<and> cycleFitsRealm spiritRun \<and> currentCycle spiritRun = spirit \<and> realmIndex spiritRun = 5
   \<and> baseKarma_spec BAL spiritRun = 2020
   \<and> computeKarmaGain BAL spiritRun = Fin 2020
   \<and> computeDeathKarma BAL spiritRun = Fin 1010"
proof -
  have h: "0 \<le> lifetimeQi (reinc spiritRun)" "0 < lifetimeQiDivisor BAL"
    "0 \<le> minKarma BAL" "minKarma BAL \<le> 5 * realmKarmaFactor BAL"
    by (simp_all add: spiritRun_def BAL_def)
  have c: "currentCycle spiritRun = spirit" "realmIndex spiritRun = 5"
    by (simp_all add: spiritRun_def)
  then have i: "cycleFitsRealm spiritRun" by (simp add: cycleFitsRealm_def)
  have b: "baseKarma_spec BAL spiritRun = 2020"
    by (simp add: baseKarma_spec_def cycleKarmaMultiplier_def spiritRun_def BAL_def sqrt_million)
  have d: "deathPenaltyOrHalf BAL = 0.5" by (simp add: deathPenaltyOrHalf_def BAL_def)
  from computeKarmaGain_formula [OF h i]
  have "computeKarmaGain BAL spiritRun = Fin 2020 \<and> computeDeathKarma BAL spiritRun = Fin 1010"
    unfolding b d by (simp add: BAL_def)
  with h c i b show ?thesis by blast
qed

section \<open>The stage requirement\<close>

text \<open>
  The requirement at realm 0, stage 6 and karma 1, computed with bounds: every
  intermediate value is far enough from the next integer for the floors to be certain.
\<close>

lemma f64_numeral_100 [simp]: "f64 100 = 100" "f64 25 = 25" "f64 1222 = 1222"
  using f64_of_int [of 100] f64_of_int [of 25] f64_of_int [of 1222] by simp_all

lemma stageScale_5: "12.2298 \<le> js_pow (f64 1.65) 5 \<and> js_pow (f64 1.65) 5 \<le> 12.22982"
proof -
  have s: "1.6499999 \<le> f64 1.65 \<and> f64 1.65 \<le> 1.6500001"
    by (rule f64_in [of "1.65" _ "1.65"]) simp_all
  then have "1.6499999 ^ 5 \<le> f64 1.65 ^ 5" "f64 1.65 ^ 5 \<le> 1.6500001 ^ 5"
    by (intro power_mono; simp)+
  moreover have "(12.229806::real) \<le> 1.6499999 ^ 5" "(1.6500001::real) ^ 5 \<le> 12.229815"
    by (simp_all add: eval_nat_numeral)
  ultimately have "12.229806 \<le> f64 1.65 ^ 5 \<and> f64 1.65 ^ 5 \<le> 12.229815" by linarith
  then have "12.229806 \<le> power_int (f64 1.65) 5 \<and> power_int (f64 1.65) 5 \<le> 12.229815"
    by (simp only: power_int_def) simp
  then show ?thesis
    unfolding js_pow_def by (intro f64_in [of "12.229806" _ "12.229815"]) simp_all
qed

lemma baseProduct_0_6:
  "1222.9 \<le> baseProduct_f64 BAL 0 6 \<and> baseProduct_f64 BAL 0 6 \<le> 1222.99"
proof -
  have p: "js_pow 25 0 = 1" by (simp add: js_pow_def)
  have "baseProduct_f64 BAL 0 6 = f64 (100 * js_pow (f64 1.65) 5)"
    by (simp add: baseProduct_f64_def BAL_def p)
  moreover have "1222.98 \<le> 100 * js_pow (f64 1.65) 5 \<and> 100 * js_pow (f64 1.65) 5 \<le> 1222.982"
    using stageScale_5 by simp
  then have "1222.9 \<le> f64 (100 * js_pow (f64 1.65) 5) \<and> f64 (100 * js_pow (f64 1.65) 5) \<le> 1222.99"
    by (intro f64_in [of "1222.98" _ "1222.982"]) simp_all
  ultimately show ?thesis by simp
qed

lemma karmaStageBonus_f64_karmaOne:
  "0.9823 \<le> karmaStageBonus_f64 karmaOne \<and> karmaStageBonus_f64 karmaOne \<le> 0.9826"
proof -
  have k: "karma (reinc karmaOne) = 1" by (simp add: karmaOne_def)
  have "1 / 1.018004 \<le> 1 / karmaStageMult_f64 1" "1 / karmaStageMult_f64 1 \<le> 1 / 1.017726"
    using karmaStageMult_f64_1 by (intro divide_left_mono; simp)+
  then have "0.98231 \<le> 1 / karmaStageMult_f64 1 \<and> 1 / karmaStageMult_f64 1 \<le> 0.98259"
    by simp
  then show ?thesis
    unfolding karmaStageBonus_f64_def k by (intro f64_in [of "0.98231" _ "0.98259"]) simp_all
qed

lemma stageRequirement_f64_karmaOne: "stageRequirement_f64 BAL karmaOne 0 6 = 1200"
proof -
  have "\<lfloor>baseProduct_f64 BAL 0 6\<rfloor> = 1222"
    using baseProduct_0_6 by (simp add: floor_eq_iff)
  then have b: "stageRequirement_f64 BAL karmaOne 0 6
                  = of_int \<lfloor>f64 (1222 * karmaStageBonus_f64 karmaOne)\<rfloor>"
    by (simp add: stageRequirement_f64_def baseProduct_f64_def Let_def)
  have "1200.3 \<le> 1222 * karmaStageBonus_f64 karmaOne
      \<and> 1222 * karmaStageBonus_f64 karmaOne \<le> 1200.8"
    using karmaStageBonus_f64_karmaOne by simp
  then have "1200.2 \<le> f64 (1222 * karmaStageBonus_f64 karmaOne)
      \<and> f64 (1222 * karmaStageBonus_f64 karmaOne) \<le> 1200.9"
    by (intro f64_in [of "1200.3" _ "1200.8"]) simp_all
  then have "\<lfloor>f64 (1222 * karmaStageBonus_f64 karmaOne)\<rfloor> = 1200"
    by (simp add: floor_eq_iff)
  then show ?thesis unfolding b by simp
qed

lemma stageRequirement_spec_f64_karmaOne: "stageRequirement_spec_f64 BAL 0 6 1 = 1201"
proof -
  have "1222.9 / 1.018004 \<le> baseProduct_f64 BAL 0 6 / karmaStageMult_f64 1"
    using baseProduct_0_6 karmaStageMult_f64_1 by (intro frac_le) simp_all
  moreover have "baseProduct_f64 BAL 0 6 / karmaStageMult_f64 1 \<le> 1222.99 / 1.017726"
    using baseProduct_0_6 karmaStageMult_f64_1 by (intro frac_le) simp_all
  ultimately have "1201.2 \<le> baseProduct_f64 BAL 0 6 / karmaStageMult_f64 1
      \<and> baseProduct_f64 BAL 0 6 / karmaStageMult_f64 1 \<le> 1201.7" by simp
  then have "1201.1 \<le> f64 (baseProduct_f64 BAL 0 6 / karmaStageMult_f64 1)
      \<and> f64 (baseProduct_f64 BAL 0 6 / karmaStageMult_f64 1) \<le> 1201.8"
    by (intro f64_in [of "1201.2" _ "1201.7"]) simp_all
  then have "\<lfloor>f64 (baseProduct_f64 BAL 0 6 / karmaStageMult_f64 1)\<rfloor> = 1201"
    by (simp add: floor_eq_iff)
  then show ?thesis by (simp add: stageRequirement_spec_f64_def)
qed

text \<open>
  C4, as the specification states it, fails: at realm 0, stage 6 and karma 1 the product
  1222.98\<dots> is floored to 1222 before the karma reduction, and the code returns 1200;
  a single floor of the divided product gives 1201.
\<close>

theorem stageRequirement_counterexample:
  "0 \<le> karma (reinc karmaOne) \<and> stageRequirement_f64 BAL karmaOne 0 6 = 1200
   \<and> stageRequirement_spec_f64 BAL 0 6 (karma (reinc karmaOne)) = 1201"
  using stageRequirement_f64_karmaOne stageRequirement_spec_f64_karmaOne
  by (simp add: karmaOne_def)

lemma karmaStageBonus_f64_range:
  assumes "0 \<le> karma (reinc S0)"
  shows "0 \<le> karmaStageBonus_f64 S0 \<and> karmaStageBonus_f64 S0 \<le> 1"
proof -
  have "1 \<le> karmaStageMult_f64 (karma (reinc S0))"
    unfolding karma_f64_softCap using assms by (intro softCap_f64_ge_1) simp_all
  then have q: "0 \<le> 1 / karmaStageMult_f64 (karma (reinc S0))"
    "1 / karmaStageMult_f64 (karma (reinc S0)) \<le> 1" by simp_all
  have "f64 0 \<le> f64 (1 / karmaStageMult_f64 (karma (reinc S0)))"
    using q(1) by (rule f64_mono)
  moreover have "f64 (1 / karmaStageMult_f64 (karma (reinc S0))) \<le> f64 1"
    using q(2) by (rule f64_mono)
  ultimately show ?thesis by (simp add: karmaStageBonus_f64_def)
qed

lemma js_pow_nonneg: "0 \<le> x \<Longrightarrow> 0 \<le> js_pow x n"
  by (simp add: js_pow_def f64_nonneg)

text \<open>
  C4, amended. For every realm index \<open>\<ge> 0\<close>, stage in 1..10 and karma \<open>\<ge> 0\<close> (and a
  balance without negative entries), \<open>stageRequirement\<close> is
  \<open>floor(floor(realmBase * realmBaseScale^realmIndex * stageScale^(stage-1)) *
  (1 / karmaStageMult(karma)))\<close>, every operation in double arithmetic: the product is
  floored before the karma reduction and the reduced value is floored again. The result
  is never negative and never above the floored product.
\<close>

theorem stageRequirement_two_floors:
  assumes "0 \<le> ri" and "1 \<le> st" and "st \<le> 10" and "0 \<le> karma (reinc S0)"
    and "0 \<le> realmBase cfg" and "0 \<le> realmBaseScale cfg" and "0 \<le> stageScale cfg"
  shows "stageRequirement_f64 cfg S0 ri st =
           of_int \<lfloor>f64 (of_int \<lfloor>baseProduct_f64 cfg ri st\<rfloor>
                          * f64 (1 / karmaStageMult_f64 (karma (reinc S0))))\<rfloor>
       \<and> 0 \<le> stageRequirement_f64 cfg S0 ri st
       \<and> stageRequirement_f64 cfg S0 ri st \<le> of_int \<lfloor>baseProduct_f64 cfg ri st\<rfloor>"
proof -
  let ?x = "f64 (f64 (realmBase cfg) * js_pow (f64 (realmBaseScale cfg)) ri)
              * js_pow (f64 (stageScale cfg)) (st - 1)"
  let ?b = "real_of_int \<lfloor>baseProduct_f64 cfg ri st\<rfloor>"
  let ?r = "karmaStageBonus_f64 S0"
  have x: "0 \<le> ?x"
    using assms(5-7) by (intro mult_nonneg_nonneg f64_nonneg js_pow_nonneg)
  have B: "baseProduct_f64 cfg ri st = f64 ?x" by (simp add: baseProduct_f64_def)
  have b0: "0 \<le> ?b" using f64_nonneg [OF x] unfolding B by simp
  have fb: "f64 ?b = ?b" unfolding B by (rule f64_floor [OF x])
  have r: "0 \<le> ?r" "?r \<le> 1" using karmaStageBonus_f64_range [OF assms(4)] by simp_all
  have code: "stageRequirement_f64 cfg S0 ri st = of_int \<lfloor>f64 (?b * ?r)\<rfloor>"
    by (simp add: stageRequirement_f64_def baseProduct_f64_def Let_def)
  have "0 \<le> ?b * ?r" using b0 r by simp
  then have lo: "0 \<le> f64 (?b * ?r)" by (rule f64_nonneg)
  have "?b * ?r \<le> ?b * 1" using b0 r by (intro mult_left_mono) simp_all
  then have "f64 (?b * ?r) \<le> f64 ?b" by (intro f64_mono) simp
  then have hi: "f64 (?b * ?r) \<le> ?b" unfolding fb .
  have "\<lfloor>f64 (?b * ?r)\<rfloor> \<le> \<lfloor>?b\<rfloor>" using hi by (rule floor_mono)
  then have "\<lfloor>f64 (?b * ?r)\<rfloor> \<le> \<lfloor>baseProduct_f64 cfg ri st\<rfloor>" by simp
  then have "real_of_int \<lfloor>f64 (?b * ?r)\<rfloor> \<le> ?b" by (simp only: of_int_le_iff)
  moreover have "0 \<le> real_of_int \<lfloor>f64 (?b * ?r)\<rfloor>" using lo by simp
  ultimately show ?thesis
    unfolding code by (simp add: karmaStageBonus_f64_def)
qed

theorem stageRequirement_two_floors_witness:
  "(0::int) \<le> 0 \<and> (1::int) \<le> 6 \<and> (6::int) \<le> 10 \<and> 0 \<le> karma (reinc karmaOne)
   \<and> 0 \<le> realmBase BAL \<and> 0 \<le> realmBaseScale BAL \<and> 0 \<le> stageScale BAL
   \<and> \<lfloor>baseProduct_f64 BAL 0 6\<rfloor> = 1222
   \<and> stageRequirement_f64 BAL karmaOne 0 6 = 1200
   \<and> stageRequirement_f64 BAL karmaOne 0 6 \<le> of_int \<lfloor>baseProduct_f64 BAL 0 6\<rfloor>"
proof -
  have h: "(0::int) \<le> 0" "(1::int) \<le> 6" "(6::int) \<le> 10" by simp_all
  have k: "0 \<le> karma (reinc karmaOne)" by (simp add: karmaOne_def)
  have c: "0 \<le> realmBase BAL" "0 \<le> realmBaseScale BAL" "0 \<le> stageScale BAL"
    by (simp_all add: BAL_def)
  have b: "\<lfloor>baseProduct_f64 BAL 0 6\<rfloor> = 1222"
    using baseProduct_0_6 by (simp add: floor_eq_iff)
  from stageRequirement_two_floors [OF h k c]
  have "stageRequirement_f64 BAL karmaOne 0 6 \<le> of_int \<lfloor>baseProduct_f64 BAL 0 6\<rfloor>" by blast
  with h k c b stageRequirement_f64_karmaOne show ?thesis by blast
qed

text \<open>Without karma the requirement is the floored product.\<close>

lemma stageRequirement_f64_karma_0:
  assumes "karma (reinc S0) = 0"
    and "0 \<le> realmBase cfg" and "0 \<le> realmBaseScale cfg" and "0 \<le> stageScale cfg"
  shows "stageRequirement_f64 cfg S0 ri st = of_int \<lfloor>baseProduct_f64 cfg ri st\<rfloor>"
proof -
  let ?x = "f64 (f64 (realmBase cfg) * js_pow (f64 (realmBaseScale cfg)) ri)
              * js_pow (f64 (stageScale cfg)) (st - 1)"
  have x: "0 \<le> ?x"
    using assms(2-4) by (intro mult_nonneg_nonneg f64_nonneg js_pow_nonneg)
  have "karmaStageMult_f64 0 = 1" unfolding karma_f64_softCap by (rule softCap_f64_0)
  then have "karmaStageBonus_f64 S0 = 1" by (simp add: karmaStageBonus_f64_def assms(1))
  then show ?thesis
    using f64_floor [OF x] by (simp add: stageRequirement_f64_def baseProduct_f64_def Let_def)
qed

text \<open>
  Two requirements computed to the last bit. \<open>Math.pow(1.65, 4)\<close> and
  \<open>Math.pow(1.65, 9)\<close> first:
\<close>

lemma f64_165: "f64 1.65 = 7430939385161318 / 2 ^ 52"
proof -
  have "f64 1.65 = of_int (rne (1.65 / 2 powi (0 - 52))) * 2 powi (0 - 52)"
    by (rule f64_eval) simp_all
  also have "(1.65::real) / 2 powi (0 - 52) = 37154696925806592 / 5"
    by (simp add: power_int_minus)
  also have "rne (37154696925806592 / 5) = 7430939385161318"
    by (simp add: rne_def Let_def)
  finally show ?thesis by (simp add: power_int_minus)
qed

lemma js_pow_165_4: "js_pow (f64 1.65) 4 = 8345177146391945 / 2 ^ 50"
proof -
  let ?x = "(7430939385161318 / 2 ^ 52 :: real) ^ 4"
  have "f64 ?x = of_int (rne (?x / 2 powi (2 - 52))) * 2 powi (2 - 52)"
    by (rule f64_eval) (simp_all add: power_int_minus power_divide)
  also have "rne (?x / 2 powi (2 - 52)) = 8345177146391945"
    by (simp add: rne_def Let_def power_int_minus power_divide)
  finally have "f64 ?x = 8345177146391945 * 2 powi (2 - 52)" by simp
  moreover have "(2::real) powi (2 - 52) = 1 / 2 ^ 50"
    by (simp add: power_int_minus inverse_eq_divide)
  ultimately have "f64 ?x = 8345177146391945 / 2 ^ 50" by (simp only: times_divide_eq_right mult_1_right)
  moreover have "power_int (7430939385161318 / 2 ^ 52 :: real) 4 = ?x"
    by (simp add: power_int_def)
  ultimately show ?thesis
    unfolding js_pow_def f64_165 by (simp only:)
qed

lemma js_pow_165_9: "js_pow (f64 1.65) 9 = 6378745845286469 / 2 ^ 46"
proof -
  let ?x = "(7430939385161318 / 2 ^ 52 :: real) ^ 9"
  have "f64 ?x = of_int (rne (?x / 2 powi (6 - 52))) * 2 powi (6 - 52)"
    by (rule f64_eval) (simp_all add: power_int_minus power_divide)
  also have "rne (?x / 2 powi (6 - 52)) = 6378745845286469"
    by (simp add: rne_def Let_def power_int_minus power_divide)
  finally have "f64 ?x = 6378745845286469 * 2 powi (6 - 52)" by simp
  moreover have "(2::real) powi (6 - 52) = 1 / 2 ^ 46"
    by (simp add: power_int_minus inverse_eq_divide)
  ultimately have "f64 ?x = 6378745845286469 / 2 ^ 46"
    by (simp only: times_divide_eq_right mult_1_right)
  moreover have "power_int (7430939385161318 / 2 ^ 52 :: real) 9 = ?x"
    by (simp add: power_int_def)
  ultimately show ?thesis
    unfolding js_pow_def f64_165 by (simp only:)
qed

lemma realmBase_f64:
  "f64 (f64 100 * js_pow (f64 25) 9) = 381469726562500"
  "f64 (f64 100 * js_pow (f64 25) 4) = 39062500"
proof -
  have a: "js_pow 25 9 = 3814697265625" "js_pow 25 4 = 390625"
    using f64_of_int [of 3814697265625] f64_of_int [of 390625]
    by (simp_all add: js_pow_def power_int_def)
  show "f64 (f64 100 * js_pow (f64 25) 9) = 381469726562500"
    using f64_of_int [of 381469726562500] by (simp add: a)
  show "f64 (f64 100 * js_pow (f64 25) 4) = 39062500"
    using f64_of_int [of 39062500] by (simp add: a)
qed

lemma baseProduct_9_5: "baseProduct_f64 BAL 9 5 = 5654911994934081 / 2"
proof -
  let ?x = "381469726562500 * (8345177146391945 / 2 ^ 50) :: real"
  have "f64 ?x = of_int (rne (?x / 2 powi (51 - 52))) * 2 powi (51 - 52)"
    by (rule f64_eval) (simp_all add: power_int_minus)
  also have "rne (?x / 2 powi (51 - 52)) = 5654911994934081"
    by (simp add: rne_def Let_def power_int_minus)
  finally have "f64 ?x = 5654911994934081 / 2" by (simp add: power_int_minus)
  moreover have "(5::int) - 1 = 4" by simp
  then have "baseProduct_f64 BAL 9 5 = f64 ?x"
    by (simp only: baseProduct_f64_def BAL_def config.simps realmBase_f64 js_pow_165_4)
  ultimately show ?thesis by (simp only:)
qed

lemma baseProduct_4_10: "baseProduct_f64 BAL 4 10 = 7425837504312476 / 2 ^ 21"
proof -
  let ?x = "39062500 * (6378745845286469 / 2 ^ 46) :: real"
  have "f64 ?x = of_int (rne (?x / 2 powi (31 - 52))) * 2 powi (31 - 52)"
    by (rule f64_eval) (simp_all add: power_int_minus)
  also have "rne (?x / 2 powi (31 - 52)) = 7425837504312476"
    by (simp add: rne_def Let_def power_int_minus)
  finally have "f64 ?x = 7425837504312476 * 2 powi (31 - 52)" by simp
  moreover have "(2::real) powi (31 - 52) = 1 / 2 ^ 21"
    by (simp add: power_int_minus inverse_eq_divide)
  ultimately have "f64 ?x = 7425837504312476 / 2 ^ 21"
    by (simp only: times_divide_eq_right mult_1_right)
  moreover have "(10::int) - 1 = 9" by simp
  then have "baseProduct_f64 BAL 4 10 = f64 ?x"
    by (simp only: baseProduct_f64_def BAL_def config.simps realmBase_f64 js_pow_165_9)
  ultimately show ?thesis by (simp only:)
qed

text \<open>
  At realm index 9 the products pass \<open>2^51\<close>, where doubles are half an integer apart,
  and the code's requirement is no longer the one of exact arithmetic.
\<close>

lemma stageRequirement_realm_9:
  "stageRequirement_f64 BAL (defaultState BAL 0) 9 5 = 2827455997467040
   \<and> stageRequirement BAL (defaultState BAL 0) 9 5 = 2827455997467041"
proof -
  have k: "karma (reinc (defaultState BAL 0)) = 0" by (simp add: defaultState_def)
  have c: "0 \<le> realmBase BAL" "0 \<le> realmBaseScale BAL" "0 \<le> stageScale BAL"
    by (simp_all add: BAL_def)
  have "\<lfloor>baseProduct_f64 BAL 9 5\<rfloor> = 2827455997467040"
    unfolding baseProduct_9_5 by (simp add: floor_eq_iff)
  then have a: "stageRequirement_f64 BAL (defaultState BAL 0) 9 5 = 2827455997467040"
    unfolding stageRequirement_f64_karma_0 [OF k c] by simp
  have "realmBase BAL * power_int (realmBaseScale BAL) 9 * power_int (stageScale BAL) (5 - 1)
          = (2827455997467041 + 1 / 64 :: real)"
    by (simp add: BAL_def power_int_def eval_nat_numeral)
  then have "\<lfloor>realmBase BAL * power_int (realmBaseScale BAL) 9
               * power_int (stageScale BAL) (5 - 1)\<rfloor> = 2827455997467041"
    by (simp add: floor_eq_iff)
  then have b: "stageRequirement BAL (defaultState BAL 0) 9 5 = 2827455997467041"
    by (simp add: stageRequirement_def karmaStageBonus_def karmaStageMult_def k Let_def)
  from a b show ?thesis ..
qed

text \<open>At the gate of Spirit Transformation both agree.\<close>

lemma stageRequirement_f64_atGate: "stageRequirement_f64 BAL (the_S atGate) 4 10 = 3540915252"
proof -
  have k: "karma (reinc (the_S atGate)) = 0" by (simp add: atGate_def defaultState_def)
  have c: "0 \<le> realmBase BAL" "0 \<le> realmBaseScale BAL" "0 \<le> stageScale BAL"
    by (simp_all add: BAL_def)
  have "\<lfloor>baseProduct_f64 BAL 4 10\<rfloor> = 3540915252"
    unfolding baseProduct_4_10 by (simp add: floor_eq_iff)
  then show ?thesis
    unfolding stageRequirement_f64_karma_0 [OF k c] by simp
qed

section \<open>The guard\<close>

lemma tick_noop_while_transitioning:
  "isReincarnating (lifecycle (the_S w)) \<Longrightarrow> tick cfg now dt w = w"
  by (simp add: tick_def Let_def)

lemma onClick_noop_while_transitioning:
  "isReincarnating (lifecycle (the_S w)) \<Longrightarrow> onClick cfg w = w"
  by (simp add: onClick_def Let_def)

lemma totalQPS_deathAlertOpen: "totalQPS BAL (the_S deathAlertOpen) = 1"
  by (simp add: totalQPS_def deathAlertOpen_def defaultState_def BAL_def skillLevel_def
      baseEff_def karmaQiMult_def cyclePowerMult_def Let_def)

lemma totalOfflineMult_deathAlertOpen: "totalOfflineMult BAL (the_S deathAlertOpen) = 1"
  by (simp add: totalOfflineMult_def deathAlertOpen_def defaultState_def skillLevel_def)

lemma resume_is_replay_deathAlertOpen:
  "applyOfflineProgressOnResume BAL 11000 True deathAlertOpen
     = offlineReplay BAL 11000 True 10 1 deathAlertOpen"
  by (simp add: applyOfflineProgressOnResume_def deathAlertOpen_def Let_def BAL_def)

lemma qiCeiling_large: "1000000 \<le> qiCeiling"
  by (simp add: qiCeiling_def)

lemma offlineQi_deathAlertOpen:
  "offlineQi 10 (the_S deathAlertOpen) =
     (the_S deathAlertOpen)\<lparr> qi := 10, reinc := \<lparr> reinc_times = 0, karma = 0, lifetimeQi = 10 \<rparr> \<rparr>"
  using qiCeiling_large
  by (simp add: offlineQi_def safeAddQi_def addLifetimeQi_def deathAlertOpen_def defaultState_def)

lemma offlineAge_deathAlertOpen:
  "offlineAge BAL 0.1 (initAge (migrateAge (offlineQi 10 (the_S deathAlertOpen)))) =
     ((the_S deathAlertOpen)\<lparr> qi := 10,
         reinc := \<lparr> reinc_times = 0, karma = 0, lifetimeQi = 10 \<rparr>,
         age := Some 0.1, ageYears := None,
         lifespan := \<lparr> current_ls = Some 99.9, max_ls = Some 100 \<rparr> \<rparr>, False)"
  unfolding offlineQi_deathAlertOpen
  by (simp add: offlineAge_def initAge_def migrateAge_def effectiveAge_def isImmortal_def
      getMaxLifespan_def karmaLifeMult_def clampAge_def setAge_def deathAlertOpen_def
      defaultState_def BAL_def firstLifespanOr100_def Let_def)

text \<open>
  C1. \<open>tick\<close> and \<open>onClick\<close> return at once while the guard is set (the two lemmas
  above), but the offline replay does not look at the guard: resumed ten seconds after the
  snapshot, with the death alert still open, it adds 10 Qi and 10 lifetime Qi and ages the
  cultivator by 0.1 years.
\<close>

theorem resume_mutates_while_transitioning:
  "isReincarnating (lifecycle (the_S deathAlertOpen))
   \<and> qi (the_S deathAlertOpen) = 0
   \<and> lifetimeQi (reinc (the_S deathAlertOpen)) = 0
   \<and> effectiveAge (the_S deathAlertOpen) = 0
   \<and> qi (the_S (applyOfflineProgressOnResume BAL 11000 True deathAlertOpen)) = 10
   \<and> lifetimeQi (reinc (the_S (applyOfflineProgressOnResume BAL 11000 True deathAlertOpen))) = 10
   \<and> age (the_S (applyOfflineProgressOnResume BAL 11000 True deathAlertOpen)) = Some 0.1"
proof -
  have y: "yearsPerSecondOr1 BAL = 0.01" by (simp add: yearsPerSecondOr1_def BAL_def)
  have "the_S (offlineReplay BAL 11000 True 10 1 deathAlertOpen) =
     (the_S deathAlertOpen)\<lparr> qi := 10,
         reinc := \<lparr> reinc_times = 0, karma = 0, lifetimeQi = 10 \<rparr>,
         age := Some 0.1, ageYears := None,
         lifespan := \<lparr> current_ls = Some 99.9, max_ls = Some 100 \<rparr>,
         session := None \<rparr>"
    by (simp add: offlineReplay_def totalQPS_deathAlertOpen totalOfflineMult_deathAlertOpen y
        offlineAge_deathAlertOpen Let_def)
  then show ?thesis
    unfolding resume_is_replay_deathAlertOpen
    by (simp add: deathAlertOpen_def defaultState_def effectiveAge_def)
qed

section \<open>The two counters\<close>

lemma updateCurrentCycle_keeps [simp]:
  "stats_deaths (updateCurrentCycle cfg S0) = stats_deaths S0"
  "reinc (updateCurrentCycle cfg S0) = reinc S0"
  by (simp_all add: updateCurrentCycle_def)

lemma stats_deaths_defaultState [simp]: "stats_deaths (defaultState cfg now) = 0"
  by (simp add: defaultState_def)

text \<open>
  \<open>doReincarnate\<close> always increments \<open>reinc.times\<close>; the death counter restarts from the
  fresh state, whatever it was.
\<close>

lemma reincarnate_counts:
  assumes "doReincarnate cfg now md w = Some w'"
  shows "reinc_times (reinc (the_S w')) = reinc_times (reinc (the_S w)) + 1
       \<and> stats_deaths (the_S w') = (if md = death then 1 else 0)"
  using assms
  by (auto simp: doReincarnate_def Let_def split: jsnum.splits)

text \<open>The death path increments \<open>stats.deaths\<close> and keeps \<open>reinc.times\<close>.\<close>

lemma death_counts:
  assumes "performDeathReincarnation cfg now g S0 = Some S'"
  shows "stats_deaths S' = stats_deaths S0 + 1 \<and> reinc_times (reinc S') = reinc_times (reinc S0)"
  using assms
  by (auto simp: performDeathReincarnation_def Let_def split: jsnum.splits)

lemma voluntaryKarma_diedTwice:
  "computeVoluntaryKarma BAL ((the_S diedTwice)\<lparr> life_isCleanRun := False,
      lifecycle := l \<rparr>) = Fin 8"
  by (simp add: computeVoluntaryKarma_def computeKarmaGain_def js_div_def diedTwice_def
      defaultState_def BAL_def Let_def)

text \<open>
  C5. A voluntary reincarnation of a player who has died twice and reincarnated once:
  the counters \<open>(reinc.times, stats.deaths)\<close> go from \<open>(1, 2)\<close> to \<open>(2, 0)\<close>. The
  death count is not left unchanged: it is lost in the reset.
\<close>

theorem voluntary_resets_deathCount:
  "canReincarnate (the_S diedTwice)
   \<and> counters diedTwice = (1, 2)
   \<and> map_option counters (tryManualReincarnate BAL 0 diedTwice) = Some (2, 0)"
proof -
  have c: "canReincarnate (the_S diedTwice)"
    by (simp add: canReincarnate_def diedTwice_def defaultState_def)
  have k: "karma (reinc (the_S diedTwice)) = 9" "reinc_times (reinc (the_S diedTwice)) = 1"
    "stats_deaths (the_S diedTwice) = 2"
    by (simp_all add: diedTwice_def)
  obtain w' where w': "tryManualReincarnate BAL 0 diedTwice = Some w'"
    using c k
    by (simp add: tryManualReincarnate_def doReincarnate_def voluntaryKarma_diedTwice Let_def)
  then have "doReincarnate BAL 0 voluntary
               (diedTwice\<lparr> the_S := (the_S diedTwice)\<lparr> life_isCleanRun := False \<rparr> \<rparr>) = Some w'"
    using c by (simp add: tryManualReincarnate_def)
  from reincarnate_counts [OF this]
  have "stats_deaths (the_S w') = 0 \<and> reinc_times (reinc (the_S w')) = 2"
    using k by simp
  with c k w' show ?thesis by (simp add: counters_def)
qed

section \<open>The gate of Spirit Transformation\<close>

text \<open>
  C10. At realm index 4, stage 10, without \<open>unlockedBeyondSpirit\<close> and with at least
  the stage requirement in Qi, \<open>doBreakthrough\<close> deducts the whole requirement, opens the
  gate prompt and changes nothing else: realm index and stage stay as they were.
\<close>

theorem doBreakthrough_gate:
  assumes "realmIndex (the_S w) = 4" and "stage (the_S w) = 10"
    and "\<not> unlockedBeyondSpirit (flags (the_S w))"
    and "stageRequirement cfg (the_S w) 4 10 \<le> qi (the_S w)"
  shows "doBreakthrough cfg w =
           w\<lparr> the_S := (the_S w)\<lparr> qi := qi (the_S w) - stageRequirement cfg (the_S w) 4 10 \<rparr>,
              ui := ui w @ [GateOfTranscendence] \<rparr>
       \<and> qi (the_S (doBreakthrough cfg w)) = qi (the_S w) - stageRequirement cfg (the_S w) 4 10
       \<and> realmIndex (the_S (doBreakthrough cfg w)) = 4
       \<and> stage (the_S (doBreakthrough cfg w)) = 10"
  using assms by (simp add: doBreakthrough_def Let_def)

lemma stageRequirement_atGate: "stageRequirement BAL (the_S atGate) 4 10 = 3540915252"
proof -
  have "realmBase BAL * power_int (realmBaseScale BAL) 4 * power_int (stageScale BAL) (10 - 1)
          = (3540915252 + 54693 / 65536 :: real)"
    by (simp add: BAL_def power_int_def eval_nat_numeral)
  then have "\<lfloor>realmBase BAL * power_int (realmBaseScale BAL) 4
               * power_int (stageScale BAL) (10 - 1)\<rfloor> = 3540915252"
    by (simp add: floor_eq_iff)
  then show ?thesis
    by (simp add: stageRequirement_def karmaStageBonus_def karmaStageMult_def atGate_def
        defaultState_def Let_def)
qed

theorem doBreakthrough_gate_witness:
  "realmIndex (the_S atGate) = 4 \<and> stage (the_S atGate) = 10
   \<and> \<not> unlockedBeyondSpirit (flags (the_S atGate))
   \<and> stageRequirement BAL (the_S atGate) 4 10 \<le> qi (the_S atGate)
   \<and> qi (the_S (doBreakthrough BAL atGate)) = 4000000000 - 3540915252
   \<and> realmIndex (the_S (doBreakthrough BAL atGate)) = 4
   \<and> stage (the_S (doBreakthrough BAL atGate)) = 10"
proof -
  have h1: "realmIndex (the_S atGate) = 4" and h2: "stage (the_S atGate) = 10"
    and h3: "\<not> unlockedBeyondSpirit (flags (the_S atGate))"
    by (simp_all add: atGate_def defaultState_def)
  have h4: "stageRequirement BAL (the_S atGate) 4 10 \<le> qi (the_S atGate)"
    unfolding stageRequirement_atGate by (simp add: atGate_def)
  have q: "qi (the_S atGate) = 4000000000" by (simp add: atGate_def)
  from doBreakthrough_gate [OF h1 h2 h3 h4] h1 h2 h3 h4 show ?thesis
    unfolding stageRequirement_atGate q by simp
qed

section \<open>Frame lemmas\<close>

lemma safeAddQi_fields [simp]:
  "timeSpeed (safeAddQi x S0) = timeSpeed S0"
  "lifecycle (safeAddQi x S0) = lifecycle S0"
  "isDead (safeAddQi x S0) = isDead S0"
  "realmIndex (safeAddQi x S0) = realmIndex S0"
  "qpsBase (safeAddQi x S0) = qpsBase S0"
  "qpsMult (safeAddQi x S0) = qpsMult S0"
  "skills (safeAddQi x S0) = skills S0"
  "flags (safeAddQi x S0) = flags S0"
  "session (safeAddQi x S0) = session S0"
  "max_ls (lifespan (safeAddQi x S0)) = max_ls (lifespan S0)"
  "karma (reinc (safeAddQi x S0)) = karma (reinc S0)"
  by (simp_all add: safeAddQi_def split: jsnum.split)

lemma addLifetimeQi_fields [simp]:
  "timeSpeed (addLifetimeQi x S0) = timeSpeed S0"
  "lifecycle (addLifetimeQi x S0) = lifecycle S0"
  "isDead (addLifetimeQi x S0) = isDead S0"
  "realmIndex (addLifetimeQi x S0) = realmIndex S0"
  "qpsBase (addLifetimeQi x S0) = qpsBase S0"
  "qpsMult (addLifetimeQi x S0) = qpsMult S0"
  "skills (addLifetimeQi x S0) = skills S0"
  "flags (addLifetimeQi x S0) = flags S0"
  "session (addLifetimeQi x S0) = session S0"
  "max_ls (lifespan (addLifetimeQi x S0)) = max_ls (lifespan S0)"
  "karma (reinc (addLifetimeQi x S0)) = karma (reinc S0)"
  "qi (addLifetimeQi x S0) = qi S0"
  by (simp_all add: addLifetimeQi_def)

lemma migrateAge_fields [simp]:
  "timeSpeed (migrateAge S0) = timeSpeed S0"
  "lifecycle (migrateAge S0) = lifecycle S0"
  "isDead (migrateAge S0) = isDead S0"
  "realmIndex (migrateAge S0) = realmIndex S0"
  "qpsBase (migrateAge S0) = qpsBase S0"
  "qpsMult (migrateAge S0) = qpsMult S0"
  "skills (migrateAge S0) = skills S0"
  "flags (migrateAge S0) = flags S0"
  "session (migrateAge S0) = session S0"
  "max_ls (lifespan (migrateAge S0)) = max_ls (lifespan S0)"
  "karma (reinc (migrateAge S0)) = karma (reinc S0)"
  "qi (migrateAge S0) = qi S0"
  by (simp_all add: migrateAge_def)

lemma initAge_fields [simp]:
  "timeSpeed (initAge S0) = timeSpeed S0"
  "lifecycle (initAge S0) = lifecycle S0"
  "isDead (initAge S0) = isDead S0"
  "realmIndex (initAge S0) = realmIndex S0"
  "qpsBase (initAge S0) = qpsBase S0"
  "qpsMult (initAge S0) = qpsMult S0"
  "skills (initAge S0) = skills S0"
  "flags (initAge S0) = flags S0"
  "session (initAge S0) = session S0"
  "max_ls (lifespan (initAge S0)) = max_ls (lifespan S0)"
  "karma (reinc (initAge S0)) = karma (reinc S0)"
  "qi (initAge S0) = qi S0"
  by (simp_all add: initAge_def split: option.split)

lemma setAge_fields [simp]:
  "timeSpeed (setAge a S0) = timeSpeed S0"
  "lifecycle (setAge a S0) = lifecycle S0"
  "isDead (setAge a S0) = isDead S0"
  "realmIndex (setAge a S0) = realmIndex S0"
  "qpsBase (setAge a S0) = qpsBase S0"
  "qpsMult (setAge a S0) = qpsMult S0"
  "skills (setAge a S0) = skills S0"
  "flags (setAge a S0) = flags S0"
  "session (setAge a S0) = session S0"
  "max_ls (lifespan (setAge a S0)) = max_ls (lifespan S0)"
  "karma (reinc (setAge a S0)) = karma (reinc S0)"
  "qi (setAge a S0) = qi S0"
  by (simp_all add: setAge_def split: option.split)

lemma qi_safeAddQi [simp]:
  "qi (safeAddQi (Fin v) S0) = (if v \<le> 0 then qi S0 else max 0 (min (qi S0 + v) qiCeiling))"
  by (simp add: safeAddQi_def)

lemma effectiveAge_fields [simp]:
  "effectiveAge (safeAddQi x S0) = effectiveAge S0"
  "effectiveAge (addLifetimeQi x S0) = effectiveAge S0"
  "effectiveAge (setAge a S0) = a"
  "effectiveAge (migrateAge S0) = effectiveAge S0"
  "effectiveAge (initAge (migrateAge S0)) = effectiveAge S0"
  by (simp_all add: safeAddQi_def addLifetimeQi_def setAge_def migrateAge_def initAge_def
      effectiveAge_def split: jsnum.split option.split)

lemma age_initAge: "age (initAge (migrateAge S0)) = Some (effectiveAge S0)"
  by (simp add: effectiveAge_def migrateAge_def initAge_def split: option.splits)

lemma age_setAge [simp]: "age (setAge a S0) = Some a"
  by (simp add: setAge_def split: option.splits)

lemma getMaxLifespan_cong:
  "realmIndex S' = realmIndex S0 \<Longrightarrow> karma (reinc S') = karma (reinc S0)
   \<Longrightarrow> getMaxLifespan cfg S' ri = getMaxLifespan cfg S0 ri"
  by (cases ri) (simp_all add: getMaxLifespan_def Let_def split: option.splits)

lemma getMaxLifespan_fields [simp]:
  "getMaxLifespan cfg (safeAddQi x S0) ri = getMaxLifespan cfg S0 ri"
  "getMaxLifespan cfg (addLifetimeQi x S0) ri = getMaxLifespan cfg S0 ri"
  "getMaxLifespan cfg (migrateAge S0) ri = getMaxLifespan cfg S0 ri"
  "getMaxLifespan cfg (initAge S0) ri = getMaxLifespan cfg S0 ri"
  "getMaxLifespan cfg (setAge a S0) ri = getMaxLifespan cfg S0 ri"
  by (rule getMaxLifespan_cong; simp)+

lemma totalQPS_cong:
  "qpsBase S' = qpsBase S0 \<Longrightarrow> qpsMult S' = qpsMult S0 \<Longrightarrow> skills S' = skills S0
   \<Longrightarrow> karma (reinc S') = karma (reinc S0) \<Longrightarrow> realmIndex S' = realmIndex S0
   \<Longrightarrow> totalQPS cfg S' = totalQPS cfg S0"
  by (simp add: totalQPS_def skillLevel_def Let_def)

lemma sameRun_refl [simp]: "sameRun w w"
  by (simp add: sameRun_def)



lemma karma_more_fields [simp]:
  "karma (reinc (offlineQi q S0)) = karma (reinc S0)"
  "karma (reinc (updateLifespanOnRealmAdvance cfg S0)) = karma (reinc S0)"
  "karma (reinc (checkAndUnlockSpeeds cfg S0)) = karma (reinc S0)"
  "karma (reinc (saveSessionSnapshot now S0)) = karma (reinc S0)"
  by (simp_all add: offlineQi_def updateLifespanOnRealmAdvance_def checkAndUnlockSpeeds_def
      saveSessionSnapshot_def Let_def split: option.splits)

lemma karma_offlineAge [simp]: "karma (reinc (fst (offlineAge cfg y S0))) = karma (reinc S0)"
  by (simp add: offlineAge_def Let_def split: option.splits)

lemma age_handleLifespanEnd [simp]:
  "age (the_S (handleLifespanEnd cfg now w)) = age (the_S w)"
  by (simp add: handleLifespanEnd_def Let_def)

lemma age_latchAndHandle [simp]:
  "age (the_S (latchAndHandle cfg now w)) = age (the_S w)"
  by (simp add: latchAndHandle_def)

lemma effectiveAge_Some: "age S0 = Some a \<Longrightarrow> effectiveAge S0 = a"
  by (simp add: effectiveAge_def)

lemma reinc_fields [simp]:
  "reinc (safeAddQi x S0) = reinc S0"
  "reinc (migrateAge S0) = reinc S0"
  "reinc (initAge S0) = reinc S0"
  "reinc (setAge a S0) = reinc S0"
  "lifetimeQi (reinc (addLifetimeQi (Fin g) S0)) = lifetimeQi (reinc S0) + g"
  by (simp_all add: safeAddQi_def migrateAge_def initAge_def setAge_def addLifetimeQi_def
      split: jsnum.split option.split)

lemma cycle_fields [simp]:
  "currentCycle (safeAddQi x S0) = currentCycle S0"
  "currentCycle (addLifetimeQi x S0) = currentCycle S0"
  "currentCycle (migrateAge S0) = currentCycle S0"
  "currentCycle (initAge S0) = currentCycle S0"
  "currentCycle (setAge a S0) = currentCycle S0"
  by (simp_all add: safeAddQi_def migrateAge_def initAge_def setAge_def addLifetimeQi_def
      split: jsnum.split option.split)

section \<open>The cycle of a run\<close>

text \<open>
  The cycle and the realm of a run are written by \<open>doBreakthrough\<close> and by the two
  resets only.
\<close>

lemma sameStanding_refl [simp]: "sameStanding w w"
  by (simp add: sameStanding_def)

lemma sameStanding_trans: "sameStanding w w1 \<Longrightarrow> sameStanding w1 w2 \<Longrightarrow> sameStanding w w2"
  by (simp add: sameStanding_def)

lemma sameStanding_update:
  "currentCycle S' = currentCycle (the_S w) \<Longrightarrow> realmIndex S' = realmIndex (the_S w)
   \<Longrightarrow> sameStanding w (w\<lparr> the_S := S' \<rparr>)"
  by (simp add: sameStanding_def)

lemma sameStanding_ui: "sameStanding w w' \<Longrightarrow> sameStanding w (w'\<lparr> ui := u \<rparr>)"
  by (simp add: sameStanding_def)

lemma sameStanding_handleLifespanEnd: "sameStanding w (handleLifespanEnd cfg now w)"
  by (simp add: sameStanding_def handleLifespanEnd_def Let_def)

lemma sameStanding_latchAndHandle: "sameStanding w (latchAndHandle cfg now w)"
  unfolding latchAndHandle_def
  by (rule sameStanding_trans [OF _ sameStanding_handleLifespanEnd]) (simp add: sameStanding_def)

lemma sameStanding_tickLifespan: "sameStanding w (tickLifespan cfg now dt w)"
  unfolding tickLifespan_def Let_def
  by (auto split: jsnum.splits option.splits
      intro!: sameStanding_trans [OF _ sameStanding_latchAndHandle] sameStanding_update)

lemma sameStanding_checkLifespanGate: "sameStanding w (checkLifespanGate cfg now w)"
  unfolding checkLifespanGate_def Let_def
  by (auto split: option.splits
      intro!: sameStanding_trans [OF _ sameStanding_latchAndHandle] sameStanding_update)

lemma sameStanding_tick: "sameStanding w (tick cfg now dt w)"
  unfolding tick_def Let_def
  by (auto intro!: sameStanding_trans [OF _ sameStanding_checkLifespanGate]
      sameStanding_trans [OF _ sameStanding_tickLifespan] sameStanding_update)

lemma sameStanding_onClick: "sameStanding w (onClick cfg w)"
  unfolding onClick_def Let_def by (auto intro!: sameStanding_update)

lemma standing_offline [simp]:
  "currentCycle (offlineQi q S0) = currentCycle S0"
  "realmIndex (offlineQi q S0) = realmIndex S0"
  "currentCycle (fst (offlineAge cfg y S0)) = currentCycle S0"
  "realmIndex (fst (offlineAge cfg y S0)) = realmIndex S0"
  by (simp_all add: offlineQi_def offlineAge_def Let_def split: option.splits)

lemma sameStanding_offlineReplay: "sameStanding w (offlineReplay cfg now sp c v w)"
  unfolding offlineReplay_def Let_def
  by (auto intro!: sameStanding_trans [OF _ sameStanding_checkLifespanGate] sameStanding_update
      sameStanding_ui)

lemma sameStanding_resume: "sameStanding w (applyOfflineProgressOnResume cfg now sp w)"
  unfolding applyOfflineProgressOnResume_def Let_def
  by (auto split: option.splits intro!: sameStanding_offlineReplay sameStanding_update)

lemma cycleFitsRealm_sameStanding:
  "sameStanding w w' \<Longrightarrow> cycleFitsRealm (the_S w) \<Longrightarrow> cycleFitsRealm (the_S w')"
  by (simp add: sameStanding_def cycleFitsRealm_def)

lemma cycleFitsRealm_updateCurrentCycle:
  assumes "\<forall>r \<in> set (spiritRealms cfg). 5 \<le> r"
    and "currentCycle S0 = spirit \<longrightarrow> 5 \<le> realmIndex S0"
  shows "cycleFitsRealm (updateCurrentCycle cfg S0)"
  using assms by (auto simp: cycleFitsRealm_def updateCurrentCycle_def)

lemma standing_fields [simp]:
  "currentCycle (updateLifespanOnRealmAdvance cfg S0) = currentCycle S0"
  "realmIndex (updateLifespanOnRealmAdvance cfg S0) = realmIndex S0"
  "currentCycle (checkAndUnlockSpeeds cfg S0) = currentCycle S0"
  "realmIndex (checkAndUnlockSpeeds cfg S0) = realmIndex S0"
  "realmIndex (updateCurrentCycle cfg S0) = realmIndex S0"
  by (simp_all add: updateLifespanOnRealmAdvance_def checkAndUnlockSpeeds_def
      updateCurrentCycle_def Let_def split: option.splits)

lemma cycleFitsRealm_checkAndUnlockSpeeds:
  "cycleFitsRealm (checkAndUnlockSpeeds cfg S0) = cycleFitsRealm S0"
  by (simp add: cycleFitsRealm_def)

lemma cycleFitsRealm_plain_fields [simp]:
  "cycleFitsRealm (S0\<lparr> qi := q \<rparr>) = cycleFitsRealm S0"
  "cycleFitsRealm (S0\<lparr> stage := s \<rparr>) = cycleFitsRealm S0"
  by (simp_all add: cycleFitsRealm_def)

lemma cycleFitsRealm_advance:
  assumes "\<forall>r \<in> set (spiritRealms cfg). 5 \<le> r" and "cycleFitsRealm S0"
    and "currentCycle S2 = currentCycle S0" and "realmIndex S2 = realmIndex S0 + 1"
  shows "cycleFitsRealm (checkAndUnlockSpeeds cfg
           (updateCurrentCycle cfg (updateLifespanOnRealmAdvance cfg S2)))"
proof -
  have "currentCycle (updateLifespanOnRealmAdvance cfg S2) = spirit
          \<longrightarrow> 5 \<le> realmIndex (updateLifespanOnRealmAdvance cfg S2)"
    using assms(2-4) by (auto simp: cycleFitsRealm_def)
  from cycleFitsRealm_updateCurrentCycle [OF assms(1) this] show ?thesis
    unfolding cycleFitsRealm_checkAndUnlockSpeeds .
qed

lemma cycleFitsRealm_doBreakthrough:
  assumes "\<forall>r \<in> set (spiritRealms cfg). 5 \<le> r" and "cycleFitsRealm (the_S w)"
  shows "cycleFitsRealm (the_S (doBreakthrough cfg w))"
  unfolding doBreakthrough_def Let_def
  using assms(2) by (auto intro!: cycleFitsRealm_advance [OF assms])

lemma cycleFitsRealm_defaultState: "cycleFitsRealm (defaultState cfg now)"
  by (simp add: cycleFitsRealm_def defaultState_def)

lemma cycleFitsRealm_doReincarnate:
  assumes "\<forall>r \<in> set (spiritRealms cfg). 5 \<le> r" and "doReincarnate cfg now md w = Some w'"
  shows "cycleFitsRealm (the_S w')"
proof -
  have u: "cycleFitsRealm (updateCurrentCycle cfg S0)" if "currentCycle S0 = mortal" for S0
    using that by (intro cycleFitsRealm_updateCurrentCycle [OF assms(1)]) simp
  have l: "cycleFitsRealm (S0\<lparr> lifecycle := x, timeSpeed := y \<rparr>) = cycleFitsRealm S0" for S0 x y
    by (simp add: cycleFitsRealm_def)
  from assms(2) show ?thesis
    by (auto simp: doReincarnate_def Let_def l u split: jsnum.splits)
qed

lemma cycleFitsRealm_performDeathReincarnation:
  assumes "performDeathReincarnation cfg now g S0 = Some S'"
  shows "cycleFitsRealm S'"
  using assms
  by (auto simp: performDeathReincarnation_def Let_def cycleFitsRealm_def defaultState_def
      split: jsnum.splits)

lemma step_cycleFitsRealm:
  assumes "\<forall>r \<in> set (spiritRealms cfg). 5 \<le> r" and "cycleFitsRealm (the_S w)"
    and "step cfg e w = Some w'"
  shows "cycleFitsRealm (the_S w')"
proof (cases e)
  case (Pair now ev)
  show ?thesis
  proof (cases ev)
    case (Tick dt)
    with Pair assms show ?thesis using cycleFitsRealm_sameStanding [OF sameStanding_tick] by auto
  next
    case Click
    with Pair assms show ?thesis using cycleFitsRealm_sameStanding [OF sameStanding_onClick] by auto
  next
    case Breakthrough
    with Pair assms show ?thesis using cycleFitsRealm_doBreakthrough by auto
  next
    case (Reincarnate md)
    with Pair assms show ?thesis using cycleFitsRealm_doReincarnate by auto
  next
    case ManualReincarnate
    with Pair assms show ?thesis
      using cycleFitsRealm_doReincarnate [OF assms(1)]
      by (auto simp: tryManualReincarnate_def split: if_splits)
  next
    case DismissDeath
    with Pair assms show ?thesis
      using cycleFitsRealm_performDeathReincarnation
      by (auto simp: dismissDeathAlert_def split: option.splits)
  next
    case Suspend
    with Pair assms show ?thesis by (auto simp: cycleFitsRealm_def saveSessionSnapshot_def)
  next
    case (Resume sp)
    with Pair assms show ?thesis using cycleFitsRealm_sameStanding [OF sameStanding_resume] by auto
  qed
qed

text \<open>
  Every state a run reaches from a state whose cycle agrees with its realm is such a
  state again, as long as the spirit cycle is configured to start at realm index 5 or
  later (the source's default is 5 to 9).
\<close>

lemma run_cycleFitsRealm:
  assumes "\<forall>r \<in> set (spiritRealms cfg). 5 \<le> r"
  shows "cycleFitsRealm (the_S w) \<Longrightarrow> run cfg es w = Some w' \<Longrightarrow> cycleFitsRealm (the_S w')"
proof (induction es arbitrary: w)
  case Nil
  then show ?case by simp
next
  case (Cons e es)
  from Cons.prems obtain w1 where s: "step cfg e w = Some w1" and r: "run cfg es w1 = Some w'"
    by (auto split: option.splits)
  from step_cycleFitsRealm [OF assms Cons.prems(1) s] Cons.IH [OF _ r] show ?case by simp
qed

lemma spiritRealms_BAL: "\<forall>r \<in> set (spiritRealms BAL). 5 \<le> r"
  by (simp add: spiritRealms_def BAL_def)

section \<open>Karma along the runs the model follows\<close>

text \<open>
  A step of the game either keeps the karma or, for a transition whose gain is a finite
  number, adds at least \<open>minKarma\<close>. A transition whose gain is not finite makes the
  source store NaN or an infinity in \<open>S.reinc.karma\<close>; the run of the model ends there
  (\<open>None\<close>).
\<close>

lemma js_max_Fin_ge: "js_max (Fin a) y = Fin g \<Longrightarrow> a \<le> g"
  by (cases y) auto

lemma computeVoluntaryKarma_ge: "computeVoluntaryKarma cfg S0 = Fin g \<Longrightarrow> minKarma cfg \<le> g"
  unfolding computeVoluntaryKarma_def by (rule js_max_Fin_ge)

lemma computeDeathKarma_ge: "computeDeathKarma cfg S0 = Fin g \<Longrightarrow> minKarma cfg \<le> g"
  unfolding computeDeathKarma_def by (rule js_max_Fin_ge)

lemma js_add_Fin_Fin: "js_add (Fin a) y = Fin k \<Longrightarrow> \<exists>g. y = Fin g \<and> k = a + g"
  by (cases y) auto

lemma keeps_refl [simp]: "keeps cfg w w"
  by (simp add: keeps_def)

lemma keeps_trans: "keeps cfg w w1 \<Longrightarrow> keeps cfg w1 w2 \<Longrightarrow> keeps cfg w w2"
  by (simp add: keeps_def)

lemma keeps_state_update:
  "karma (reinc S') = karmaOf w \<Longrightarrow> keeps cfg w (w\<lparr> the_S := S' \<rparr>)"
  by (simp add: keeps_def karmaOf_def pendingGainOk_def)

lemma keeps_handleLifespanEnd: "keeps cfg w (handleLifespanEnd cfg now w)"
  by (auto simp: keeps_def karmaOf_def pendingGainOk_def handleLifespanEnd_def Let_def
      split: jsnum.splits dest: computeDeathKarma_ge)

lemma keeps_latchAndHandle: "keeps cfg w (latchAndHandle cfg now w)"
  unfolding latchAndHandle_def
  by (rule keeps_trans [OF _ keeps_handleLifespanEnd]) (simp add: keeps_state_update karmaOf_def)

lemma keeps_tickLifespan: "keeps cfg w (tickLifespan cfg now dt w)"
  unfolding tickLifespan_def Let_def
  by (auto split: jsnum.splits option.splits
      intro!: keeps_trans [OF _ keeps_latchAndHandle] keeps_state_update simp: karmaOf_def)

lemma keeps_checkLifespanGate: "keeps cfg w (checkLifespanGate cfg now w)"
  unfolding checkLifespanGate_def Let_def
  by (auto split: option.splits
      intro!: keeps_trans [OF _ keeps_latchAndHandle] keeps_state_update simp: karmaOf_def)

lemma keeps_tick: "keeps cfg w (tick cfg now dt w)"
  unfolding tick_def Let_def
  by (auto intro!: keeps_trans [OF _ keeps_checkLifespanGate] keeps_trans [OF _ keeps_tickLifespan]
      keeps_state_update simp: karmaOf_def)

lemma keeps_onClick: "keeps cfg w (onClick cfg w)"
  unfolding onClick_def Let_def
  by (auto intro!: keeps_state_update simp: karmaOf_def)

lemma keeps_ui: "keeps cfg w w' \<Longrightarrow> keeps cfg w (w'\<lparr> ui := u \<rparr>)"
  by (simp add: keeps_def karmaOf_def pendingGainOk_def)

lemma keeps_doBreakthrough: "keeps cfg w (doBreakthrough cfg w)"
  unfolding doBreakthrough_def Let_def
  by (auto simp: keeps_def karmaOf_def pendingGainOk_def)

lemma keeps_offlineReplay: "keeps cfg w (offlineReplay cfg now sp c v w)"
  unfolding offlineReplay_def Let_def
  by (auto intro!: keeps_trans [OF _ keeps_checkLifespanGate] keeps_state_update keeps_ui
      simp: karmaOf_def)

lemma keeps_resume: "keeps cfg w (applyOfflineProgressOnResume cfg now sp w)"
  unfolding applyOfflineProgressOnResume_def Let_def
  by (auto split: option.splits intro!: keeps_offlineReplay keeps_state_update simp: karmaOf_def)

lemma doReincarnate_gain:
  assumes "doReincarnate cfg now md w = Some w'"
  shows "karmaOf w + minKarma cfg \<le> karmaOf w' \<and> pendingDeathGain w' = pendingDeathGain w"
proof -
  let ?S0 = "(the_S w)\<lparr> lifecycle := (lifecycle (the_S w))\<lparr> isReincarnating := True,
                                                       lastReincarnateAt := now \<rparr> \<rparr>"
  let ?gain = "if md = death then computeDeathKarma cfg ?S0 else computeVoluntaryKarma cfg ?S0"
  from assms obtain k where k: "js_add (Fin (karma (reinc (the_S w)))) ?gain = Fin k"
    and w': "karma (reinc (the_S w')) = k" "pendingDeathGain w' = pendingDeathGain w"
    by (auto simp: doReincarnate_def Let_def split: jsnum.splits)
  from js_add_Fin_Fin [OF k] obtain g where g: "?gain = Fin g" "k = karma (reinc (the_S w)) + g"
    by blast
  have "minKarma cfg \<le> g"
    using g(1) computeDeathKarma_ge computeVoluntaryKarma_ge by (auto split: if_splits)
  then show ?thesis using g w' by (simp add: karmaOf_def)
qed

lemma performDeathReincarnation_gain:
  assumes "performDeathReincarnation cfg now (Fin g) S0 = Some S'"
  shows "karma (reinc S') = karma (reinc S0) + g"
  using assms by (auto simp: performDeathReincarnation_def Let_def split: jsnum.splits)

lemma performDeathReincarnation_Fin:
  assumes "performDeathReincarnation cfg now x S0 = Some S'"
  shows "\<exists>g. x = Fin g"
  using assms by (cases x) (auto simp: performDeathReincarnation_def Let_def)

lemma dismissDeathAlert_gain:
  assumes "dismissDeathAlert cfg now w = Some w'" and "pendingGainOk cfg w"
  shows "(pendingDeathGain w = None \<and> w' = w)
       \<or> (karmaOf w + minKarma cfg \<le> karmaOf w' \<and> pendingDeathGain w' = None)"
proof (cases "pendingDeathGain w")
  case None
  then show ?thesis using assms by (simp add: dismissDeathAlert_def)
next
  case (Some x)
  with assms obtain S' where S': "performDeathReincarnation cfg now x (the_S w) = Some S'"
    and w': "w' = w\<lparr> the_S := S', isHandlingDeath := False, pendingDeathGain := None \<rparr>"
    by (auto simp: dismissDeathAlert_def split: option.splits)
  from performDeathReincarnation_Fin [OF S'] obtain g where g: "x = Fin g" by blast
  have "minKarma cfg \<le> g" using assms(2) Some g by (simp add: pendingGainOk_def)
  moreover have "karma (reinc S') = karma (reinc (the_S w)) + g"
    using performDeathReincarnation_gain S' g by simp
  ultimately show ?thesis using w' by (simp add: karmaOf_def)
qed

lemma step_karma:
  assumes "0 < minKarma cfg" and "pendingGainOk cfg w" and "step cfg e w = Some w'"
  shows "karmaOf w \<le> karmaOf w' \<and> pendingGainOk cfg w'"
proof (cases e)
  case (Pair now ev)
  show ?thesis
  proof (cases ev)
    case (Tick dt)
    with Pair assms keeps_tick [of cfg w now dt] show ?thesis by (auto simp: keeps_def)
  next
    case Click
    with Pair assms keeps_onClick [of cfg w] show ?thesis by (auto simp: keeps_def)
  next
    case Breakthrough
    with Pair assms keeps_doBreakthrough [of cfg w] show ?thesis by (auto simp: keeps_def)
  next
    case (Reincarnate md)
    with Pair assms have "doReincarnate cfg now md w = Some w'" by simp
    from doReincarnate_gain [OF this] assms show ?thesis by (simp add: pendingGainOk_def)
  next
    case ManualReincarnate
    show ?thesis
    proof (cases "canReincarnate (the_S w)")
      case True
      with ManualReincarnate Pair assms
      have "doReincarnate cfg now voluntary (w\<lparr> the_S := (the_S w)\<lparr> life_isCleanRun := False \<rparr> \<rparr>) = Some w'"
        by (simp add: tryManualReincarnate_def)
      from doReincarnate_gain [OF this] assms show ?thesis
        by (simp add: pendingGainOk_def karmaOf_def)
    next
      case False
      with ManualReincarnate Pair assms show ?thesis by (simp add: tryManualReincarnate_def)
    qed
  next
    case DismissDeath
    with Pair assms have "dismissDeathAlert cfg now w = Some w'" by simp
    from dismissDeathAlert_gain [OF this assms(2)] assms show ?thesis
      by (auto simp: pendingGainOk_def)
  next
    case Suspend
    with Pair assms show ?thesis by (auto simp: karmaOf_def pendingGainOk_def)
  next
    case (Resume sp)
    with Pair assms keeps_resume [of cfg w now sp] show ?thesis by (auto simp: keeps_def)
  qed
qed

lemma run_karma:
  assumes "0 < minKarma cfg"
  shows "pendingGainOk cfg w \<Longrightarrow> run cfg es w = Some w' \<Longrightarrow> karmaOf w \<le> karmaOf w'"
proof (induction es arbitrary: w)
  case Nil
  then show ?case by simp
next
  case (Cons e es)
  from Cons.prems obtain w1 where s: "step cfg e w = Some w1" and r: "run cfg es w1 = Some w'"
    by (auto split: option.splits)
  from step_karma [OF assms Cons.prems(1) s] have "karmaOf w \<le> karmaOf w1" "pendingGainOk cfg w1"
    by auto
  with Cons.IH [OF _ r] show ?case by simp
qed

text \<open>
  A transition from a state with a lifetime Qi \<open>\<ge> 0\<close>, under a positive divisor, pays a
  finite gain and completes.
\<close>

lemma computeKarmaGain_finite:
  assumes "0 \<le> lifetimeQi (reinc S0)" and "0 < lifetimeQiDivisor cfg"
  shows "\<exists>g. computeKarmaGain cfg S0 = Fin g"
proof -
  have "\<not> lifetimeQi (reinc S0) / lifetimeQiDivisor cfg < 0"
    using assms by (simp add: not_less)
  then show ?thesis
    using assms by (simp add: computeKarmaGain_def js_div_def Let_def)
qed

lemma doReincarnate_completes:
  assumes "0 \<le> lifetimeQi (reinc (the_S w))" and "0 < lifetimeQiDivisor cfg"
  shows "\<exists>w'. doReincarnate cfg now md w = Some w'"
proof -
  let ?S0 = "(the_S w)\<lparr> lifecycle := (lifecycle (the_S w))\<lparr> isReincarnating := True,
                                                       lastReincarnateAt := now \<rparr> \<rparr>"
  have "0 \<le> lifetimeQi (reinc ?S0)" using assms(1) by simp
  from computeKarmaGain_finite [OF this assms(2)] obtain g
    where g: "computeKarmaGain cfg ?S0 = Fin g" by blast
  then have "\<exists>k. js_add (Fin (karma (reinc ?S0)))
                 (if md = death then computeDeathKarma cfg ?S0 else computeVoluntaryKarma cfg ?S0)
               = Fin k"
    by (simp add: computeDeathKarma_def computeVoluntaryKarma_def)
  then show ?thesis
    by (auto simp: doReincarnate_def Let_def)
qed

lemma death_transition_gain:
  assumes "\<not> isHandlingDeath v" and "\<not> isReincarnating (lifecycle (the_S v))"
    and "\<not> isDead (the_S v)"
    and "dismissDeathAlert cfg now' (handleLifespanEnd cfg now v) = Some v'"
  shows "karmaOf v + minKarma cfg \<le> karmaOf v'"
proof -
  let ?u = "handleLifespanEnd cfg now v"
  have k: "karmaOf ?u = karmaOf v"
    using keeps_handleLifespanEnd [of cfg v now] by (simp add: keeps_def)
  have p: "pendingDeathGain ?u \<noteq> None"
    using assms(1-3) by (simp add: handleLifespanEnd_def Let_def)
  have "pendingGainOk cfg ?u"
    using assms(1-3)
    by (auto simp: handleLifespanEnd_def Let_def pendingGainOk_def split: jsnum.splits
        dest: computeDeathKarma_ge)
  from dismissDeathAlert_gain [OF assms(4) this] p k show ?thesis by auto
qed

section \<open>Aging\<close>

lemma clampAge_range: "0 \<le> m \<Longrightarrow> 0 \<le> clampAge (Some m) x \<and> clampAge (Some m) x \<le> m"
  by (simp add: clampAge_def)

lemma tickLifespan_guarded:
  assumes "getMaxLifespan cfg (the_S w) None = None \<or> paused (timeSpeed (the_S w))
           \<or> current_ts (timeSpeed (the_S w)) \<le> 0 \<or> isReincarnating (lifecycle (the_S w))
           \<or> isDead (the_S w)"
  shows "tickLifespan cfg now dt w = w"
  using assms by (auto simp: tickLifespan_def isImmortal_def Let_def)

lemma tickLifespan_advance:
  assumes "\<not> paused (timeSpeed (the_S w))" and "\<not> isDead (the_S w)"
    and "\<not> isReincarnating (lifecycle (the_S w))" and "0 < current_ts (timeSpeed (the_S w))"
    and "getMaxLifespan cfg (the_S w) None = Some m" and "0 < d"
  shows "age (the_S (tickLifespan cfg now (Fin d) w)) =
           Some (max 0 (min (effectiveAge (the_S w)
                     + max 0 d * current_ts (timeSpeed (the_S w)) * yearsPerSecondOr1 cfg) m))"
  using assms
  by (simp add: tickLifespan_def isImmortal_def Let_def age_initAge clampAge_def max_def)

lemma tickLifespan_nonpositive:
  assumes "d \<le> 0"
  shows "tickLifespan cfg now (Fin d) w = w"
  using assms by (simp add: tickLifespan_def Let_def max_def)

lemma js_nonfinite_cases: "\<not> js_isFinite x \<Longrightarrow> x = PosInf \<or> x = NegInf \<or> x = NaN"
  by (cases x) auto

lemma yearsPerSecondOr1_nonzero: "yearsPerSecondOr1 cfg \<noteq> 0"
  by (simp add: yearsPerSecondOr1_def split: option.splits)

lemma tickLifespan_nonfinite:
  assumes "\<not> js_isFinite dt"
  shows "effectiveAge (the_S (tickLifespan cfg now dt w)) = effectiveAge (the_S w)"
  using js_nonfinite_cases [OF assms] yearsPerSecondOr1_nonzero [of cfg]
  by (auto simp: tickLifespan_def Let_def)

text \<open>
  C8. An aging step \<open>tickLifespan(dt)\<close>. With an infinite lifespan, a paused or zero
  speed, a transition in progress or a dead cultivator nothing is written. Otherwise, with
  lifespan ceiling \<open>m \<ge> 0\<close>: for a finite \<open>dt\<close> the age becomes
  \<open>max(0, min(priorAge + max(0, dt) * timeSpeed * yearsPerSecond, m))\<close> and lies in
  \<open>[0, m]\<close> (for \<open>dt \<le> 0\<close> the delta is 0 and the state is returned untouched, so this
  rests on the prior age lying in \<open>[0, m]\<close>); for a non-finite \<open>dt\<close> the prior age is
  kept.
\<close>

theorem tickLifespan_age:
  "(getMaxLifespan cfg (the_S w) None = None \<or> paused (timeSpeed (the_S w))
      \<or> current_ts (timeSpeed (the_S w)) \<le> 0 \<or> isReincarnating (lifecycle (the_S w))
      \<or> isDead (the_S w)
    \<longrightarrow> tickLifespan cfg now dt w = w)
   \<and> (\<not> paused (timeSpeed (the_S w)) \<and> \<not> isDead (the_S w)
       \<and> \<not> isReincarnating (lifecycle (the_S w)) \<and> 0 < current_ts (timeSpeed (the_S w))
       \<and> getMaxLifespan cfg (the_S w) None = Some m \<and> 0 \<le> m
      \<longrightarrow> (\<forall>d. dt = Fin d \<and> (0 < d \<or> 0 \<le> effectiveAge (the_S w) \<and> effectiveAge (the_S w) \<le> m)
             \<longrightarrow> effectiveAge (the_S (tickLifespan cfg now dt w)) =
                   max 0 (min (effectiveAge (the_S w)
                     + max 0 d * current_ts (timeSpeed (the_S w)) * yearsPerSecondOr1 cfg) m)
                 \<and> 0 \<le> effectiveAge (the_S (tickLifespan cfg now dt w))
                 \<and> effectiveAge (the_S (tickLifespan cfg now dt w)) \<le> m)
          \<and> (\<not> js_isFinite dt
             \<longrightarrow> effectiveAge (the_S (tickLifespan cfg now dt w)) = effectiveAge (the_S w)))"
proof (intro conjI impI allI)
  assume "getMaxLifespan cfg (the_S w) None = None \<or> paused (timeSpeed (the_S w))
      \<or> current_ts (timeSpeed (the_S w)) \<le> 0 \<or> isReincarnating (lifecycle (the_S w))
      \<or> isDead (the_S w)"
  then show "tickLifespan cfg now dt w = w"
    using tickLifespan_guarded by blast
next
  fix d
  assume g: "\<not> paused (timeSpeed (the_S w)) \<and> \<not> isDead (the_S w)
       \<and> \<not> isReincarnating (lifecycle (the_S w)) \<and> 0 < current_ts (timeSpeed (the_S w))
       \<and> getMaxLifespan cfg (the_S w) None = Some m \<and> 0 \<le> m"
    and d: "dt = Fin d \<and> (0 < d \<or> 0 \<le> effectiveAge (the_S w) \<and> effectiveAge (the_S w) \<le> m)"
  let ?a = "effectiveAge (the_S w)"
  let ?new = "max 0 (min (?a + max 0 d * current_ts (timeSpeed (the_S w)) * yearsPerSecondOr1 cfg) m)"
  have eq: "effectiveAge (the_S (tickLifespan cfg now dt w)) = ?new"
  proof (cases "0 < d")
    case True
    with g d tickLifespan_advance [of w cfg m d now] show ?thesis
      by (simp add: effectiveAge_Some)
  next
    case False
    then have "tickLifespan cfg now dt w = w" using d tickLifespan_nonpositive by simp
    moreover have "0 \<le> ?a \<and> ?a \<le> m" using d False by simp
    ultimately show ?thesis using False by (simp add: max_def min_def)
  qed
  show "effectiveAge (the_S (tickLifespan cfg now dt w)) = ?new" by (rule eq)
  show "0 \<le> effectiveAge (the_S (tickLifespan cfg now dt w))" unfolding eq by simp
  show "effectiveAge (the_S (tickLifespan cfg now dt w)) \<le> m" unfolding eq using g by simp
next
  assume "\<not> js_isFinite dt"
  then show "effectiveAge (the_S (tickLifespan cfg now dt w)) = effectiveAge (the_S w)"
    by (rule tickLifespan_nonfinite)
qed

lemma getMaxLifespan_freshWorld: "getMaxLifespan BAL (the_S freshWorld) None = Some 100"
  by (simp add: getMaxLifespan_def freshWorld_def defaultState_def BAL_def karmaLifeMult_def Let_def)

theorem tickLifespan_age_witness:
  "\<not> paused (timeSpeed (the_S freshWorld)) \<and> \<not> isDead (the_S freshWorld)
   \<and> \<not> isReincarnating (lifecycle (the_S freshWorld)) \<and> 0 < current_ts (timeSpeed (the_S freshWorld))
   \<and> getMaxLifespan BAL (the_S freshWorld) None = Some 100 \<and> (0::real) \<le> 100
   \<and> Fin 2 = Fin 2 \<and> (0::real) < 2
   \<and> effectiveAge (the_S (tickLifespan BAL 0 (Fin 2) freshWorld)) = 0.02"
proof -
  have g: "\<not> paused (timeSpeed (the_S freshWorld)) \<and> \<not> isDead (the_S freshWorld)
       \<and> \<not> isReincarnating (lifecycle (the_S freshWorld)) \<and> 0 < current_ts (timeSpeed (the_S freshWorld))
       \<and> getMaxLifespan BAL (the_S freshWorld) None = Some 100 \<and> (0::real) \<le> 100"
    using getMaxLifespan_freshWorld by (simp add: freshWorld_def defaultState_def)
  have v: "effectiveAge (the_S freshWorld) = 0" "current_ts (timeSpeed (the_S freshWorld)) = 1"
    "yearsPerSecondOr1 BAL = 0.01"
    by (simp_all add: freshWorld_def defaultState_def effectiveAge_def yearsPerSecondOr1_def BAL_def)
  from tickLifespan_age [of BAL freshWorld 0 "Fin 2" 100] g
  have "effectiveAge (the_S (tickLifespan BAL 0 (Fin 2) freshWorld)) =
          max 0 (min (effectiveAge (the_S freshWorld)
             + max 0 2 * current_ts (timeSpeed (the_S freshWorld)) * yearsPerSecondOr1 BAL) 100)"
    by simp
  then have "effectiveAge (the_S (tickLifespan BAL 0 (Fin 2) freshWorld)) = 0.02"
    unfolding v by simp
  with g show ?thesis by simp
qed

section \<open>The offline cap\<close>

lemma forget_handleLifespanEnd:
  "forgetDeathClock (handleLifespanEnd cfg now1 w) = forgetDeathClock (handleLifespanEnd cfg now2 w)"
  by (simp add: forgetDeathClock_def handleLifespanEnd_def computeDeathKarma_def
      computeKarmaGain_def Let_def)

lemma forget_latchAndHandle:
  "forgetDeathClock (latchAndHandle cfg now1 w) = forgetDeathClock (latchAndHandle cfg now2 w)"
  unfolding latchAndHandle_def by (rule forget_handleLifespanEnd)

lemma forget_checkLifespanGate:
  "forgetDeathClock (checkLifespanGate cfg now1 w) = forgetDeathClock (checkLifespanGate cfg now2 w)"
  unfolding checkLifespanGate_def Let_def
  by (auto split: option.splits intro: forget_latchAndHandle)

lemma forget_offlineReplay:
  "forgetDeathClock (offlineReplay cfg now1 sp c v w) = forgetDeathClock (offlineReplay cfg now2 sp c v w)"
  unfolding offlineReplay_def Let_def
  by (auto intro: forget_checkLifespanGate)

lemma forget_fields:
  "qi (the_S (forgetDeathClock w)) = qi (the_S w)"
  "reinc (the_S (forgetDeathClock w)) = reinc (the_S w)"
  "age (the_S (forgetDeathClock w)) = age (the_S w)"
  by (simp_all add: forgetDeathClock_def)

lemma resume_unfold:
  assumes "session (the_S w) = Some snap"
  shows "applyOfflineProgressOnResume cfg now sp w =
     (if lastTs snap = 0 \<or> lastSpeed snap \<le> 0 \<or> max 0 ((now - lastTs snap) div 1000) < 1
      then w\<lparr> the_S := (the_S w)\<lparr> session := None \<rparr> \<rparr>
      else offlineReplay cfg now sp
             (min (of_int (max 0 ((now - lastTs snap) div 1000))) (capHours cfg * 3600))
             (lastSpeed snap) w)"
  using assms by (simp add: applyOfflineProgressOnResume_def Let_def)

lemma capped_at_cap:
  fixes c e :: int
  assumes "1 \<le> c" and "c \<le> e"
  shows "min (real_of_int (max 0 e)) (real_of_int c) = real_of_int c \<and> \<not> max 0 e < 1"
  using assms by simp

text \<open>
  C9. When the cap \<open>capHours * 3600\<close> is a whole number \<open>c \<ge> 1\<close> of seconds, the replay
  of a gap strictly larger than the cap and the replay of a gap of exactly the cap give
  the same world up to the wall-clock stamp \<open>lastDeathAt\<close> of a death triggered by the
  replay; in particular the same Qi, lifetime Qi and age.
\<close>

theorem offline_replay_capped:
  assumes "session (the_S w) = Some snap"
    and "capHours cfg * 3600 = of_int c" and "1 \<le> c"
    and "c * 1000 < now1 - lastTs snap"
    and "now2 - lastTs snap = c * 1000"
  shows "forgetDeathClock (applyOfflineProgressOnResume cfg now1 sp w)
           = forgetDeathClock (applyOfflineProgressOnResume cfg now2 sp w)
       \<and> qi (the_S (applyOfflineProgressOnResume cfg now1 sp w))
           = qi (the_S (applyOfflineProgressOnResume cfg now2 sp w))
       \<and> lifetimeQi (reinc (the_S (applyOfflineProgressOnResume cfg now1 sp w)))
           = lifetimeQi (reinc (the_S (applyOfflineProgressOnResume cfg now2 sp w)))
       \<and> age (the_S (applyOfflineProgressOnResume cfg now1 sp w))
           = age (the_S (applyOfflineProgressOnResume cfg now2 sp w))"
proof -
  let ?r1 = "applyOfflineProgressOnResume cfg now1 sp w"
  let ?r2 = "applyOfflineProgressOnResume cfg now2 sp w"
  let ?cleared = "w\<lparr> the_S := (the_S w)\<lparr> session := None \<rparr> \<rparr>"
  have e2: "c \<le> (now2 - lastTs snap) div 1000" using assms(5) by simp
  have e1: "c \<le> (now1 - lastTs snap) div 1000" using assms(4) by linarith
  note c1 = capped_at_cap [OF assms(3) e1]
  note c2 = capped_at_cap [OF assms(3) e2]
  have r1: "?r1 = (if lastTs snap = 0 \<or> lastSpeed snap \<le> 0 then ?cleared
                   else offlineReplay cfg now1 sp (of_int c) (lastSpeed snap) w)"
    unfolding resume_unfold [OF assms(1)] assms(2) using c1 by presburger
  have r2: "?r2 = (if lastTs snap = 0 \<or> lastSpeed snap \<le> 0 then ?cleared
                   else offlineReplay cfg now2 sp (of_int c) (lastSpeed snap) w)"
    unfolding resume_unfold [OF assms(1)] assms(2) using c2 by presburger
  have f: "forgetDeathClock ?r1 = forgetDeathClock ?r2"
  proof (cases "lastTs snap = 0 \<or> lastSpeed snap \<le> 0")
    case True
    then show ?thesis unfolding r1 r2 by presburger
  next
    case False
    then have "?r1 = offlineReplay cfg now1 sp (of_int c) (lastSpeed snap) w"
      and "?r2 = offlineReplay cfg now2 sp (of_int c) (lastSpeed snap) w"
      unfolding r1 r2 by presburger+
    then show ?thesis using forget_offlineReplay by presburger
  qed
  have "qi (the_S (forgetDeathClock ?r1)) = qi (the_S (forgetDeathClock ?r2))"
    "reinc (the_S (forgetDeathClock ?r1)) = reinc (the_S (forgetDeathClock ?r2))"
    "age (the_S (forgetDeathClock ?r1)) = age (the_S (forgetDeathClock ?r2))"
    unfolding f by (rule refl)+
  then show ?thesis using f unfolding forget_fields by presburger
qed

theorem offline_replay_capped_witness:
  "session (the_S awayWorld) = Some \<lparr> lastTs = 1000, lastSpeed = 1 \<rparr>
   \<and> capHours BAL * 3600 = of_int 43200 \<and> (1::int) \<le> 43200
   \<and> (43200::int) * 1000 < 90000000 - lastTs \<lparr> lastTs = 1000, lastSpeed = 1 \<rparr>
   \<and> 43201000 - lastTs \<lparr> lastTs = 1000, lastSpeed = 1 \<rparr> = (43200::int) * 1000
   \<and> qi (the_S (applyOfflineProgressOnResume BAL 90000000 True awayWorld))
       = qi (the_S (applyOfflineProgressOnResume BAL 43201000 True awayWorld))
   \<and> age (the_S (applyOfflineProgressOnResume BAL 90000000 True awayWorld))
       = age (the_S (applyOfflineProgressOnResume BAL 43201000 True awayWorld))"
proof -
  have h1: "session (the_S awayWorld) = Some \<lparr> lastTs = 1000, lastSpeed = 1 \<rparr>"
    by (simp add: awayWorld_def)
  have h2: "capHours BAL * 3600 = of_int 43200" by (simp add: BAL_def)
  have h3: "(1::int) \<le> 43200" by simp
  have h4: "(43200::int) * 1000 < 90000000 - lastTs \<lparr> lastTs = 1000, lastSpeed = 1 \<rparr>" by simp
  have h5: "43201000 - lastTs \<lparr> lastTs = 1000, lastSpeed = 1 \<rparr> = (43200::int) * 1000" by simp
  from offline_replay_capped [OF h1 h2 h3 h4 h5, of True] h1 h2 h3 h4 h5
  show ?thesis by blast
qed

section \<open>Offline replay against live ticks\<close>




lemma checkLifespanGate_young:
  assumes "getMaxLifespan cfg (the_S u) None = Some m" and "age (the_S u) = Some a" and "a < m"
  shows "checkLifespanGate cfg now u = u"
  using assms by (simp add: checkLifespanGate_def isImmortal_def effectiveAge_def Let_def)

lemma tick_unfold:
  assumes "\<not> paused (timeSpeed (the_S w))" and "0 < current_ts (timeSpeed (the_S w))"
    and "\<not> isReincarnating (lifecycle (the_S w))" and "\<not> isHandlingDeath w"
  shows "tick cfg now (Fin d) w =
           checkLifespanGate cfg now (tickLifespan cfg now (Fin d)
             (w\<lparr> the_S := addLifetimeQi (Fin (totalQPS cfg (the_S w) * (d * current_ts (timeSpeed (the_S w)))))
                  (safeAddQi (Fin (totalQPS cfg (the_S w) * (d * current_ts (timeSpeed (the_S w)))))
                    (the_S w)) \<rparr>))"
  using assms by (simp add: tick_def getTimeSpeed_def Let_def)











lemma effectiveAge_session [simp]: "effectiveAge (S0\<lparr> session := x \<rparr>) = effectiveAge S0"
  by (simp add: effectiveAge_def split: option.split)

lemma offlineQi_fields [simp]:
  "getMaxLifespan cfg (offlineQi g S0) ri = getMaxLifespan cfg S0 ri"
  "max_ls (lifespan (offlineQi g S0)) = max_ls (lifespan S0)"
  "effectiveAge (offlineQi g S0) = effectiveAge S0"
  "qi (offlineQi g S0) = (if 0 < g then max 0 (min (qi S0 + g) qiCeiling) else qi S0)"
  by (simp_all add: offlineQi_def)













section \<open>A clock set back\<close>

text \<open>A karma gain computed from a negative lifetime Qi is NaN.\<close>

lemma karma_gain_NaN:
  assumes "lifetimeQi (reinc S0) < 0" and "0 < lifetimeQiDivisor cfg"
  shows "computeKarmaGain cfg S0 = NaN" "computeVoluntaryKarma cfg S0 = NaN"
    "computeDeathKarma cfg S0 = NaN"
proof -
  have "lifetimeQi (reinc S0) / lifetimeQiDivisor cfg < 0"
    using assms by (simp add: divide_neg_pos)
  then show g: "computeKarmaGain cfg S0 = NaN"
    using assms(2) by (simp add: computeKarmaGain_def js_div_def Let_def)
  show "computeVoluntaryKarma cfg S0 = NaN" by (simp add: computeVoluntaryKarma_def g)
  show "computeDeathKarma cfg S0 = NaN" by (simp add: computeDeathKarma_def g)
qed

lemma performDeathReincarnation_NaN: "performDeathReincarnation cfg now NaN S0 = None"
  by (simp add: performDeathReincarnation_def)

lemma doReincarnate_NaN:
  assumes "lifetimeQi (reinc (the_S w)) < 0" and "0 < lifetimeQiDivisor cfg"
  shows "doReincarnate cfg now md w = None"
proof -
  let ?S0 = "(the_S w)\<lparr> lifecycle := (lifecycle (the_S w))\<lparr> isReincarnating := True,
                                                       lastReincarnateAt := now \<rparr> \<rparr>"
  have "lifetimeQi (reinc ?S0) < 0" using assms(1) by simp
  from karma_gain_NaN [OF this assms(2)] show ?thesis
    by (simp add: doReincarnate_def Let_def)
qed

text \<open>A death transition from a finite gain completes.\<close>

lemma performDeathReincarnation_completes:
  "\<exists>S'. performDeathReincarnation cfg now (Fin g) S0 = Some S'
        \<and> karma (reinc S') = karma (reinc S0) + g
        \<and> stats_deaths S' = stats_deaths S0 + 1
        \<and> reinc_times (reinc S') = reinc_times (reinc S0)"
  by (simp add: performDeathReincarnation_def Let_def)

lemma computeDeathKarma_finite:
  assumes "0 \<le> lifetimeQi (reinc S0)" and "0 < lifetimeQiDivisor cfg"
  shows "\<exists>g. computeDeathKarma cfg S0 = Fin g \<and> minKarma cfg \<le> g"
proof -
  from computeKarmaGain_finite [OF assms] obtain k where "computeKarmaGain cfg S0 = Fin k"
    by blast
  then show ?thesis by (simp add: computeDeathKarma_def)
qed

lemma death_transition_completes:
  assumes "\<not> isHandlingDeath v" and "\<not> isReincarnating (lifecycle (the_S v))"
    and "\<not> isDead (the_S v)"
    and "0 \<le> lifetimeQi (reinc (the_S v))" and "0 < lifetimeQiDivisor cfg"
  shows "\<exists>v'. dismissDeathAlert cfg now' (handleLifespanEnd cfg now v) = Some v'
             \<and> karmaOf v + minKarma cfg \<le> karmaOf v'
             \<and> stats_deaths (the_S v') = stats_deaths (the_S v) + 1"
proof -
  let ?S1 = "(the_S v)\<lparr> isDead := True,
                lifecycle := (lifecycle (the_S v))\<lparr> isReincarnating := True, lastDeathAt := now \<rparr>,
                timeSpeed := \<lparr> current_ts = 0, paused = True \<rparr> \<rparr>"
  have "0 \<le> lifetimeQi (reinc ?S1)" using assms(4) by simp
  from computeDeathKarma_finite [OF this assms(5)] obtain g
    where g: "computeDeathKarma cfg ?S1 = Fin g" "minKarma cfg \<le> g" by blast
  have h: "handleLifespanEnd cfg now v =
             v\<lparr> the_S := ?S1, isHandlingDeath := True, pendingDeathGain := Some (Fin g),
                ui := ui v @ [DeathAlert] \<rparr>"
    using assms(1-3) g(1) by (simp add: handleLifespanEnd_def Let_def)
  from performDeathReincarnation_completes [of cfg now' g ?S1] obtain S'
    where S': "performDeathReincarnation cfg now' (Fin g) ?S1 = Some S'"
      "karma (reinc S') = karma (reinc ?S1) + g" "stats_deaths S' = stats_deaths ?S1 + 1"
    by blast
  show ?thesis
    unfolding h using S' g(2) by (simp add: dismissDeathAlert_def karmaOf_def)
qed

lemma computeDeathKarma_cong:
  "reinc S' = reinc S0 \<Longrightarrow> realmIndex S' = realmIndex S0 \<Longrightarrow> currentCycle S' = currentCycle S0
   \<Longrightarrow> computeDeathKarma cfg S' = computeDeathKarma cfg S0"
  by (simp add: computeDeathKarma_def computeKarmaGain_def Let_def)

lemma age_addLifetimeQi [simp]: "age (addLifetimeQi x S0) = age S0"
  by (simp add: addLifetimeQi_def)

text \<open>
  A tick of \<open>d \<le> 0\<close> seconds, away from the end of the lifespan: the Qi is kept
  (\<open>safeAddQi\<close> ignores an amount \<open>\<le> 0\<close>), the age is kept (\<open>tickLifespan\<close> clamps \<open>dt\<close>
  at 0), and the lifetime Qi takes the non-positive gain.
\<close>

lemma tick_backwards:
  assumes "\<not> paused (timeSpeed (the_S w))" and "0 < current_ts (timeSpeed (the_S w))"
    and "\<not> isReincarnating (lifecycle (the_S w))" and "\<not> isHandlingDeath w"
    and "d \<le> 0" and "0 \<le> totalQPS cfg (the_S w)"
    and "getMaxLifespan cfg (the_S w) None = Some m" and "age (the_S w) = Some a" and "a < m"
  shows "tick cfg now (Fin d) w =
           w\<lparr> the_S := addLifetimeQi
                  (Fin (totalQPS cfg (the_S w) * (d * current_ts (timeSpeed (the_S w))))) (the_S w) \<rparr>"
proof -
  let ?g = "totalQPS cfg (the_S w) * (d * current_ts (timeSpeed (the_S w)))"
  let ?w1 = "w\<lparr> the_S := addLifetimeQi (Fin ?g) (the_S w) \<rparr>"
  have "d * current_ts (timeSpeed (the_S w)) \<le> 0"
    using assms(2,5) by (simp add: mult_le_0_iff)
  then have "?g \<le> 0" using assms(6) by (simp add: mult_le_0_iff)
  then have s: "safeAddQi (Fin ?g) (the_S w) = the_S w" by (simp add: safeAddQi_def)
  have t: "tick cfg now (Fin d) w = checkLifespanGate cfg now (tickLifespan cfg now (Fin d) ?w1)"
    unfolding tick_unfold [OF assms(1-4)] s ..
  have c: "checkLifespanGate cfg now ?w1 = ?w1"
    by (rule checkLifespanGate_young [where m = m and a = a]) (use assms in simp_all)
  show ?thesis
    unfolding t tickLifespan_nonpositive [OF assms(5)] c ..
qed

lemma handled_latchAndHandle: "lifespanHandled (flags (the_S (latchAndHandle cfg now u)))"
  by (simp add: latchAndHandle_def handleLifespanEnd_def Let_def)

lemma checkLifespanGate_handled:
  "lifespanHandled (flags (the_S u)) \<Longrightarrow> checkLifespanGate cfg now u = u"
  by (simp add: checkLifespanGate_def Let_def)

lemma tickLifespan_dies:
  assumes "\<not> paused (timeSpeed (the_S u))" and "0 < current_ts (timeSpeed (the_S u))"
    and "\<not> isReincarnating (lifecycle (the_S u))" and "\<not> isDead (the_S u)"
    and "\<not> lifespanHandled (flags (the_S u))"
    and "getMaxLifespan cfg (the_S u) None = Some m" and "0 \<le> m" and "0 < d"
    and "m \<le> effectiveAge (the_S u) + d * current_ts (timeSpeed (the_S u)) * yearsPerSecondOr1 cfg"
  shows "tickLifespan cfg now (Fin d) u =
           latchAndHandle cfg now (u\<lparr> the_S := setAge m (initAge (migrateAge (the_S u))) \<rparr>)"
proof -
  have clamp: "clampAge (Some m) (effectiveAge (the_S u)
                 + d * current_ts (timeSpeed (the_S u)) * yearsPerSecondOr1 cfg) = m"
    using assms(7,9) by (simp add: clampAge_def)
  show ?thesis
    using assms(1-6,8) clamp
    by (simp add: tickLifespan_def isImmortal_def Let_def max_def)
qed

text \<open>
  The tick in which the lifespan runs out: the death alert opens, holding the death karma
  computed from the lifetime Qi as the tick leaves it.
\<close>

lemma tick_fatal:
  assumes "\<not> paused (timeSpeed (the_S w))" and "0 < current_ts (timeSpeed (the_S w))"
    and "\<not> isReincarnating (lifecycle (the_S w))" and "\<not> isHandlingDeath w"
    and "\<not> isDead (the_S w)" and "\<not> lifespanHandled (flags (the_S w))"
    and "getMaxLifespan cfg (the_S w) None = Some m" and "0 \<le> m" and "0 < d"
    and "m \<le> effectiveAge (the_S w) + d * current_ts (timeSpeed (the_S w)) * yearsPerSecondOr1 cfg"
  shows "pendingDeathGain (tick cfg now (Fin d) w) =
           Some (computeDeathKarma cfg
             (addLifetimeQi (Fin (totalQPS cfg (the_S w) * (d * current_ts (timeSpeed (the_S w)))))
                (the_S w)))
       \<and> isHandlingDeath (tick cfg now (Fin d) w)"
proof -
  let ?g = "Fin (totalQPS cfg (the_S w) * (d * current_ts (timeSpeed (the_S w))))"
  let ?S1 = "addLifetimeQi ?g (safeAddQi ?g (the_S w))"
  let ?w1 = "w\<lparr> the_S := ?S1 \<rparr>"
  let ?w3 = "?w1\<lparr> the_S := setAge m (initAge (migrateAge ?S1)) \<rparr>"
  have t1: "tick cfg now (Fin d) w = checkLifespanGate cfg now (tickLifespan cfg now (Fin d) ?w1)"
    by (rule tick_unfold [OF assms(1-4)])
  have t2: "tickLifespan cfg now (Fin d) ?w1 = latchAndHandle cfg now ?w3"
    using tickLifespan_dies [of ?w1 cfg m d now] assms by simp
  have t3: "checkLifespanGate cfg now (latchAndHandle cfg now ?w3) = latchAndHandle cfg now ?w3"
    by (rule checkLifespanGate_handled [OF handled_latchAndHandle])
  have t: "tick cfg now (Fin d) w = latchAndHandle cfg now ?w3" unfolding t1 t2 t3 ..
  let ?S4 = "(setAge m (initAge (migrateAge ?S1)))\<lparr>
               flags := (flags (setAge m (initAge (migrateAge ?S1))))\<lparr> lifespanHandled := True \<rparr>,
               isDead := True,
               lifecycle := (lifecycle (setAge m (initAge (migrateAge ?S1))))\<lparr>
                  isReincarnating := True, lastDeathAt := now \<rparr>,
               timeSpeed := \<lparr> current_ts = 0, paused = True \<rparr> \<rparr>"
  have p: "pendingDeathGain (latchAndHandle cfg now ?w3) = Some (computeDeathKarma cfg ?S4)"
    "isHandlingDeath (latchAndHandle cfg now ?w3)"
    using assms(3,4,5) by (simp_all add: latchAndHandle_def handleLifespanEnd_def Let_def)
  have "computeDeathKarma cfg ?S4 = computeDeathKarma cfg (addLifetimeQi ?g (the_S w))"
    by (rule computeDeathKarma_cong) (simp_all add: addLifetimeQi_def)
  with p show ?thesis unfolding t by simp
qed

lemma lateLife_facts:
  "\<not> paused (timeSpeed (the_S lateLife))"
  "current_ts (timeSpeed (the_S lateLife)) = 1"
  "\<not> isReincarnating (lifecycle (the_S lateLife))"
  "\<not> isHandlingDeath lateLife"
  "\<not> isDead (the_S lateLife)"
  "\<not> lifespanHandled (flags (the_S lateLife))"
  "getMaxLifespan BAL (the_S lateLife) None = Some 100"
  "age (the_S lateLife) = Some 99.99"
  "effectiveAge (the_S lateLife) = 99.99"
  "totalQPS BAL (the_S lateLife) = 1"
  "reinc (the_S lateLife) = \<lparr> reinc_times = 0, karma = 0, lifetimeQi = 100 \<rparr>"
  "realmIndex (the_S lateLife) = 0"
  "currentCycle (the_S lateLife) = mortal"
  "pendingDeathGain lateLife = None"
  by (simp_all add: lateLife_def defaultState_def effectiveAge_def getMaxLifespan_def
      karmaLifeMult_def firstLifespanOr100_def totalQPS_def skillLevel_def
      baseEff_def karmaQiMult_def cyclePowerMult_def BAL_def Let_def)

lemma deathKarma_lateLife:
  "computeDeathKarma BAL (addLifetimeQi (Fin 2) (the_S lateLife)) = Fin 1"
proof -
  have "(0::real) \<le> sqrt (51 / 500)" "sqrt (51 / 500 :: real) < 1" by simp_all
  then have "\<lfloor>sqrt (51 / 500 :: real)\<rfloor> = 0" by (simp add: floor_eq_iff)
  then show ?thesis
    by (simp add: computeDeathKarma_def computeKarmaGain_def js_div_def deathPenaltyOrHalf_def
        addLifetimeQi_def lateLife_facts BAL_def Let_def)
qed

text \<open>
  The two resets return \<open>None\<close> exactly when the karma they would store is not a finite
  number.
\<close>

lemma performDeathReincarnation_None_iff:
  "performDeathReincarnation cfg now g S0 = None
     \<longleftrightarrow> \<not> js_isFinite (js_add (Fin (karma (reinc S0))) g)"
  by (cases "js_add (Fin (karma (reinc S0))) g")
     (simp_all add: performDeathReincarnation_def Let_def)

lemma doReincarnate_None_iff:
  "doReincarnate cfg now md w = None
     \<longleftrightarrow> \<not> js_isFinite (js_add (Fin (karma (reinc (the_S w))))
           (if md = death
            then computeDeathKarma cfg ((the_S w)\<lparr> lifecycle := (lifecycle (the_S w))\<lparr>
                   isReincarnating := True, lastReincarnateAt := now \<rparr> \<rparr>)
            else computeVoluntaryKarma cfg ((the_S w)\<lparr> lifecycle := (lifecycle (the_S w))\<lparr>
                   isReincarnating := True, lastReincarnateAt := now \<rparr> \<rparr>)))"
  by (cases "js_add (Fin (karma (reinc (the_S w))))
           (if md = death
            then computeDeathKarma cfg ((the_S w)\<lparr> lifecycle := (lifecycle (the_S w))\<lparr>
                   isReincarnating := True, lastReincarnateAt := now \<rparr> \<rparr>)
            else computeVoluntaryKarma cfg ((the_S w)\<lparr> lifecycle := (lifecycle (the_S w))\<lparr>
                   isReincarnating := True, lastReincarnateAt := now \<rparr> \<rparr>))")
     (simp_all add: doReincarnate_def Let_def)

text \<open>
  C7. The driver loop passes \<open>(Date.now() - last) / 1000\<close> to \<open>tick\<close>; when the wall
  clock is set back between two frames, that is negative. Late in a first life with 100
  lifetime Qi and 1 Qi per second, a tick of -120 seconds leaves the Qi and the age alone
  but takes the lifetime Qi to -20. Two seconds later the lifespan ends: the death karma
  is computed from a negative lifetime Qi and is NaN, and the death transition stores
  \<open>0 + NaN\<close> as the new karma (the run of the model ends: \<open>None\<close>). Without the negative
  tick the same death pays 1 karma.
\<close>

theorem negative_tick_corrupts_karma:
  "karmaOf lateLife = 0
   \<and> lifetimeQi (reinc (the_S (tick BAL 1000 (Fin (- 120)) lateLife))) = - 20
   \<and> pendingDeathGain (tick BAL 2000 (Fin 2) (tick BAL 1000 (Fin (- 120)) lateLife)) = Some NaN
   \<and> run BAL [(1000, Tick (Fin (- 120))), (2000, Tick (Fin 2)), (3000, DismissDeath)] lateLife = None
   \<and> pendingDeathGain (tick BAL 2000 (Fin 2) lateLife) = Some (Fin 1)
   \<and> map_option karmaOf (run BAL [(2000, Tick (Fin 2)), (3000, DismissDeath)] lateLife) = Some 1"
proof -
  let ?w1 = "lateLife\<lparr> the_S := addLifetimeQi (Fin (- 120)) (the_S lateLife) \<rparr>"
  have y: "yearsPerSecondOr1 BAL = 0.01" and dv: "0 < lifetimeQiDivisor BAL"
    by (simp_all add: yearsPerSecondOr1_def BAL_def)
  have k0: "karmaOf lateLife = 0" by (simp add: karmaOf_def lateLife_facts)
  have t1: "tick BAL 1000 (Fin (- 120)) lateLife = ?w1"
    using tick_backwards [of lateLife "- 120" BAL 100 "99.99" 1000]
    by (simp add: lateLife_facts)
  have l1: "lifetimeQi (reinc (the_S ?w1)) = - 20" by (simp add: lateLife_facts)
  have q1: "totalQPS BAL (addLifetimeQi (Fin (- 120)) (the_S lateLife)) = 1"
    using totalQPS_cong [of "addLifetimeQi (Fin (- 120)) (the_S lateLife)" "the_S lateLife" BAL]
    by (simp add: lateLife_facts)
  have "pendingDeathGain (tick BAL 2000 (Fin 2) ?w1) =
          Some (computeDeathKarma BAL (addLifetimeQi (Fin 2) (the_S ?w1)))"
    using tick_fatal [of ?w1 BAL 100 2 2000] by (simp add: lateLife_facts q1 y)
  moreover have "computeDeathKarma BAL (addLifetimeQi (Fin 2) (the_S ?w1)) = NaN"
    by (rule karma_gain_NaN(3) [OF _ dv]) (simp add: lateLife_facts)
  ultimately have p1: "pendingDeathGain (tick BAL 2000 (Fin 2) ?w1) = Some NaN" by simp
  have r1: "run BAL [(1000, Tick (Fin (- 120))), (2000, Tick (Fin 2)), (3000, DismissDeath)] lateLife
              = None"
    by (simp add: t1 dismissDeathAlert_def p1 performDeathReincarnation_NaN)
  have "pendingDeathGain (tick BAL 2000 (Fin 2) lateLife) =
          Some (computeDeathKarma BAL (addLifetimeQi (Fin 2) (the_S lateLife)))"
    using tick_fatal [of lateLife BAL 100 2 2000] by (simp add: lateLife_facts y)
  then have p2: "pendingDeathGain (tick BAL 2000 (Fin 2) lateLife) = Some (Fin 1)"
    unfolding deathKarma_lateLife .
  have k2: "karma (reinc (the_S (tick BAL 2000 (Fin 2) lateLife))) = 0"
    using keeps_tick [of BAL lateLife 2000 "Fin 2"] k0 by (simp add: keeps_def karmaOf_def)
  obtain S' where S': "performDeathReincarnation BAL 3000 (Fin 1)
                         (the_S (tick BAL 2000 (Fin 2) lateLife)) = Some S'"
    and kS: "karma (reinc S') = karma (reinc (the_S (tick BAL 2000 (Fin 2) lateLife))) + 1"
    using performDeathReincarnation_completes
      [of BAL 3000 1 "the_S (tick BAL 2000 (Fin 2) lateLife)"] by blast
  have r2: "map_option karmaOf (run BAL [(2000, Tick (Fin 2)), (3000, DismissDeath)] lateLife)
              = Some 1"
    by (simp add: dismissDeathAlert_def p2 S' karmaOf_def kS k2)
  show ?thesis
    using k0 l1 p1 r1 p2 r2 unfolding t1 by blast
qed

end
